(* ===== verification/Prelude.thy ===== *)
theory Prelude
  imports Main "HOL-Library.Sublist"
begin

text \<open>
  Shared vocabulary of the development: the Python values, exceptions and string
  operations the services use, and the generic lemmas the component theories rely on.

  \<^item> \<open>pyval\<close> is the untyped data the services exchange (a parsed TOML or JSON document, a
    Kubernetes YAML document, the arguments of a command).  A Python dictionary keeps its
    insertion order, and several services depend on it, so a dictionary is an association
    list whose keys are distinct (\<open>dict_wf\<close>), read with \<open>dict_get\<close> and written with
    \<open>dict_set\<close>, which replaces in place or appends.
  \<^item> \<open>pyexc\<close> collects the exceptions that the sources raise or catch.
  \<^item> a call that may raise and that changes state is a function
    \<open>'w \<Rightarrow> (pyexc + 'a) \<times> 'w\<close>: as in Python, the effects made before a raise stay.
\<close>

named_theorems dict_simps \<open>equations of the ordered dictionaries\<close>
named_theorems py_simps \<open>equations of the exception and state combinators\<close>

section \<open>Values and exceptions\<close>

datatype pyval =
    PNone
  | PBool bool
  | PInt int
  | PStr string
  | PList "pyval list"
  | PDict "(string \<times> pyval) list"

datatype pyexc =
    ValueError string
  | KeyError string
  | TypeError string
  | IndexError
  | AttributeError string
  | RuntimeError string
  | AssertionError string
  | DescriptorError string
  | ExecutionEngineException string
  | NoResourcesFoundException string
  | NoK8sResourcesFoundError string
  | KafkaServiceCallbackException
  | LoopAlreadyRunningException
  | LoopNotRunningException
  | NoNodeError
  | BadVersionError
  | ApiException int
  | CalledProcessError string
  | ClientError string
  | HttpServerError
  | HttpClientError
  | InvalidDigestError
  | S3Error
  | CurlError
  | UnknownSchemeException string
  | FifoNotCreatedInTimeError
  | OtherException string

text \<open>Python's truth value of the objects that the sources test with \<open>if x\<close> or \<open>not x\<close>.\<close>

fun truthy :: "pyval \<Rightarrow> bool" where
  "truthy PNone = False"
| "truthy (PBool b) = b"
| "truthy (PInt i) = (i \<noteq> 0)"
| "truthy (PStr s) = (s \<noteq> [])"
| "truthy (PList xs) = (xs \<noteq> [])"
| "truthy (PDict d) = (d \<noteq> [])"

definition truthy_str :: "string option \<Rightarrow> bool" where
  "truthy_str s = (case s of None \<Rightarrow> False | Some t \<Rightarrow> t \<noteq> [])"

lemma truthy_str_simps [simp]:
  "\<not> truthy_str None"
  "truthy_str (Some s) = (s \<noteq> [])"
  by (simp_all add: truthy_str_def)

lemma truthy_strE [elim]:
  assumes "truthy_str s"
  obtains t where "s = Some t" "t \<noteq> []"
  using assms by (cases s) auto

section \<open>Ordered dictionaries\<close>

type_synonym 'v dict = "(string \<times> 'v) list"

definition dict_get :: "('k \<times> 'v) list \<Rightarrow> 'k \<Rightarrow> 'v option" where
  "dict_get d k = map_of d k"

fun dict_set :: "('k \<times> 'v) list \<Rightarrow> 'k \<Rightarrow> 'v \<Rightarrow> ('k \<times> 'v) list" where
  "dict_set [] k v = [(k, v)]"
| "dict_set ((k', v') # d) k v =
     (if k' = k then (k', v) # d else (k', v') # dict_set d k v)"

definition dict_del :: "('k \<times> 'v) list \<Rightarrow> 'k \<Rightarrow> ('k \<times> 'v) list" where
  "dict_del d k = filter (\<lambda>(k', _). k' \<noteq> k) d"

definition dict_has :: "('k \<times> 'v) list \<Rightarrow> 'k \<Rightarrow> bool" where
  "dict_has d k = (k \<in> set (map fst d))"

definition dict_wf :: "('k \<times> 'v) list \<Rightarrow> bool" where
  "dict_wf d = distinct (map fst d)"

text \<open>\<open>{**d, **e}\<close> and \<open>d.update(e)\<close>: the entries of \<open>e\<close> are stored one after the other.\<close>

fun dict_update :: "('k \<times> 'v) list \<Rightarrow> ('k \<times> 'v) list \<Rightarrow> ('k \<times> 'v) list" where
  "dict_update d [] = d"
| "dict_update d ((k, v) # e) = dict_update (dict_set d k v) e"

lemma dict_get_Nil [simp, dict_simps]: "dict_get [] k = None"
  by (simp add: dict_get_def)

lemma dict_get_Cons [simp, dict_simps]:
  "dict_get ((k', v) # d) k = (if k' = k then Some v else dict_get d k)"
  by (simp add: dict_get_def)

lemma dict_get_set [simp, dict_simps]:
  "dict_get (dict_set d k v) k' = (if k' = k then Some v else dict_get d k')"
  by (induction d k v rule: dict_set.induct) auto

lemma keys_dict_set [simp, dict_simps]:
  "map fst (dict_set d k v) = (if k \<in> set (map fst d) then map fst d else map fst d @ [k])"
  by (induction d k v rule: dict_set.induct) auto

lemma dict_has_iff: "dict_has d k \<longleftrightarrow> dict_get d k \<noteq> None"
  by (simp add: dict_has_def dict_get_def map_of_eq_None_iff)

lemma dict_get_None_iff: "dict_get d k = None \<longleftrightarrow> k \<notin> set (map fst d)"
  by (simp add: dict_get_def map_of_eq_None_iff)

lemma dict_get_SomeD: "dict_get d k = Some v \<Longrightarrow> (k, v) \<in> set d"
  by (simp add: dict_get_def map_of_SomeD)

lemma dict_get_del [simp, dict_simps]:
  "dict_get (dict_del d k) k' = (if k' = k then None else dict_get d k')"
  by (induction d) (auto simp: dict_del_def dict_get_def)

lemma dict_wf_set [simp, intro, dict_simps]: "dict_wf d \<Longrightarrow> dict_wf (dict_set d k v)"
  unfolding dict_wf_def keys_dict_set by simp

lemma dict_wf_del [simp, intro, dict_simps]: "dict_wf d \<Longrightarrow> dict_wf (dict_del d k)"
  by (induction d) (auto simp: dict_wf_def dict_del_def)

lemma dict_wf_Nil [simp, dict_simps]: "dict_wf []"
  by (simp add: dict_wf_def)

lemma dict_wf_update [simp, intro, dict_simps]: "dict_wf d \<Longrightarrow> dict_wf (dict_update d e)"
  by (induction d e rule: dict_update.induct) auto

text \<open>
  The interface the services rely on when they read and write a dictionary, and the facts
  they need about a whole update.
\<close>

locale dictionary =
  fixes get :: "'d \<Rightarrow> 'k \<Rightarrow> 'v option"
    and put :: "'d \<Rightarrow> 'k \<Rightarrow> 'v \<Rightarrow> 'd"
    and wf :: "'d \<Rightarrow> bool"
  assumes get_put: "get (put d k v) k' = (if k' = k then Some v else get d k')"
    and wf_put: "wf d \<Longrightarrow> wf (put d k v)"
begin

lemma wf_fold_put: "wf d \<Longrightarrow> wf (fold (\<lambda>(k, v) d. put d k v) kvs d)"
  by (induction kvs arbitrary: d) (auto simp: wf_put)

lemma get_fold_put_notin:
  "k \<notin> fst ` set kvs \<Longrightarrow> get (fold (\<lambda>(k, v) d. put d k v) kvs d) k = get d k"
  by (induction kvs arbitrary: d) (auto simp: get_put)

lemma get_fold_put:
  "distinct (map fst kvs) \<Longrightarrow>
   get (fold (\<lambda>(k, v) d. put d k v) kvs d) k =
     (case map_of kvs k of Some v \<Rightarrow> Some v | None \<Rightarrow> get d k)"
proof (induction kvs arbitrary: d)
  case Nil
  then show ?case by simp
next
  case (Cons kv kvs)
  obtain a b where kv: "kv = (a, b)" by (cases kv)
  with Cons.prems have "map_of kvs a = None" and "distinct (map fst kvs)"
    by (auto simp: map_of_eq_None_iff)
  with Cons.IH [of "put d a b"] kv show ?case
    by (simp add: get_put split: option.splits)
qed

end

interpretation odict: dictionary dict_get dict_set dict_wf
  by unfold_locales auto

lemma dict_update_fold: "dict_update d e = fold (\<lambda>(k, v) d. dict_set d k v) e d"
  by (induction d e rule: dict_update.induct) auto

lemma dict_get_update [dict_simps]:
  "dict_wf e \<Longrightarrow>
   dict_get (dict_update d e) k = (case dict_get e k of Some v \<Rightarrow> Some v | None \<Rightarrow> dict_get d k)"
  unfolding dict_update_fold dict_wf_def
  by (simp add: odict.get_fold_put dict_get_def [of e])

section \<open>Calls that may raise\<close>

text \<open>A pure computation that may raise: \<open>Inl\<close> the exception, \<open>Inr\<close> the result.\<close>

type_synonym 'a res = "pyexc + 'a"

definition res_bind :: "'a res \<Rightarrow> ('a \<Rightarrow> 'b res) \<Rightarrow> 'b res" where
  "res_bind m f = (case m of Inl e \<Rightarrow> Inl e | Inr x \<Rightarrow> f x)"

fun res_map :: "('a \<Rightarrow> 'b res) \<Rightarrow> 'a list \<Rightarrow> 'b list res" where
  "res_map f [] = Inr []"
| "res_map f (x # xs) =
     res_bind (f x) (\<lambda>y. res_bind (res_map f xs) (\<lambda>ys. Inr (y # ys)))"

text \<open>A fold that stops at the first exception, as a Python \<open>for\<close> loop does.\<close>

fun res_fold :: "('a \<Rightarrow> 's \<Rightarrow> 's res) \<Rightarrow> 'a list \<Rightarrow> 's \<Rightarrow> 's res" where
  "res_fold f [] s = Inr s"
| "res_fold f (x # xs) s = res_bind (f x s) (res_fold f xs)"

lemma res_bind_simps [simp, py_simps]:
  "res_bind (Inl e) f = Inl e"
  "res_bind (Inr x) f = f x"
  by (simp_all add: res_bind_def)

lemma res_bind_eq_Inr [simp]:
  "res_bind m f = Inr y \<longleftrightarrow> (\<exists>x. m = Inr x \<and> f x = Inr y)"
  by (cases m) auto

lemma res_bind_eq_Inl:
  "res_bind m f = Inl e \<longleftrightarrow> m = Inl e \<or> (\<exists>x. m = Inr x \<and> f x = Inl e)"
  by (cases m) auto

lemma res_bind_assoc: "res_bind (res_bind m f) g = res_bind m (\<lambda>x. res_bind (f x) g)"
  by (cases m) auto

lemma res_map_Inr_iff:
  "res_map f xs = Inr ys \<longleftrightarrow> list_all2 (\<lambda>x y. f x = Inr y) xs ys"
  by (induction xs arbitrary: ys) (auto simp: list_all2_Cons1)

lemma list_all2_in1: "list_all2 P xs ys \<Longrightarrow> x \<in> set xs \<Longrightarrow> \<exists>y \<in> set ys. P x y"
  by (induction rule: list_all2_induct) auto

lemma list_all2_in2: "list_all2 P xs ys \<Longrightarrow> y \<in> set ys \<Longrightarrow> \<exists>x \<in> set xs. P x y"
  by (induction rule: list_all2_induct) auto

lemma res_map_total: "(\<And>x. x \<in> set xs \<Longrightarrow> f x = Inr (g x)) \<Longrightarrow> res_map f xs = Inr (map g xs)"
  by (induction xs) auto

lemma res_fold_inv:
  assumes "res_fold f xs s = Inr s'"
    and "P s"
    and "\<And>x s s'. x \<in> set xs \<Longrightarrow> P s \<Longrightarrow> f x s = Inr s' \<Longrightarrow> P s'"
  shows "P s'"
  using assms by (induction xs arbitrary: s) auto

text \<open>
  \<open>keeps_at R s m\<close>: if the computation \<open>m\<close>, which started from the object \<open>s\<close>, returns a changed
  object, the change is one that \<open>R\<close> allows.
\<close>

definition keeps_at :: "('s \<Rightarrow> 's \<Rightarrow> bool) \<Rightarrow> 's \<Rightarrow> 's res \<Rightarrow> bool" where
  "keeps_at R s m = (\<forall>s'. m = Inr s' \<longrightarrow> R s s')"

lemma keeps_atD: "keeps_at R s m \<Longrightarrow> m = Inr s' \<Longrightarrow> R s s'"
  by (simp add: keeps_at_def)

lemma keeps_at_raise: "keeps_at R s (Inl e)"
  by (simp add: keeps_at_def)

lemma keeps_at_let: "keeps_at R s (f x) \<Longrightarrow> keeps_at R s (Let x f)"
  by simp

lemma keeps_at_value: "(\<And>x. m = Inr x \<Longrightarrow> keeps_at R s (f x)) \<Longrightarrow> keeps_at R s (res_bind m f)"
  by (cases m) (auto simp: keeps_at_def)

lemma keeps_at_option:
  "(x = None \<Longrightarrow> keeps_at R s m) \<Longrightarrow> (\<And>y. x = Some y \<Longrightarrow> keeps_at R s (f y)) \<Longrightarrow>
   keeps_at R s (case x of None \<Rightarrow> m | Some y \<Rightarrow> f y)"
  by (cases x) auto

locale object_order =
  fixes R :: "'s \<Rightarrow> 's \<Rightarrow> bool"
  assumes refl: "R s s"
    and trans: "R s t \<Longrightarrow> R t u \<Longrightarrow> R s u"
begin

lemma keeps_return: "keeps_at R s (Inr s)"
  by (simp add: keeps_at_def refl)

lemma keeps_bind:
  "keeps_at R s m \<Longrightarrow> (\<And>s'. m = Inr s' \<Longrightarrow> keeps_at R s' (f s')) \<Longrightarrow> keeps_at R s (res_bind m f)"
  by (cases m) (auto simp: keeps_at_def intro: trans)

lemma keeps_fold:
  "(\<And>x s. x \<in> set xs \<Longrightarrow> keeps_at R s (f x s)) \<Longrightarrow> keeps_at R s (res_fold f xs s)"
proof (induction xs arbitrary: s)
  case Nil
  then show ?case by (simp add: keeps_return)
next
  case (Cons x xs)
  then show ?case by (auto intro: keeps_bind)
qed

lemma keeps_if: "(b \<Longrightarrow> keeps_at R s m) \<Longrightarrow> (\<not> b \<Longrightarrow> keeps_at R s n) \<Longrightarrow> keeps_at R s (if b then m else n)"
  by simp

lemmas keeps_intros = keeps_return keeps_at_raise keeps_if keeps_fold keeps_bind

end

text \<open>
  A call with effects on a world \<open>'w\<close>: it returns the exception or the result together with
  the world it leaves.
\<close>

type_synonym ('w, 'a) py = "'w \<Rightarrow> 'a res \<times> 'w"

definition py_return :: "'a \<Rightarrow> ('w, 'a) py" where
  "py_return x = (\<lambda>w. (Inr x, w))"

definition py_raise :: "pyexc \<Rightarrow> ('w, 'a) py" where
  "py_raise e = (\<lambda>w. (Inl e, w))"

definition py_bind :: "('w, 'a) py \<Rightarrow> ('a \<Rightarrow> ('w, 'b) py) \<Rightarrow> ('w, 'b) py" where
  "py_bind m f = (\<lambda>w. case m w of (Inl e, w') \<Rightarrow> (Inl e, w') | (Inr x, w') \<Rightarrow> f x w')"

definition py_then :: "('w, 'a) py \<Rightarrow> ('w, 'b) py \<Rightarrow> ('w, 'b) py" where
  "py_then m n = py_bind m (\<lambda>_. n)"

text \<open>\<open>try: m except \<dots>\<close>: the handler sees the exception and the world at the raise.\<close>

definition py_catch :: "('w, 'a) py \<Rightarrow> (pyexc \<Rightarrow> ('w, 'a) py) \<Rightarrow> ('w, 'a) py" where
  "py_catch m h = (\<lambda>w. case m w of (Inl e, w') \<Rightarrow> h e w' | (Inr x, w') \<Rightarrow> (Inr x, w'))"

definition py_lift :: "'a res \<Rightarrow> ('w, 'a) py" where
  "py_lift r = (\<lambda>w. (r, w))"

definition py_modify :: "('w \<Rightarrow> 'w) \<Rightarrow> ('w, unit) py" where
  "py_modify f = (\<lambda>w. (Inr (), f w))"

fun py_for :: "'a list \<Rightarrow> ('a \<Rightarrow> ('w, unit) py) \<Rightarrow> ('w, unit) py" where
  "py_for [] f = py_return ()"
| "py_for (x # xs) f = py_then (f x) (py_for xs f)"

lemma py_run [simp, py_simps]:
  "py_return x w = (Inr x, w)"
  "py_raise e w = (Inl e, w)"
  "py_lift r w = (r, w)"
  "py_modify g w = (Inr (), g w)"
  by (simp_all add: py_return_def py_raise_def py_lift_def py_modify_def)

lemma py_bind_run [py_simps]:
  "py_bind m f w = (case m w of (Inl e, w') \<Rightarrow> (Inl e, w') | (Inr x, w') \<Rightarrow> f x w')"
  by (simp add: py_bind_def)

lemma py_then_run [py_simps]:
  "py_then m n w = (case m w of (Inl e, w') \<Rightarrow> (Inl e, w') | (Inr x, w') \<Rightarrow> n w')"
  by (simp add: py_then_def py_bind_def)

lemma py_catch_run [py_simps]:
  "py_catch m h w = (case m w of (Inl e, w') \<Rightarrow> h e w' | (Inr x, w') \<Rightarrow> (Inr x, w'))"
  by (simp add: py_catch_def)

lemma py_bind_return [simp]: "py_bind (py_return x) f = f x"
  by (simp add: py_bind_def fun_eq_iff)

lemma py_then_return [simp]: "py_then (py_return x) n = n"
  by (simp add: py_then_def)

lemma py_bind_assoc: "py_bind (py_bind m f) g = py_bind m (\<lambda>x. py_bind (f x) g)"
  by (auto simp: py_bind_def fun_eq_iff split: prod.splits sum.splits)

text \<open>
  \<open>keeps R m\<close>: whatever \<open>m\<close> returns or raises, the world it leaves is related by \<open>R\<close> to the
  one it started in.  With a reflexive and transitive \<open>R\<close> the relation is compositional.
\<close>

definition keeps :: "('w \<Rightarrow> 'w \<Rightarrow> bool) \<Rightarrow> ('w, 'a) py \<Rightarrow> bool" where
  "keeps R m = (\<forall>w. R w (snd (m w)))"

locale world_order =
  fixes R :: "'w \<Rightarrow> 'w \<Rightarrow> bool"
  assumes refl: "R w w"
    and trans: "R u v \<Longrightarrow> R v w \<Longrightarrow> R u w"
begin

lemma keeps_return: "keeps R (py_return x)"
  by (simp add: keeps_def refl)

lemma keeps_raise: "keeps R (py_raise e)"
  by (simp add: keeps_def refl)

lemma keeps_lift: "keeps R (py_lift r)"
  by (simp add: keeps_def refl)

lemma keeps_bind:
  assumes "keeps R m" and "\<And>x. keeps R (f x)"
  shows "keeps R (py_bind m f)"
  unfolding keeps_def
proof
  fix w
  have "R w (snd (m w))" using assms(1) by (simp add: keeps_def)
  moreover have "R w' (snd (f x w'))" for x w' using assms(2) by (simp add: keeps_def)
  ultimately show "R w (snd (py_bind m f w))"
    by (auto simp: py_bind_def intro: trans split: prod.splits sum.splits)
qed

lemma keeps_then: "keeps R m \<Longrightarrow> keeps R n \<Longrightarrow> keeps R (py_then m n)"
  unfolding py_then_def by (rule keeps_bind)

lemma keeps_catch:
  assumes "keeps R m" and "\<And>e. keeps R (h e)"
  shows "keeps R (py_catch m h)"
  unfolding keeps_def
proof
  fix w
  have "R w (snd (m w))" using assms(1) by (simp add: keeps_def)
  moreover have "R w' (snd (h e w'))" for e w' using assms(2) by (simp add: keeps_def)
  ultimately show "R w (snd (py_catch m h w))"
    by (auto simp: py_catch_def intro: trans split: prod.splits sum.splits)
qed

lemma keeps_for: "(\<And>x. x \<in> set xs \<Longrightarrow> keeps R (f x)) \<Longrightarrow> keeps R (py_for xs f)"
  by (induction xs) (auto simp: keeps_return intro: keeps_then)

lemma keeps_if: "(b \<Longrightarrow> keeps R m) \<Longrightarrow> (\<not> b \<Longrightarrow> keeps R n) \<Longrightarrow> keeps R (if b then m else n)"
  by simp

lemmas keeps_intros = keeps_return keeps_raise keeps_lift keeps_bind keeps_then keeps_catch
  keeps_for keeps_if

end

end
