(* ===== verification/Py_Strings.thy ===== *)
theory Py_Strings
  imports Prelude
begin

text \<open>
  The operations of Python's \<open>str\<close> and of \<open>urllib.parse\<close> that the services use, on
  character lists.  Letter case is ASCII: that is what the identifiers, schemes and
  environment variables of the services are made of.

  The facts shown are the round trips the services rely on: \<open>int(str(n)) = n\<close> (sequence
  numbers of ZooKeeper nodes), \<open>split\<close> against \<open>join\<close> (comma separated options, puller
  arguments), and the parsing of an \<open>s3://bucket/key\<close> address back into bucket and key.
\<close>

named_theorems str_simps \<open>equations of the string operations\<close>

section \<open>Characters\<close>

definition is_digit :: "char \<Rightarrow> bool" where
  "is_digit c = (48 \<le> (of_char c :: nat) \<and> (of_char c :: nat) \<le> 57)"

definition digit_val :: "char \<Rightarrow> nat" where
  "digit_val c = of_char c - 48"

definition digit_char :: "nat \<Rightarrow> char" where
  "digit_char n = char_of (48 + n)"

definition is_upper :: "char \<Rightarrow> bool" where
  "is_upper c = (65 \<le> (of_char c :: nat) \<and> (of_char c :: nat) \<le> 90)"

definition is_lower :: "char \<Rightarrow> bool" where
  "is_lower c = (97 \<le> (of_char c :: nat) \<and> (of_char c :: nat) \<le> 122)"

definition is_alnum :: "char \<Rightarrow> bool" where
  "is_alnum c = (is_digit c \<or> is_upper c \<or> is_lower c)"

definition lower_char :: "char \<Rightarrow> char" where
  "lower_char c = (if is_upper c then char_of ((of_char c :: nat) + 32) else c)"

definition upper_char :: "char \<Rightarrow> char" where
  "upper_char c = (if is_lower c then char_of ((of_char c :: nat) - 32) else c)"

definition str_lower :: "string \<Rightarrow> string" where
  "str_lower s = map lower_char s"

definition str_upper :: "string \<Rightarrow> string" where
  "str_upper s = map upper_char s"

lemma of_char_digit_char [simp]: "n < 10 \<Longrightarrow> (of_char (digit_char n) :: nat) = 48 + n"
  by (simp add: digit_char_def)

lemma is_digit_digit_char [simp]: "n < 10 \<Longrightarrow> is_digit (digit_char n)"
  by (simp add: is_digit_def)

lemma digit_val_digit_char [simp]: "n < 10 \<Longrightarrow> digit_val (digit_char n) = n"
  by (simp add: digit_val_def)

lemma lower_char_idem: "lower_char (lower_char c) = lower_char c"
  by (auto simp: lower_char_def is_upper_def)

lemma str_lower_idem [simp, str_simps]: "str_lower (str_lower s) = str_lower s"
  by (simp add: str_lower_def lower_char_idem)

lemma length_str_lower [simp]: "length (str_lower s) = length s"
  by (simp add: str_lower_def)

lemma str_lower_append [simp, str_simps]: "str_lower (s @ t) = str_lower s @ str_lower t"
  by (simp add: str_lower_def)

section \<open>Searching, splitting, joining\<close>

definition startswith :: "string \<Rightarrow> string \<Rightarrow> bool" where
  "startswith s p = (take (length p) s = p)"

definition endswith :: "string \<Rightarrow> string \<Rightarrow> bool" where
  "endswith s p = (length p \<le> length s \<and> drop (length s - length p) s = p)"

text \<open>\<open>p in s\<close> and \<open>s.find(p)\<close> (\<open>None\<close> for \<open>-1\<close>).\<close>

fun str_find :: "string \<Rightarrow> string \<Rightarrow> nat option" where
  "str_find [] p = (if p = [] then Some 0 else None)"
| "str_find (c # s) p =
     (if startswith (c # s) p then Some 0 else map_option Suc (str_find s p))"

definition str_contains :: "string \<Rightarrow> string \<Rightarrow> bool" where
  "str_contains s p = (str_find s p \<noteq> None)"

fun split_on :: "char \<Rightarrow> string \<Rightarrow> string list" where
  "split_on c [] = [[]]"
| "split_on c (x # xs) =
     (if x = c then [] # split_on c xs
      else (case split_on c xs of [] \<Rightarrow> [[x]] | p # ps \<Rightarrow> (x # p) # ps))"

fun str_join :: "string \<Rightarrow> string list \<Rightarrow> string" where
  "str_join sep [] = []"
| "str_join sep [p] = p"
| "str_join sep (p # q # ps) = p @ sep @ str_join sep (q # ps)"

definition is_space :: "char \<Rightarrow> bool" where
  "is_space c = (c = CHR '' '' \<or> (9 \<le> (of_char c :: nat) \<and> (of_char c :: nat) \<le> 13))"

definition str_strip :: "string \<Rightarrow> string" where
  "str_strip s = rev (dropWhile is_space (rev (dropWhile is_space s)))"

text \<open>\<open>s.rindex(c)\<close>: the position of the last occurrence, \<open>ValueError\<close> if there is none.\<close>

fun str_rindex :: "string \<Rightarrow> char \<Rightarrow> nat res" where
  "str_rindex [] c = Inl (ValueError ''substring not found'')"
| "str_rindex (x # s) c =
     (case str_rindex s c of
        Inr i \<Rightarrow> Inr (Suc i)
      | Inl e \<Rightarrow> if x = c then Inr 0 else Inl e)"

text \<open>
  \<open>repr\<close> of a string: single quotes unless the text has some and no double ones, with backslash,
  the quote and unprintable characters escaped.
\<close>

definition hex_char :: "nat \<Rightarrow> char" where
  "hex_char n = ''0123456789abcdef'' ! n"

definition repr_char :: "char \<Rightarrow> char \<Rightarrow> string" where
  "repr_char q c =
     (if c = CHR 0x5C then [CHR 0x5C, CHR 0x5C]
      else if c = q then [CHR 0x5C, q]
      else if c = CHR 0x0A then [CHR 0x5C, CHR ''n'']
      else if c = CHR 0x0D then [CHR 0x5C, CHR ''r'']
      else if c = CHR 0x09 then [CHR 0x5C, CHR ''t'']
      else if (of_char c :: nat) < 32 \<or> (of_char c :: nat) = 127 then
        [CHR 0x5C, CHR ''x'', hex_char (of_char c div 16), hex_char (of_char c mod 16)]
      else [c])"

definition py_repr_str :: "string \<Rightarrow> string" where
  "py_repr_str s =
     (let q = (if CHR 0x27 \<in> set s \<and> CHR 0x22 \<notin> set s then CHR 0x22 else CHR 0x27)
      in q # concat (map (repr_char q) s) @ [q])"

definition py_repr_list :: "string list \<Rightarrow> string" where
  "py_repr_list xs = ''['' @ str_join '', '' (map py_repr_str xs) @ '']''"

lemma startswith_prefix: "startswith s p \<longleftrightarrow> prefix p s"
  by (metis append_eq_conv_conj append_take_drop_id prefix_def startswith_def)

lemma startswith_append [simp, str_simps]: "startswith (p @ s) p"
  by (simp add: startswith_def)

lemma startswith_Nil [simp, str_simps]: "startswith s []"
  by (simp add: startswith_def)

lemma str_find_append: "str_find (a @ p @ b) p \<noteq> None"
proof (induction a)
  case Nil
  have "startswith (p @ b) p" by simp
  then show ?case
    by (cases "p @ b") (simp_all del: startswith_append)
next
  case (Cons c a)
  then show ?case by simp
qed

lemma str_contains_append [intro]: "str_contains (a @ p @ b) p"
  by (simp add: str_contains_def str_find_append)

lemma startswith_subset: "startswith s p \<Longrightarrow> set p \<subseteq> set s"
  by (auto simp: startswith_prefix prefix_def)

lemma str_find_subset: "str_find s p = Some i \<Longrightarrow> set p \<subseteq> set s"
proof (induction s arbitrary: i)
  case Nil
  then show ?case using startswith_subset [of "[]" p] by (auto split: if_splits)
next
  case (Cons c s)
  then show ?case using startswith_subset [of "c # s" p] by (auto split: if_splits)
qed

lemma str_contains_subset: "str_contains s p \<Longrightarrow> set p \<subseteq> set s"
  using str_find_subset by (auto simp: str_contains_def)

lemma split_on_not_Nil [simp]: "split_on c s \<noteq> []"
  by (induction s) (auto split: list.splits)

lemma split_on_no_sep: "p \<in> set (split_on c s) \<Longrightarrow> c \<notin> set p"
proof (induction s arbitrary: p)
  case Nil
  then show ?case by simp
next
  case (Cons x s)
  show ?case
  proof (cases "split_on c s")
    case Nil
    then show ?thesis by simp
  next
    case (Cons q qs)
    with Cons.prems Cons.IH show ?thesis by (auto split: if_splits)
  qed
qed

lemma join_split_on: "str_join [c] (split_on c s) = s"
proof (induction s)
  case Nil
  then show ?case by simp
next
  case (Cons x s)
  obtain p ps where "split_on c s = p # ps"
    by (metis list.exhaust split_on_not_Nil)
  with Cons show ?case by (cases ps) auto
qed

lemma split_on_no_occurrence: "c \<notin> set p \<Longrightarrow> split_on c p = [p]"
  by (induction p) auto

lemma split_on_append: "c \<notin> set p \<Longrightarrow> split_on c (p @ c # s) = p # split_on c s"
  by (induction p) auto

lemma split_join:
  assumes "ps \<noteq> []" and "\<forall>p \<in> set ps. c \<notin> set p"
  shows "split_on c (str_join [c] ps) = ps"
  using assms
proof (induction "[c]" ps rule: str_join.induct)
  case 1
  then show ?case by simp
next
  case (2 p)
  then show ?case by (simp add: split_on_no_occurrence)
next
  case (3 p q ps)
  then show ?case by (simp add: split_on_append)
qed

lemma set_str_join: "c \<in> set (str_join sep ps) \<Longrightarrow> c \<in> set sep \<or> (\<exists>p \<in> set ps. c \<in> set p)"
  by (induction sep ps rule: str_join.induct) auto

lemma str_rindex_notin: "c \<notin> set s \<Longrightarrow> str_rindex s c = Inl (ValueError ''substring not found'')"
  by (induction s) auto

lemma str_rindex_append:
  "c \<notin> set t \<Longrightarrow> str_rindex (s @ c # t) c = Inr (length s)"
  by (induction s) (auto simp: str_rindex_notin)

section \<open>Decimal numbers\<close>

fun show_nat :: "nat \<Rightarrow> string" where
  "show_nat n = (if n < 10 then [digit_char n] else show_nat (n div 10) @ [digit_char (n mod 10)])"

declare show_nat.simps [simp del]

definition show_int :: "int \<Rightarrow> string" where
  "show_int i = (if i < 0 then ''-'' @ show_nat (nat (- i)) else show_nat (nat i))"

text \<open>
  The digits of Python's \<open>int()\<close>: the flag says whether the last character read was a
  digit, since an underscore may stand between two digits only.
\<close>

fun parse_digits :: "bool \<Rightarrow> nat \<Rightarrow> string \<Rightarrow> nat option" where
  "parse_digits ok acc [] = (if ok then Some acc else None)"
| "parse_digits ok acc (c # cs) =
     (if is_digit c then parse_digits True (10 * acc + digit_val c) cs
      else if c = CHR ''_'' \<and> ok then parse_digits False acc cs
      else None)"

definition parse_int :: "string \<Rightarrow> int res" where
  "parse_int s =
     (let t = str_strip s;
          r = (if startswith t ''-'' then map_option (\<lambda>n. - int n) (parse_digits False 0 (tl t))
               else if startswith t ''+'' then map_option int (parse_digits False 0 (tl t))
               else map_option int (parse_digits False 0 t))
      in case r of Some i \<Rightarrow> Inr i | None \<Rightarrow> Inl (ValueError ''invalid literal for int()''))"

lemma show_nat_not_Nil [simp]: "show_nat n \<noteq> []"
  by (subst show_nat.simps) simp

lemma show_nat_digits: "c \<in> set (show_nat n) \<Longrightarrow> is_digit c"
proof (induction n rule: show_nat.induct)
  case (1 n)
  show ?case
  proof (cases "n < 10")
    case True
    with "1.prems" show ?thesis by (simp add: show_nat.simps [of n])
  next
    case False
    with "1.prems" "1.IH" show ?thesis by (auto simp: show_nat.simps [of n])
  qed
qed

lemma parse_digits_append:
  "\<forall>c \<in> set s. is_digit c \<Longrightarrow> s \<noteq> [] \<Longrightarrow>
   parse_digits ok acc (s @ t) =
     parse_digits True (foldl (\<lambda>a c. 10 * a + digit_val c) acc s) t"
proof (induction s arbitrary: ok acc)
  case Nil
  then show ?case by simp
next
  case (Cons c s)
  show ?case
  proof (cases "s = []")
    case True
    with Cons.prems show ?thesis by simp
  next
    case False
    with Cons show ?thesis by (simp add: Cons.IH)
  qed
qed

lemma foldl_show_nat: "foldl (\<lambda>a c. 10 * a + digit_val c) 0 (show_nat n) = n"
proof (induction n rule: show_nat.induct)
  case (1 n)
  show ?case
  proof (cases "n < 10")
    case True
    then show ?thesis by (simp add: show_nat.simps [of n])
  next
    case False
    with "1.IH" show ?thesis by (simp add: show_nat.simps [of n])
  qed
qed

lemma show_nat_inject [simp]: "show_nat m = show_nat n \<longleftrightarrow> m = n"
  by (metis foldl_show_nat)

lemma parse_digits_show_nat: "parse_digits False 0 (show_nat n) = Some n"
  using parse_digits_append [of "show_nat n" False 0 "[]"] show_nat_digits [of _ n]
  by (simp add: foldl_show_nat)

lemma is_digit_not_space: "is_digit c \<Longrightarrow> \<not> is_space c"
  by (auto simp: is_digit_def is_space_def)

lemma str_strip_no_space: "\<forall>c \<in> set s. \<not> is_space c \<Longrightarrow> str_strip s = s"
proof -
  assume *: "\<forall>c \<in> set s. \<not> is_space c"
  have drop: "dropWhile is_space t = t" if "\<forall>c \<in> set t. \<not> is_space c" for t
    using that by (cases t) auto
  show ?thesis using * by (simp add: str_strip_def drop)
qed

lemma digit_not_sign: "is_digit c \<Longrightarrow> c \<noteq> CHR ''-'' \<and> c \<noteq> CHR ''+''"
  by (auto simp: is_digit_def)

text \<open>Leading zeros do not matter: \<open>int("%010d" % n) = n\<close>.\<close>

lemma parse_int_padded:
  "parse_int (replicate k (CHR ''0'') @ show_nat n) = Inr (int n)"
proof -
  let ?s = "replicate k (CHR ''0'') @ show_nat n"
  have zero: "is_digit (CHR ''0'')" and zv: "digit_val (CHR ''0'') = 0"
    by (simp_all add: is_digit_def digit_val_def)
  have dig: "\<forall>c \<in> set ?s. is_digit c"
    using zero show_nat_digits by auto
  have strip: "str_strip ?s = ?s"
    using dig is_digit_not_space by (intro str_strip_no_space) blast
  have fold0: "foldl (\<lambda>a c. 10 * a + digit_val c) 0 (replicate k (CHR ''0'')) = 0"
    using zv by (induction k) auto
  have "parse_digits False 0 ?s = Some n"
    using parse_digits_append [of ?s False 0 "[]"] dig fold0
    by (simp add: foldl_show_nat)
  moreover obtain c u where s: "?s = c # u" and c: "is_digit c"
    using dig by (cases ?s) auto
  ultimately show ?thesis
    using digit_not_sign [OF c] strip unfolding parse_int_def s
    by (simp add: Let_def startswith_def)
qed

lemma parse_int_show_nat: "parse_int (show_nat n) = Inr (int n)"
  using parse_int_padded [of 0 n] by simp

lemma show_nat_inj: "show_nat m = show_nat n \<Longrightarrow> m = n"
  by (metis parse_digits_show_nat option.inject)

end
