(* ===== verification/Zk_Locker.thy ===== *)
theory Zk_Locker
  imports Py_Strings
begin

text \<open>
  The distributed read-write locks of \<open>kafka-utils/src/bai_zk_utils/zk_locker.py\<close>.

  ZooKeeper itself is not part of the repository: \<open>zk_api\<close> collects the client calls the
  lock manager makes, and the locale \<open>zk_lock\<close> states what the ZooKeeper documentation
  promises about them for the children of one lock node.  \<open>acquire_lock_loop\<close> is the whole
  loop of one call of \<open>_acquire_lock_loop\<close> against a ZooKeeper that other processes change
  between any two calls.  \<open>lock_step\<close> interleaves any number of clients of one lock, one
  ZooKeeper call at a time, with releases, lost sessions and unrelated activity; the watch of
  a client may fire at any time.  A request whose session is lost no longer counts as holding
  the lock: ZooKeeper has removed its node, whatever the process still does.

  Shown: the loop ends, mutual exclusion, service in the order of the sequence numbers, and
  that a waiting client never waits for nobody.
\<close>

section \<open>Names and sequence numbers\<close>

definition READLOCK_SUFFIX :: string where "READLOCK_SUFFIX = ''readlock-''"

definition WRITELOCK_SUFFIX :: string where "WRITELOCK_SUFFIX = ''writelock-''"

definition get_abs_path :: "string \<Rightarrow> string \<Rightarrow> string" where
  "get_abs_path parent child = parent @ ''/'' @ child"

definition get_lock_node_parent_path :: "string \<Rightarrow> ('s \<Rightarrow> string) \<Rightarrow> 's \<Rightarrow> string" where
  "get_lock_node_parent_path prefix_path get_path state = get_abs_path prefix_path (get_path state)"

definition get_read_lock_path :: "string \<Rightarrow> ('s \<Rightarrow> string) \<Rightarrow> 's \<Rightarrow> string" where
  "get_read_lock_path p get_path state =
     get_abs_path (get_lock_node_parent_path p get_path state) READLOCK_SUFFIX"

definition get_write_lock_path :: "string \<Rightarrow> ('s \<Rightarrow> string) \<Rightarrow> 's \<Rightarrow> string" where
  "get_write_lock_path p get_path state =
     get_abs_path (get_lock_node_parent_path p get_path state) WRITELOCK_SUFFIX"

definition get_sequence_index :: "string \<Rightarrow> int res" where
  "get_sequence_index p =
     res_bind (str_rindex p (CHR ''-'')) (\<lambda>last_delim. parse_int (drop (last_delim + 1) p))"

datatype lock_kind = ReadLock | WriteLock

fun lock_suffix :: "lock_kind \<Rightarrow> string" where
  "lock_suffix ReadLock = READLOCK_SUFFIX"
| "lock_suffix WriteLock = WRITELOCK_SUFFIX"

definition incompatible_with_read :: "string \<Rightarrow> bool" where
  "incompatible_with_read node_path = str_contains node_path WRITELOCK_SUFFIX"

definition incompatible_with_write :: "string \<Rightarrow> bool" where
  "incompatible_with_write node_path = True"

fun is_incompat :: "lock_kind \<Rightarrow> string \<Rightarrow> bool" where
  "is_incompat ReadLock p = incompatible_with_read p"
| "is_incompat WriteLock p = incompatible_with_write p"

section \<open>The acquisition loop\<close>

record 'z zk_api =
  zk_create :: "'z \<Rightarrow> string \<Rightarrow> 'z \<times> string"
  zk_get_children :: "'z \<Rightarrow> string \<Rightarrow> string list"
  zk_exists :: "'z \<Rightarrow> string \<Rightarrow> bool"
  zk_delete :: "'z \<Rightarrow> string \<Rightarrow> 'z"

text \<open>The list comprehension \<open>locks_before\<close>.\<close>

fun locks_before :: "int \<Rightarrow> lock_kind \<Rightarrow> string list \<Rightarrow> string list res" where
  "locks_before my_index k [] = Inr []"
| "locks_before my_index k (p # ps) =
     res_bind (get_sequence_index p) (\<lambda>i.
     res_bind (locks_before my_index k ps) (\<lambda>rest.
       Inr (if i < my_index \<and> is_incompat k p then p # rest else rest)))"

text \<open>
  Where a client is: before its request, about to call \<open>get_children\<close>, about to call \<open>exists\<close>
  on the lock it found in front of it, waiting for the watch on that lock, inside \<open>on_locked\<close>,
  or done.
\<close>

datatype lock_pc =
    NotStarted
  | AtGetChildren
  | AtExists string
  | Watching string
  | Locked
  | Released

text \<open>The two halves of the loop body, one ZooKeeper call each.\<close>

definition check_children :: "'z zk_api \<Rightarrow> 'z \<Rightarrow> string \<Rightarrow> string \<Rightarrow> lock_kind \<Rightarrow> lock_pc res" where
  "check_children api z state_path my_node_path k =
     res_bind (get_sequence_index my_node_path) (\<lambda>my_index.
     res_bind (locks_before my_index k (zk_get_children api z state_path)) (\<lambda>before.
       Inr (case before of [] \<Rightarrow> Locked | rel_current_lock # _ \<Rightarrow> AtExists rel_current_lock)))"

definition check_exists :: "'z zk_api \<Rightarrow> 'z \<Rightarrow> string \<Rightarrow> string \<Rightarrow> lock_pc" where
  "check_exists api z state_path rel_current_lock =
     (if zk_exists api z (get_abs_path state_path rel_current_lock)
      then Watching rel_current_lock else AtGetChildren)"

text \<open>
  One call of \<open>_acquire_lock_loop\<close>.  \<open>zs n\<close> is the state of ZooKeeper when its \<open>n\<close>-th call
  arrives; the fuel bounds the number of iterations, and running out of it is \<open>None\<close>.
\<close>

fun acquire_lock_loop ::
  "nat \<Rightarrow> 'z zk_api \<Rightarrow> (nat \<Rightarrow> 'z) \<Rightarrow> nat \<Rightarrow> string \<Rightarrow> string \<Rightarrow> lock_kind \<Rightarrow> lock_pc res option" where
  "acquire_lock_loop 0 api zs n state_path my_node_path k = None"
| "acquire_lock_loop (Suc fuel) api zs n state_path my_node_path k =
     (case check_children api (zs n) state_path my_node_path k of
        Inr (AtExists current) \<Rightarrow>
          (case check_exists api (zs (n + 1)) state_path current of
             AtGetChildren \<Rightarrow> acquire_lock_loop fuel api zs (n + 2) state_path my_node_path k
           | pc \<Rightarrow> Some (Inr pc))
      | r \<Rightarrow> Some r)"

section \<open>Any number of clients of one lock\<close>

record lock_client =
  lc_kind :: lock_kind
  lc_node :: string
  lc_pc :: lock_pc

record 'z lock_sys =
  lk_zk :: 'z
  lk_clients :: "nat \<Rightarrow> lock_client"

definition set_client :: "nat \<Rightarrow> lock_client \<Rightarrow> 'z lock_sys \<Rightarrow> 'z lock_sys" where
  "set_client i c s = s\<lparr>lk_clients := (lk_clients s)(i := c)\<rparr>"

definition set_pc :: "nat \<Rightarrow> lock_pc \<Rightarrow> 'z lock_sys \<Rightarrow> 'z lock_sys" where
  "set_pc i p s = set_client i ((lk_clients s i)\<lparr>lc_pc := p\<rparr>) s"

definition active :: "lock_client \<Rightarrow> bool" where
  "active c = (lc_pc c \<noteq> NotStarted \<and> lc_pc c \<noteq> Released)"

text \<open>\<open>_acquire_lock\<close> up to its loop: the sequential node of the request.\<close>

definition request_lock :: "'z zk_api \<Rightarrow> string \<Rightarrow> nat \<Rightarrow> lock_kind \<Rightarrow> 'z lock_sys \<Rightarrow> 'z lock_sys" where
  "request_lock api sp i k s =
     (let (z', my_node_path) = zk_create api (lk_zk s) (get_abs_path sp (lock_suffix k))
      in set_client i \<lparr>lc_kind = k, lc_node = my_node_path, lc_pc = AtGetChildren\<rparr> (s\<lparr>lk_zk := z'\<rparr>))"

text \<open>\<open>DistributedLock.release\<close>; also what ZooKeeper does when the client's session is lost.\<close>

definition drop_lock :: "'z zk_api \<Rightarrow> nat \<Rightarrow> 'z lock_sys \<Rightarrow> 'z lock_sys" where
  "drop_lock api i s =
     set_pc i Released (s\<lparr>lk_zk := zk_delete api (lk_zk s) (lc_node (lk_clients s i))\<rparr>)"

inductive lock_step :: "'z zk_api \<Rightarrow> string \<Rightarrow> ('z \<Rightarrow> bool) \<Rightarrow> 'z lock_sys \<Rightarrow> 'z lock_sys \<Rightarrow> bool"
  for api sp zok where
  request: "lc_pc (lk_clients s i) = NotStarted \<Longrightarrow>
     lock_step api sp zok s (request_lock api sp i k s)"
| check: "lc_pc (lk_clients s i) = AtGetChildren \<Longrightarrow>
     check_children api (lk_zk s) sp (lc_node (lk_clients s i)) (lc_kind (lk_clients s i)) = Inr p \<Longrightarrow>
     lock_step api sp zok s (set_pc i p s)"
| test: "lc_pc (lk_clients s i) = AtExists c \<Longrightarrow>
     lock_step api sp zok s (set_pc i (check_exists api (lk_zk s) sp c) s)"
| wake: "lc_pc (lk_clients s i) = Watching c \<Longrightarrow>
     lock_step api sp zok s (set_pc i AtGetChildren s)"
| release: "lc_pc (lk_clients s i) = Locked \<Longrightarrow> lock_step api sp zok s (drop_lock api i s)"
| expire: "active (lk_clients s i) \<Longrightarrow> lock_step api sp zok s (drop_lock api i s)"
| other: "zok z' \<Longrightarrow> set (zk_get_children api z' sp) = set (zk_get_children api (lk_zk s) sp) \<Longrightarrow>
     lock_step api sp zok s (s\<lparr>lk_zk := z'\<rparr>)"

inductive_cases lock_stepE: "lock_step api sp zok s t"

text \<open>
  The start: no client has asked for the lock, and the lock node has no children.
\<close>

inductive lock_reachable :: "'z zk_api \<Rightarrow> string \<Rightarrow> ('z \<Rightarrow> bool) \<Rightarrow> 'z lock_sys \<Rightarrow> bool"
  for api sp zok where
  start: "zok (lk_zk s) \<Longrightarrow> zk_get_children api (lk_zk s) sp = [] \<Longrightarrow>
     (\<And>i. lc_pc (lk_clients s i) = NotStarted) \<Longrightarrow> lock_reachable api sp zok s"
| step: "lock_reachable api sp zok s \<Longrightarrow> lock_step api sp zok s t \<Longrightarrow> lock_reachable api sp zok t"

section \<open>Facts about names\<close>

text \<open>A sequential node: the requested name followed by the zero padded counter.\<close>

definition seq_node :: "lock_kind \<Rightarrow> nat \<Rightarrow> nat \<Rightarrow> string" where
  "seq_node k pad m = lock_suffix k @ replicate pad (CHR ''0'') @ show_nat m"

lemma lock_suffix_dash: "\<exists>a. lock_suffix k = a @ ''-''"
  by (cases k) (simp_all add: READLOCK_SUFFIX_def WRITELOCK_SUFFIX_def)

lemma dash_not_digit: "CHR ''-'' \<notin> set (replicate pad (CHR ''0'') @ show_nat m)"
  using show_nat_digits [of "CHR ''-''" m] by (auto simp: is_digit_def)

lemma get_sequence_index_digits:
  "get_sequence_index (a @ ''-'' @ replicate pad (CHR ''0'') @ show_nat m) = Inr (int m)"
proof -
  let ?d = "replicate pad (CHR ''0'') @ show_nat m"
  have "str_rindex (a @ CHR ''-'' # ?d) (CHR ''-'') = Inr (length a)"
    by (rule str_rindex_append [OF dash_not_digit])
  then show ?thesis
    by (simp add: get_sequence_index_def parse_int_padded)
qed

lemma get_sequence_index_seq_node [simp]: "get_sequence_index (seq_node k pad m) = Inr (int m)"
proof -
  obtain a where "lock_suffix k = a @ ''-''" using lock_suffix_dash by blast
  then show ?thesis using get_sequence_index_digits [of a pad m] by (simp add: seq_node_def)
qed

lemma get_sequence_index_abs [simp]:
  "get_sequence_index (get_abs_path sp (seq_node k pad m)) = Inr (int m)"
proof -
  obtain a where a: "lock_suffix k = a @ ''-''" using lock_suffix_dash by blast
  show ?thesis
    using get_sequence_index_digits [of "sp @ ''/'' @ a" pad m] a
    by (simp add: seq_node_def get_abs_path_def)
qed

lemma get_abs_path_inj [simp]: "get_abs_path sp a = get_abs_path sp b \<longleftrightarrow> a = b"
  by (simp add: get_abs_path_def)

lemma write_node_incompat [simp]: "is_incompat k (seq_node WriteLock pad m)"
proof (cases k)
  case ReadLock
  have "str_contains ([] @ WRITELOCK_SUFFIX @ replicate pad (CHR ''0'') @ show_nat m) WRITELOCK_SUFFIX"
    by (rule str_contains_append)
  with ReadLock show ?thesis by (simp add: seq_node_def incompatible_with_read_def)
next
  case WriteLock
  then show ?thesis by (simp add: incompatible_with_write_def)
qed

lemma locks_before_total:
  assumes "\<forall>p \<in> set ps. get_sequence_index p = Inr (idx p)"
  shows "locks_before m k ps = Inr (filter (\<lambda>p. idx p < m \<and> is_incompat k p) ps)"
  using assms by (induction ps) auto

section \<open>What ZooKeeper promises\<close>

text \<open>
  The children of the lock node \<open>sp\<close>, in any state that satisfies ZooKeeper's own invariant
  \<open>zok\<close>: a sequential node gets a number above those of the children, the names of children
  have no slash, \<open>exists\<close> agrees with \<open>get_children\<close>, and \<open>delete\<close> removes the one node.
\<close>

locale zk_lock =
  fixes api :: "'z zk_api" and sp :: string and zok :: "'z \<Rightarrow> bool"
  assumes create_ok: "zok z \<Longrightarrow> zok (fst (zk_create api z (get_abs_path sp (lock_suffix k))))"
    and delete_ok: "zok z \<Longrightarrow> c \<in> set (zk_get_children api z sp) \<Longrightarrow>
      zok (zk_delete api z (get_abs_path sp c))"
    and create_sequential: "zok z \<Longrightarrow> \<exists>pad m.
      snd (zk_create api z (get_abs_path sp (lock_suffix k))) = get_abs_path sp (seq_node k pad m) \<and>
      set (zk_get_children api (fst (zk_create api z (get_abs_path sp (lock_suffix k)))) sp) =
        insert (seq_node k pad m) (set (zk_get_children api z sp)) \<and>
      (\<forall>c i. c \<in> set (zk_get_children api z sp) \<longrightarrow> get_sequence_index c = Inr i \<longrightarrow> i < int m)"
    and child_name: "zok z \<Longrightarrow> c \<in> set (zk_get_children api z sp) \<Longrightarrow> CHR ''/'' \<notin> set c"
    and exists_child: "zok z \<Longrightarrow> CHR ''/'' \<notin> set c \<Longrightarrow>
      zk_exists api z (get_abs_path sp c) \<longleftrightarrow> c \<in> set (zk_get_children api z sp)"
    and delete_child: "zok z \<Longrightarrow> c \<in> set (zk_get_children api z sp) \<Longrightarrow>
      set (zk_get_children api (zk_delete api z (get_abs_path sp c)) sp) =
        set (zk_get_children api z sp) - {c}"

section \<open>The invariant\<close>

definition kids :: "'z zk_api \<Rightarrow> string \<Rightarrow> 'z lock_sys \<Rightarrow> string set" where
  "kids api sp s = set (zk_get_children api (lk_zk s) sp)"

text \<open>
  Client \<open>i\<close> owns the child with number \<open>m\<close>.
\<close>

definition owns :: "string \<Rightarrow> 'z lock_sys \<Rightarrow> nat \<Rightarrow> string \<Rightarrow> nat \<Rightarrow> bool" where
  "owns sp s i c m \<longleftrightarrow> active (lk_clients s i) \<and> lc_node (lk_clients s i) = get_abs_path sp c \<and>
     (\<exists>pad. c = seq_node (lc_kind (lk_clients s i)) pad m)"

definition lock_inv :: "'z zk_api \<Rightarrow> string \<Rightarrow> ('z \<Rightarrow> bool) \<Rightarrow> 'z lock_sys \<Rightarrow> bool" where
  "lock_inv api sp zok s \<longleftrightarrow> zok (lk_zk s) \<and>
     (\<forall>i. active (lk_clients s i) \<longrightarrow> (\<exists>c m. owns sp s i c m \<and> c \<in> kids api sp s)) \<and>
     (\<forall>c \<in> kids api sp s. \<exists>i m. owns sp s i c m) \<and>
     (\<forall>i j c d m. owns sp s i c m \<longrightarrow> owns sp s j d m \<longrightarrow> i = j) \<and>
     (\<forall>i c m d n. lc_pc (lk_clients s i) = Locked \<longrightarrow> owns sp s i c m \<longrightarrow> d \<in> kids api sp s \<longrightarrow>
        get_sequence_index d = Inr n \<longrightarrow> n < int m \<longrightarrow> \<not> is_incompat (lc_kind (lk_clients s i)) d) \<and>
     (\<forall>i c m d. lc_pc (lk_clients s i) \<in> {AtExists d, Watching d} \<longrightarrow> owns sp s i c m \<longrightarrow>
        (\<exists>n. get_sequence_index d = Inr n \<and> n < int m \<and> is_incompat (lc_kind (lk_clients s i)) d))"

lemma owns_index: "owns sp s i c m \<Longrightarrow> get_sequence_index c = Inr (int m)"
  by (auto simp: owns_def)

lemma owns_unique: "owns sp s i c m \<Longrightarrow> owns sp s i d n \<Longrightarrow> c = d \<and> m = n"
proof -
  assume a: "owns sp s i c m" and b: "owns sp s i d n"
  then have "c = d" by (auto simp: owns_def)
  with owns_index [OF a] owns_index [OF b] show ?thesis by simp
qed

lemma client_upd [simp]:
  "lk_clients (set_client i c s) = (lk_clients s)(i := c)" "lk_zk (set_client i c s) = lk_zk s"
  "lk_zk (set_pc i p s) = lk_zk s"
  "lk_clients (set_pc i p s) = (lk_clients s)(i := (lk_clients s i)\<lparr>lc_pc := p\<rparr>)"
  by (simp_all add: set_client_def set_pc_def)

lemma kids_upd [simp]:
  "kids api sp (set_pc i p s) = kids api sp s" "kids api sp (set_client i c s) = kids api sp s"
  by (simp_all add: kids_def)

lemma owns_set_pc:
  assumes "active (lk_clients s i)" "p \<noteq> NotStarted" "p \<noteq> Released"
  shows "owns sp (set_pc i p s) j c m \<longleftrightarrow> owns sp s j c m"
  using assms by (auto simp: owns_def active_def)

lemma lock_invD:
  assumes "lock_inv api sp zok s"
  shows "zok (lk_zk s)"
    and "active (lk_clients s i) \<Longrightarrow> \<exists>c m. owns sp s i c m \<and> c \<in> kids api sp s"
    and "c \<in> kids api sp s \<Longrightarrow> \<exists>i m. owns sp s i c m"
    and "owns sp s i c m \<Longrightarrow> owns sp s j d m \<Longrightarrow> i = j"
    and "lc_pc (lk_clients s i) = Locked \<Longrightarrow> owns sp s i c m \<Longrightarrow> d \<in> kids api sp s \<Longrightarrow>
      get_sequence_index d = Inr n \<Longrightarrow> n < int m \<Longrightarrow> \<not> is_incompat (lc_kind (lk_clients s i)) d"
    and "lc_pc (lk_clients s i) \<in> {AtExists d, Watching d} \<Longrightarrow> owns sp s i c m \<Longrightarrow>
      \<exists>n. get_sequence_index d = Inr n \<and> n < int m \<and> is_incompat (lc_kind (lk_clients s i)) d"
  using assms unfolding lock_inv_def by blast+

lemma lock_inv_set_pc:
  assumes inv: "lock_inv api sp zok s" and act: "active (lk_clients s i)"
    and p: "p \<noteq> NotStarted" "p \<noteq> Released"
    and locked: "\<And>c m d n. p = Locked \<Longrightarrow> owns sp s i c m \<Longrightarrow> d \<in> kids api sp s \<Longrightarrow>
      get_sequence_index d = Inr n \<Longrightarrow> n < int m \<Longrightarrow> \<not> is_incompat (lc_kind (lk_clients s i)) d"
    and waiting: "\<And>c m d. p \<in> {AtExists d, Watching d} \<Longrightarrow> owns sp s i c m \<Longrightarrow>
      \<exists>n. get_sequence_index d = Inr n \<and> n < int m \<and> is_incompat (lc_kind (lk_clients s i)) d"
  shows "lock_inv api sp zok (set_pc i p s)"
proof -
  note own = owns_set_pc [OF act p]
  have act': "active (lk_clients (set_pc i p s) j) \<longleftrightarrow> active (lk_clients s j)" for j
    using act p by (auto simp: active_def)
  have L: "\<not> is_incompat (lc_kind (lk_clients (set_pc i p s) j)) d"
    if "lc_pc (lk_clients (set_pc i p s) j) = Locked" "owns sp s j c m" "d \<in> kids api sp s"
      "get_sequence_index d = Inr n" "n < int m" for j c m d n
    using that locked lock_invD(5) [OF inv] by (cases "j = i") auto
  have W: "\<exists>n. get_sequence_index d = Inr n \<and> n < int m \<and>
      is_incompat (lc_kind (lk_clients (set_pc i p s) j)) d"
    if "lc_pc (lk_clients (set_pc i p s) j) \<in> {AtExists d, Watching d}" "owns sp s j c m" for j c m d
  proof (cases "j = i")
    case True
    with that have "p \<in> {AtExists d, Watching d}" by simp
    from waiting [OF this] True that(2) show ?thesis by simp
  next
    case False
    with that lock_invD(6) [OF inv, of j d c m] show ?thesis by simp
  qed
  show ?thesis
    unfolding lock_inv_def act' own kids_upd
    using lock_invD(1-4) [OF inv] L W by (simp only: client_upd(3)) blast
qed

context zk_lock
begin

lemma locks_before_inv:
  assumes "lock_inv api sp zok s"
  shows "\<exists>idx. (\<forall>c \<in> kids api sp s. get_sequence_index c = Inr (idx c)) \<and>
    locks_before m k (zk_get_children api (lk_zk s) sp) =
      Inr (filter (\<lambda>c. idx c < m \<and> is_incompat k c) (zk_get_children api (lk_zk s) sp))"
proof -
  have "\<forall>c \<in> kids api sp s. \<exists>n. get_sequence_index c = Inr n"
    using lock_invD(3) [OF assms] owns_index by blast
  then obtain idx where "\<forall>c \<in> kids api sp s. get_sequence_index c = Inr (idx c)"
    by metis
  then show ?thesis using locks_before_total unfolding kids_def by blast
qed

text \<open>\<open>get_children\<close> never raises in a reachable state, and its outcome is as intended.\<close>

lemma check_children_inv:
  assumes inv: "lock_inv api sp zok s" and own: "owns sp s i c m"
  shows "\<exists>p. check_children api (lk_zk s) sp (lc_node (lk_clients s i)) (lc_kind (lk_clients s i)) = Inr p \<and>
    (p = Locked \<and> (\<forall>d n. d \<in> kids api sp s \<longrightarrow> get_sequence_index d = Inr n \<longrightarrow> n < int m \<longrightarrow>
        \<not> is_incompat (lc_kind (lk_clients s i)) d) \<or>
     (\<exists>d n. p = AtExists d \<and> d \<in> kids api sp s \<and> get_sequence_index d = Inr n \<and> n < int m \<and>
        is_incompat (lc_kind (lk_clients s i)) d))"
proof -
  let ?k = "lc_kind (lk_clients s i)" and ?cs = "zk_get_children api (lk_zk s) sp"
  from locks_before_inv [OF inv, of "int m" ?k] obtain idx where
    idx: "\<forall>c \<in> kids api sp s. get_sequence_index c = Inr (idx c)" and
    lb: "locks_before (int m) ?k ?cs = Inr (filter (\<lambda>c. idx c < int m \<and> is_incompat ?k c) ?cs)"
    by blast
  have mine: "get_sequence_index (lc_node (lk_clients s i)) = Inr (int m)"
    using own by (auto simp: owns_def)
  show ?thesis
  proof (cases "filter (\<lambda>c. idx c < int m \<and> is_incompat ?k c) ?cs")
    case Nil
    then have "\<forall>d \<in> kids api sp s. \<not> (idx d < int m \<and> is_incompat ?k d)"
      by (simp add: kids_def filter_empty_conv)
    with idx Nil lb mine show ?thesis by (auto simp: check_children_def)
  next
    case (Cons d ds)
    then have "d \<in> set (filter (\<lambda>c. idx c < int m \<and> is_incompat ?k c) ?cs)" by simp
    then have "d \<in> kids api sp s" "idx d < int m" "is_incompat ?k d" by (auto simp: kids_def)
    with idx Cons lb mine show ?thesis by (auto simp: check_children_def)
  qed
qed

lemma inv_check:
  assumes inv: "lock_inv api sp zok s" and pc: "lc_pc (lk_clients s i) = AtGetChildren"
    and p: "check_children api (lk_zk s) sp (lc_node (lk_clients s i)) (lc_kind (lk_clients s i)) = Inr p"
  shows "lock_inv api sp zok (set_pc i p s)"
proof -
  have act: "active (lk_clients s i)" using pc by (simp add: active_def)
  from lock_invD(2) [OF inv act] obtain c m where own: "owns sp s i c m" by blast
  from check_children_inv [OF inv own] p consider
    (locked) "p = Locked" "\<And>d n. d \<in> kids api sp s \<Longrightarrow> get_sequence_index d = Inr n \<Longrightarrow> n < int m \<Longrightarrow>
        \<not> is_incompat (lc_kind (lk_clients s i)) d"
  | (wait) d n where "p = AtExists d" "get_sequence_index d = Inr n" "n < int m"
        "is_incompat (lc_kind (lk_clients s i)) d" by auto
  then show ?thesis
    by cases (rule lock_inv_set_pc [OF inv act]; use owns_unique [OF own] in auto)+
qed

lemma inv_test:
  assumes inv: "lock_inv api sp zok s" and pc: "lc_pc (lk_clients s i) = AtExists d"
  shows "lock_inv api sp zok (set_pc i (check_exists api (lk_zk s) sp d) s)"
  using lock_invD(6) [OF inv, of i d] pc
  by (intro lock_inv_set_pc [OF inv])
    (auto simp: active_def check_exists_def split: if_splits)

lemma inv_wake:
  assumes inv: "lock_inv api sp zok s" and pc: "lc_pc (lk_clients s i) = Watching d"
  shows "lock_inv api sp zok (set_pc i AtGetChildren s)"
  using pc by (intro lock_inv_set_pc [OF inv]) (auto simp: active_def)

lemma inv_other:
  assumes inv: "lock_inv api sp zok s" and "zok z'"
    and same: "set (zk_get_children api z' sp) = set (zk_get_children api (lk_zk s) sp)"
  shows "lock_inv api sp zok (s\<lparr>lk_zk := z'\<rparr>)"
proof -
  have "kids api sp (s\<lparr>lk_zk := z'\<rparr>) = kids api sp s" using same by (simp add: kids_def)
  moreover have "owns sp (s\<lparr>lk_zk := z'\<rparr>) = owns sp s"
    by (intro ext) (simp add: owns_def)
  ultimately show ?thesis
    using inv \<open>zok z'\<close> unfolding lock_inv_def by simp
qed

lemma inv_drop:
  assumes inv: "lock_inv api sp zok s" and act: "active (lk_clients s i)"
  shows "lock_inv api sp zok (drop_lock api i s)"
proof -
  let ?t = "drop_lock api i s"
  from lock_invD(2) [OF inv act] obtain c m where own: "owns sp s i c m"
    and child: "c \<in> set (zk_get_children api (lk_zk s) sp)" by (auto simp: kids_def)
  have node: "lc_node (lk_clients s i) = get_abs_path sp c" using own by (simp add: owns_def)
  have zok: "zok (lk_zk ?t)"
    using delete_ok [OF lock_invD(1) [OF inv] child] node by (simp add: drop_lock_def)
  have kids: "kids api sp ?t = kids api sp s - {c}"
    using delete_child [OF lock_invD(1) [OF inv] child] node by (simp add: drop_lock_def kids_def)
  have owns: "owns sp ?t j d n \<longleftrightarrow> j \<noteq> i \<and> owns sp s j d n" for j d n
    by (auto simp: owns_def drop_lock_def active_def)
  have same: "j \<noteq> i \<Longrightarrow> lk_clients ?t j = lk_clients s j" for j by (simp add: drop_lock_def)
  have gone: "\<not> active (lk_clients ?t i)" by (simp add: drop_lock_def active_def)
  have other: "d \<noteq> c" if "owns sp s j d n" "j \<noteq> i" for j d n
    using that own owns_index lock_invD(4) [OF inv]
    by (metis of_nat_eq_iff sum.inject(2))
  have "\<exists>d n. owns sp ?t j d n \<and> d \<in> kids api sp ?t" if a: "active (lk_clients ?t j)" for j
  proof -
    have "j \<noteq> i" using a gone by auto
    with a same lock_invD(2) [OF inv, of j] obtain d n where "owns sp s j d n" "d \<in> kids api sp s"
      by auto
    with \<open>j \<noteq> i\<close> other show ?thesis unfolding owns kids by blast
  qed
  moreover have "\<exists>j n. owns sp ?t j d n" if "d \<in> kids api sp ?t" for d
  proof -
    from that kids lock_invD(3) [OF inv, of d] obtain j n where "owns sp s j d n" "d \<noteq> c" by auto
    moreover have "j \<noteq> i" using calculation owns_unique [OF own] by blast
    ultimately show ?thesis unfolding owns by blast
  qed
  moreover have "j = l" if "owns sp ?t j d n" "owns sp ?t l e n" for j l d e n
    using that lock_invD(4) [OF inv] unfolding owns by blast
  moreover have "\<not> is_incompat (lc_kind (lk_clients ?t j)) d"
    if h: "lc_pc (lk_clients ?t j) = Locked" "owns sp ?t j c' n'" "d \<in> kids api sp ?t"
      "get_sequence_index d = Inr n" "n < int n'" for j c' n' d n
  proof -
    have j: "j \<noteq> i" and o: "owns sp s j c' n'" and d: "d \<in> kids api sp s"
      using h(2,3) kids owns by auto
    from lock_invD(5) [OF inv _ o d h(4,5)] h(1) same [OF j] show ?thesis by simp
  qed
  moreover have "\<exists>n. get_sequence_index d = Inr n \<and> n < int n' \<and>
      is_incompat (lc_kind (lk_clients ?t j)) d"
    if h: "lc_pc (lk_clients ?t j) \<in> {AtExists d, Watching d}" "owns sp ?t j c' n'" for j c' n' d
  proof -
    have j: "j \<noteq> i" and o: "owns sp s j c' n'" using h(2) owns by auto
    from lock_invD(6) [OF inv _ o] h(1) same [OF j] show ?thesis by simp
  qed
  ultimately show ?thesis using zok unfolding lock_inv_def by blast
qed

lemma inv_request:
  assumes inv: "lock_inv api sp zok s" and pc: "lc_pc (lk_clients s i) = NotStarted"
  shows "lock_inv api sp zok (request_lock api sp i k s)"
proof -
  let ?t = "request_lock api sp i k s"
  from create_sequential [OF lock_invD(1) [OF inv], of k] obtain pad m where
    node: "snd (zk_create api (lk_zk s) (get_abs_path sp (lock_suffix k))) =
      get_abs_path sp (seq_node k pad m)" and
    kids0: "set (zk_get_children api (fst (zk_create api (lk_zk s) (get_abs_path sp (lock_suffix k)))) sp) =
      insert (seq_node k pad m) (set (zk_get_children api (lk_zk s) sp))" and
    above0: "\<And>c n. c \<in> set (zk_get_children api (lk_zk s) sp) \<Longrightarrow> get_sequence_index c = Inr n \<Longrightarrow> n < int m"
    by blast
  let ?c = "seq_node k pad m"
  have zok: "zok (lk_zk ?t)"
    using create_ok [OF lock_invD(1) [OF inv]] by (simp add: request_lock_def split_beta)
  have kids: "kids api sp ?t = insert ?c (kids api sp s)"
    using kids0 by (simp add: request_lock_def split_beta kids_def)
  have me: "lk_clients ?t i = \<lparr>lc_kind = k, lc_node = get_abs_path sp ?c, lc_pc = AtGetChildren\<rparr>"
    using node by (simp add: request_lock_def split_beta)
  have same: "j \<noteq> i \<Longrightarrow> lk_clients ?t j = lk_clients s j" for j
    by (simp add: request_lock_def split_beta)
  have owns_me: "owns sp ?t i d n \<longleftrightarrow> d = ?c \<and> n = m" for d n
  proof
    assume o: "owns sp ?t i d n"
    then have "d = ?c" by (auto simp: owns_def me)
    with owns_index [OF o] show "d = ?c \<and> n = m" by simp
  qed (auto simp: owns_def me active_def)
  have owns_other: "j \<noteq> i \<Longrightarrow> owns sp ?t j d n \<longleftrightarrow> owns sp s j d n" for j d n
    by (simp add: owns_def same)
  have idle: "\<not> owns sp s i d n" for d n using pc by (simp add: owns_def active_def)
  have below: "n < m \<and> d \<in> kids api sp s" if o: "owns sp s j d n" for j d n
  proof -
    have "active (lk_clients s j)" using o by (simp add: owns_def)
    from lock_invD(2) [OF inv this] owns_unique [OF o] have "d \<in> kids api sp s" by blast
    with above0 [OF _ owns_index [OF o]] show ?thesis by (simp add: kids_def)
  qed
  have "\<exists>d n. owns sp ?t j d n \<and> d \<in> kids api sp ?t" if "active (lk_clients ?t j)" for j
    using that same owns_me owns_other lock_invD(2) [OF inv, of j] kids by (cases "j = i") auto
  moreover have "\<exists>j n. owns sp ?t j d n" if "d \<in> kids api sp ?t" for d
    using that kids owns_me owns_other idle lock_invD(3) [OF inv, of d] by (metis insertE)
  moreover have "j = l" if "owns sp ?t j d n" "owns sp ?t l e n" for j l d e n
    using that owns_me owns_other below lock_invD(4) [OF inv] by (metis less_irrefl)
  moreover have "\<not> is_incompat (lc_kind (lk_clients ?t j)) d"
    if h: "lc_pc (lk_clients ?t j) = Locked" "owns sp ?t j c' n'" "d \<in> kids api sp ?t"
      "get_sequence_index d = Inr n" "n < int n'" for j c' n' d n
  proof -
    have j: "j \<noteq> i" using h(1) me by auto
    then have o: "owns sp s j c' n'" using h(2) owns_other by blast
    have "d \<noteq> ?c" using h(4,5) below [OF o] by auto
    then have "d \<in> kids api sp s" using h(3) kids by blast
    with lock_invD(5) [OF inv _ o _ h(4,5)] h(1) same [OF j] show ?thesis by simp
  qed
  moreover have "\<exists>n. get_sequence_index d = Inr n \<and> n < int n' \<and>
      is_incompat (lc_kind (lk_clients ?t j)) d"
    if h: "lc_pc (lk_clients ?t j) \<in> {AtExists d, Watching d}" "owns sp ?t j c' n'" for j c' n' d
  proof -
    have j: "j \<noteq> i" using h(1) me by auto
    with lock_invD(6) [OF inv, of j d c' n'] h same owns_other show ?thesis by simp
  qed
  ultimately show ?thesis using zok unfolding lock_inv_def by blast
qed

lemma inv_step: "lock_inv api sp zok s \<Longrightarrow> lock_step api sp zok s t \<Longrightarrow> lock_inv api sp zok t"
  by (erule lock_stepE)
    (auto intro: inv_request inv_check inv_test inv_wake inv_drop inv_other simp: active_def)

lemma inv_reachable: "lock_reachable api sp zok s \<Longrightarrow> lock_inv api sp zok s"
proof (induction rule: lock_reachable.induct)
  case (start s)
  then show ?case by (auto simp: lock_inv_def kids_def active_def owns_def)
next
  case (step s t)
  then show ?case using inv_step by blast
qed

text \<open>A request in front of a holder is one that a reader shares the lock with.\<close>

lemma locked_before:
  assumes inv: "lock_inv api sp zok s" and locked: "lc_pc (lk_clients s i) = Locked"
    and i: "owns sp s i c m" and j: "owns sp s j d n" "n < m"
  shows "lc_kind (lk_clients s i) = ReadLock \<and> lc_kind (lk_clients s j) = ReadLock"
proof -
  have "active (lk_clients s j)" using j by (simp add: owns_def)
  from lock_invD(2) [OF inv this] owns_unique [OF j(1)] have "d \<in> kids api sp s" by blast
  from lock_invD(5) [OF inv locked i this owns_index [OF j(1)]] j(2)
  have ok: "\<not> is_incompat (lc_kind (lk_clients s i)) d" by simp
  from j(1) obtain pad where d: "d = seq_node (lc_kind (lk_clients s j)) pad n"
    by (auto simp: owns_def)
  from ok have "lc_kind (lk_clients s i) = ReadLock"
    by (cases "lc_kind (lk_clients s i)") (auto simp: incompatible_with_write_def)
  moreover from ok d have "lc_kind (lk_clients s j) = ReadLock"
    by (cases "lc_kind (lk_clients s j)") auto
  ultimately show ?thesis by blast
qed

text \<open>The request with the smallest number is in front of the queue.\<close>

lemma front_exists:
  assumes inv: "lock_inv api sp zok s" and act: "active (lk_clients s i)"
  shows "\<exists>j c m. owns sp s j c m \<and> (\<forall>l d n. owns sp s l d n \<longrightarrow> m \<le> n)"
proof -
  define P where "P m = (\<exists>j c. owns sp s j c m)" for m
  from lock_invD(2) [OF inv act] obtain m where "P m" unfolding P_def by blast
  then have "P (LEAST m. P m)" by (rule LeastI)
  then obtain j c where "owns sp s j c (LEAST m. P m)" unfolding P_def by blast
  moreover have "\<forall>l d n. owns sp s l d n \<longrightarrow> (LEAST m. P m) \<le> n"
    using Least_le [of P] unfolding P_def by blast
  ultimately show ?thesis by blast
qed

lemma front_not_blocked:
  assumes inv: "lock_inv api sp zok s" and j: "owns sp s j c m"
    and least: "\<forall>l d n. owns sp s l d n \<longrightarrow> m \<le> n"
  shows "check_children api (lk_zk s) sp (lc_node (lk_clients s j)) (lc_kind (lk_clients s j)) = Inr Locked"
    and "lc_pc (lk_clients s j) \<in> {AtExists d, Watching d} \<Longrightarrow> d \<notin> kids api sp s"
proof -
  have none: "\<not> n < int m" if "d \<in> kids api sp s" "get_sequence_index d = Inr n" for d n
  proof -
    from lock_invD(3) [OF inv that(1)] obtain l k where "owns sp s l d k" by blast
    with least owns_index that(2) show ?thesis by fastforce
  qed
  from check_children_inv [OF inv j] none
  show "check_children api (lk_zk s) sp (lc_node (lk_clients s j)) (lc_kind (lk_clients s j)) = Inr Locked"
    by blast
  show "d \<notin> kids api sp s" if "lc_pc (lk_clients s j) \<in> {AtExists d, Watching d}"
    using lock_invD(6) [OF inv that j] none by blast
qed

lemma loop_ends:
  assumes ok: "\<And>n. zok (zs n)" and mine: "get_sequence_index my_node_path = Inr m"
    and numbered: "\<And>n c. c \<in> set (zk_get_children api (zs n) sp) \<Longrightarrow> get_sequence_index c = Inr (idx c)"
    and older: "\<And>n c. c \<in> set (zk_get_children api (zs (Suc n)) sp) \<Longrightarrow> idx c < m \<Longrightarrow>
      c \<in> set (zk_get_children api (zs n) sp)"
  shows "card {c \<in> set (zk_get_children api (zs n) sp). idx c < m} < fuel \<Longrightarrow>
    \<exists>pc. acquire_lock_loop fuel api zs n sp my_node_path k = Some (Inr pc) \<and>
      (pc = Locked \<or> (\<exists>d. pc = Watching d))"
proof (induction fuel arbitrary: n)
  case 0
  then show ?case by simp
next
  case (Suc fuel)
  let ?A = "\<lambda>n. {c \<in> set (zk_get_children api (zs n) sp). idx c < m}"
  let ?lb = "filter (\<lambda>c. idx c < m \<and> is_incompat k c) (zk_get_children api (zs n) sp)"
  have lb: "locks_before m k (zk_get_children api (zs n) sp) = Inr ?lb"
    using numbered by (intro locks_before_total) blast
  show ?case
  proof (cases ?lb)
    case Nil
    then show ?thesis using lb mine by (simp add: check_children_def)
  next
    case (Cons d ds)
    then have "d \<in> set ?lb" by simp
    then have d: "d \<in> ?A n" by simp
    have chk: "check_children api (zs n) sp my_node_path k = Inr (AtExists d)"
      using lb mine Cons by (simp add: check_children_def)
    have name: "CHR ''/'' \<notin> set d" using child_name [OF ok] d by blast
    show ?thesis
    proof (cases "zk_exists api (zs (n + 1)) (get_abs_path sp d)")
      case True
      then show ?thesis using chk by (simp add: check_exists_def)
    next
      case False
      then have "d \<notin> ?A (Suc n)" using exists_child [OF ok name] by auto
      moreover have "?A (Suc n) \<subseteq> ?A n" "?A (Suc (Suc n)) \<subseteq> ?A (Suc n)" using older by blast+
      ultimately have "?A (n + 2) \<subset> ?A n" using d by auto
      then have "card (?A (n + 2)) < card (?A n)" by (intro psubset_card_mono) auto
      with Suc.prems have "card (?A (n + 2)) < fuel" by simp
      from Suc.IH [OF this] chk False show ?thesis by (simp add: check_exists_def)
    qed
  qed
qed

end

section \<open>An in-memory ZooKeeper\<close>

text \<open>
  A ZooKeeper for which the laws hold: the nodes as pairs of parent and name, and a counter per
  parent that every sequential node takes its number from, printed with ten digits.
\<close>

record mem_zk =
  mz_seq :: "string \<Rightarrow> nat"
  mz_nodes :: "(string \<times> string) list"

definition mem_split :: "string \<Rightarrow> string \<times> string" where
  "mem_split p = (case str_rindex p (CHR ''/'') of Inl _ \<Rightarrow> ([], p) | Inr i \<Rightarrow> (take i p, drop (i + 1) p))"

definition mem_pad :: "nat \<Rightarrow> nat" where "mem_pad m = 10 - length (show_nat m)"

definition mem_create :: "mem_zk \<Rightarrow> string \<Rightarrow> mem_zk \<times> string" where
  "mem_create z path =
     (let (p, name) = mem_split path; m = mz_seq z p;
          node = name @ replicate (mem_pad m) (CHR ''0'') @ show_nat m
      in (z\<lparr>mz_seq := (mz_seq z)(p := m + 1), mz_nodes := mz_nodes z @ [(p, node)]\<rparr>, get_abs_path p node))"

definition mem_api :: "mem_zk zk_api" where
  "mem_api = \<lparr>zk_create = mem_create,
     zk_get_children = (\<lambda>z p. map snd (filter (\<lambda>n. fst n = p) (mz_nodes z))),
     zk_exists = (\<lambda>z path. mem_split path \<in> set (mz_nodes z)),
     zk_delete = (\<lambda>z path. z\<lparr>mz_nodes := filter (\<lambda>n. n \<noteq> mem_split path) (mz_nodes z)\<rparr>)\<rparr>"

definition mem_ok :: "mem_zk \<Rightarrow> bool" where
  "mem_ok z \<longleftrightarrow> (\<forall>(p, c) \<in> set (mz_nodes z). CHR ''/'' \<notin> set c \<and>
     (\<forall>i. get_sequence_index c = Inr i \<longrightarrow> i < int (mz_seq z p)))"

lemma mem_split_abs: "CHR ''/'' \<notin> set c \<Longrightarrow> mem_split (get_abs_path p c) = (p, c)"
  using str_rindex_append [of "CHR ''/''" c p] by (simp add: mem_split_def get_abs_path_def)

lemma seq_node_no_slash: "CHR ''/'' \<notin> set (seq_node k pad m)"
proof -
  have "CHR ''/'' \<notin> set (lock_suffix k)"
    by (cases k) (simp_all add: READLOCK_SUFFIX_def WRITELOCK_SUFFIX_def)
  moreover have "CHR ''/'' \<notin> set (show_nat m)"
    using show_nat_digits [of "CHR ''/''" m] by (auto simp: is_digit_def)
  ultimately show ?thesis by (simp add: seq_node_def)
qed

lemma mem_create_lock:
  "mem_create z (get_abs_path sp (lock_suffix k)) =
     (let m = mz_seq z sp; node = seq_node k (mem_pad m) m
      in (z\<lparr>mz_seq := (mz_seq z)(sp := m + 1), mz_nodes := mz_nodes z @ [(sp, node)]\<rparr>,
          get_abs_path sp node))"
proof -
  have "CHR ''/'' \<notin> set (lock_suffix k)"
    by (cases k) (simp_all add: READLOCK_SUFFIX_def WRITELOCK_SUFFIX_def)
  then show ?thesis by (simp add: mem_create_def mem_split_abs seq_node_def Let_def)
qed

interpretation memzk: zk_lock mem_api sp mem_ok
proof
  fix z :: mem_zk and k c
  assume ok: "mem_ok z"
  show "mem_ok (fst (zk_create mem_api z (get_abs_path sp (lock_suffix k))))"
    using ok seq_node_no_slash
    by (fastforce simp: mem_api_def mem_create_lock Let_def mem_ok_def)
  show "\<exists>pad m.
      snd (zk_create mem_api z (get_abs_path sp (lock_suffix k))) = get_abs_path sp (seq_node k pad m) \<and>
      set (zk_get_children mem_api (fst (zk_create mem_api z (get_abs_path sp (lock_suffix k)))) sp) =
        insert (seq_node k pad m) (set (zk_get_children mem_api z sp)) \<and>
      (\<forall>c i. c \<in> set (zk_get_children mem_api z sp) \<longrightarrow> get_sequence_index c = Inr i \<longrightarrow> i < int m)"
    using ok
    by (intro exI [of _ "mem_pad (mz_seq z sp)"] exI [of _ "mz_seq z sp"])
      (auto simp: mem_api_def mem_create_lock Let_def mem_ok_def)
next
  fix z :: mem_zk and c
  assume ok: "mem_ok z" and c: "c \<in> set (zk_get_children mem_api z sp)"
  show name: "CHR ''/'' \<notin> set c" using ok c by (auto simp: mem_api_def mem_ok_def)
  show "mem_ok (zk_delete mem_api z (get_abs_path sp c))"
    using ok by (auto simp: mem_api_def mem_ok_def)
  show "set (zk_get_children mem_api (zk_delete mem_api z (get_abs_path sp c)) sp) =
      set (zk_get_children mem_api z sp) - {c}"
    using name by (auto simp: mem_api_def mem_split_abs)
next
  fix z :: mem_zk and c :: string
  assume "mem_ok z" "CHR ''/'' \<notin> set c"
  then show "zk_exists mem_api z (get_abs_path sp c) = (c \<in> set (zk_get_children mem_api z sp))"
    by (force simp: mem_api_def mem_split_abs)
qed

section \<open>Runs for the witnesses\<close>

definition lock_start :: "mem_zk lock_sys" where
  "lock_start = \<lparr>lk_zk = \<lparr>mz_seq = (\<lambda>_. 0), mz_nodes = []\<rparr>,
     lk_clients = (\<lambda>_. \<lparr>lc_kind = ReadLock, lc_node = [], lc_pc = NotStarted\<rparr>)\<rparr>"

text \<open>Three requests, two readers and then a writer; the readers hold the lock together.\<close>

definition lock_queue :: "mem_zk lock_sys" where
  "lock_queue = request_lock mem_api ''/l'' 2 WriteLock
     (request_lock mem_api ''/l'' 1 ReadLock (request_lock mem_api ''/l'' 0 ReadLock lock_start))"

definition lock_shared :: "mem_zk lock_sys" where
  "lock_shared = set_pc 1 Locked (set_pc 0 Locked lock_queue)"

lemma lock_queue_pcs:
  "lc_pc (lk_clients lock_queue 0) = AtGetChildren" "lc_pc (lk_clients lock_queue 1) = AtGetChildren"
  "lc_pc (lk_clients lock_queue 2) = AtGetChildren"
  by code_simp+

lemma lock_queue_check:
  "check_children mem_api (lk_zk lock_queue) ''/l'' (lc_node (lk_clients lock_queue 0))
     (lc_kind (lk_clients lock_queue 0)) = Inr Locked"
  "check_children mem_api (lk_zk lock_queue) ''/l'' (lc_node (lk_clients lock_queue 1))
     (lc_kind (lk_clients lock_queue 1)) = Inr Locked"
  by code_simp+

lemma lock_queue_reachable: "lock_reachable mem_api ''/l'' mem_ok lock_queue"
  unfolding lock_queue_def
proof (intro lock_reachable.step [OF _ lock_step.request])
  show "lock_reachable mem_api ''/l'' mem_ok lock_start"
    by (rule lock_reachable.start) (simp_all add: lock_start_def mem_ok_def mem_api_def)
qed (simp_all add: lock_start_def request_lock_def split_beta)

lemma lock_shared_reachable: "lock_reachable mem_api ''/l'' mem_ok lock_shared"
proof -
  have a: "lock_step mem_api ''/l'' mem_ok lock_queue (set_pc 0 Locked lock_queue)"
    by (rule lock_step.check) (simp_all add: lock_queue_pcs lock_queue_check)
  have b: "lock_step mem_api ''/l'' mem_ok (set_pc 0 Locked lock_queue) lock_shared"
    unfolding lock_shared_def
    by (rule lock_step.check) (use lock_queue_pcs lock_queue_check in simp_all)
  show ?thesis
    by (rule lock_reachable.step [OF lock_reachable.step [OF lock_queue_reachable a] b])
qed

section \<open>Properties\<close>

lemma reachable_owner:
  assumes "zk_lock api sp zok" "lock_reachable api sp zok s" "active (lk_clients s i)"
  shows "\<exists>c m. owns sp s i c m \<and> get_sequence_index (lc_node (lk_clients s i)) = Inr (int m)"
proof -
  from lock_invD(2) [OF zk_lock.inv_reachable [OF assms(1,2)] assms(3)]
  obtain c m where o: "owns sp s i c m" by blast
  then have "get_sequence_index (lc_node (lk_clients s i)) = Inr (int m)" by (auto simp: owns_def)
  with o show ?thesis by blast
qed

text \<open>
  (C1) Mutual exclusion: in every interleaving of requests, checks, watches, releases and lost
  sessions, two requests hold the lock at the same time only if both are read locks.
\<close>

theorem rw_lock_mutual_exclusion:
  assumes zk: "zk_lock api sp zok" and reach: "lock_reachable api sp zok s"
    and "lc_pc (lk_clients s i) = Locked" "lc_pc (lk_clients s j) = Locked" "i \<noteq> j"
  shows "lc_kind (lk_clients s i) = ReadLock \<and> lc_kind (lk_clients s j) = ReadLock"
proof -
  note inv = zk_lock.inv_reachable [OF zk reach]
  have "active (lk_clients s i)" "active (lk_clients s j)" using assms by (simp_all add: active_def)
  then obtain c m d n where o: "owns sp s i c m" "owns sp s j d n"
    using lock_invD(2) [OF inv] by blast
  from lock_invD(4) [OF inv] o \<open>i \<noteq> j\<close> have "m < n \<or> n < m" by (metis nat_neq_iff)
  with zk_lock.locked_before [OF zk inv] assms(3,4) o show ?thesis by blast
qed

theorem rw_lock_mutual_exclusion_witness:
  "lc_kind (lk_clients lock_shared 0) = ReadLock \<and> lc_kind (lk_clients lock_shared 1) = ReadLock"
  by (rule rw_lock_mutual_exclusion [OF memzk.zk_lock_axioms lock_shared_reachable])
    (simp_all add: lock_shared_def)

text \<open>
  (C27) First come, first served: while a request holds the lock, a request with a smaller
  sequence number that is still pending or held can only be a reader next to a reader.
\<close>

theorem rw_lock_in_order:
  assumes zk: "zk_lock api sp zok" and reach: "lock_reachable api sp zok s"
    and locked: "lc_pc (lk_clients s i) = Locked" and act: "active (lk_clients s j)"
    and idx: "get_sequence_index (lc_node (lk_clients s i)) = Inr m"
      "get_sequence_index (lc_node (lk_clients s j)) = Inr n" "n < m"
  shows "lc_kind (lk_clients s i) = ReadLock \<and> lc_kind (lk_clients s j) = ReadLock"
proof -
  have "active (lk_clients s i)" using locked by (simp add: active_def)
  from reachable_owner [OF zk reach this] reachable_owner [OF zk reach act] idx
  obtain c m' d n' where "owns sp s i c m'" "owns sp s j d n'" "n' < m'" by auto
  then show ?thesis
    using zk_lock.locked_before [OF zk zk_lock.inv_reachable [OF zk reach] locked] by blast
qed

lemma lock_shared_nodes:
  "get_sequence_index (lc_node (lk_clients lock_shared 1)) = Inr 1"
  "get_sequence_index (lc_node (lk_clients lock_shared 0)) = Inr 0"
  by code_simp+

theorem rw_lock_in_order_witness:
  "lc_kind (lk_clients lock_shared 1) = ReadLock \<and> lc_kind (lk_clients lock_shared 0) = ReadLock"
  by (rule rw_lock_in_order [OF memzk.zk_lock_axioms lock_shared_reachable _ _ lock_shared_nodes])
    (simp_all add: lock_shared_def active_def)

text \<open>
  (C3) No deadlock: as long as some request is pending or held, there is one whose next look at
  the children grants it the lock, and which is not blocked: it holds the lock, is inside the
  loop, or waits for a node that no longer exists, so that its watch has fired.
\<close>

theorem rw_lock_no_deadlock:
  assumes zk: "zk_lock api sp zok" and reach: "lock_reachable api sp zok s"
    and act: "active (lk_clients s i)"
  shows "\<exists>j. active (lk_clients s j) \<and>
    check_children api (lk_zk s) sp (lc_node (lk_clients s j)) (lc_kind (lk_clients s j)) = Inr Locked \<and>
    (lc_pc (lk_clients s j) \<in> {Locked, AtGetChildren} \<or>
     (\<exists>d. lc_pc (lk_clients s j) \<in> {AtExists d, Watching d} \<and>
        d \<notin> set (zk_get_children api (lk_zk s) sp)))"
proof -
  note inv = zk_lock.inv_reachable [OF zk reach]
  from zk_lock.front_exists [OF zk inv act] obtain j c m where
    j: "owns sp s j c m" and least: "\<forall>l d n. owns sp s l d n \<longrightarrow> m \<le> n" by blast
  have "active (lk_clients s j)" using j by (simp add: owns_def)
  with zk_lock.front_not_blocked [OF zk inv j least] show ?thesis
    unfolding kids_def active_def by (cases "lc_pc (lk_clients s j)") blast+
qed

theorem rw_lock_no_deadlock_witness:
  "\<exists>j. active (lk_clients lock_queue j) \<and>
    check_children mem_api (lk_zk lock_queue) ''/l'' (lc_node (lk_clients lock_queue j))
      (lc_kind (lk_clients lock_queue j)) = Inr Locked \<and>
    (lc_pc (lk_clients lock_queue j) \<in> {Locked, AtGetChildren} \<or>
     (\<exists>d. lc_pc (lk_clients lock_queue j) \<in> {AtExists d, Watching d} \<and>
        d \<notin> set (zk_get_children mem_api (lk_zk lock_queue) ''/l'')))"
  by (rule rw_lock_no_deadlock [OF memzk.zk_lock_axioms lock_queue_reachable, of 2])
    (simp add: active_def lock_queue_pcs)

text \<open>
  (C28) The loop of \<open>_acquire_lock_loop\<close> ends, whatever other processes do between its calls, as
  long as no node with a smaller number appears: with more iterations than there are nodes in
  front of it, it either calls \<open>on_locked\<close> or leaves a watch.
\<close>

theorem acquire_lock_loop_ends:
  assumes zk: "zk_lock api sp zok" and ok: "\<And>n. zok (zs n)"
    and mine: "get_sequence_index my_node_path = Inr m"
    and numbered: "\<And>n c. c \<in> set (zk_get_children api (zs n) sp) \<Longrightarrow> get_sequence_index c = Inr (idx c)"
    and older: "\<And>n c. c \<in> set (zk_get_children api (zs (Suc n)) sp) \<Longrightarrow> idx c < m \<Longrightarrow>
      c \<in> set (zk_get_children api (zs n) sp)"
    and fuel: "card {c \<in> set (zk_get_children api (zs 0) sp). idx c < m} < fuel"
  shows "\<exists>pc. acquire_lock_loop fuel api zs 0 sp my_node_path k = Some (Inr pc) \<and>
    (pc = Locked \<or> (\<exists>d. pc = Watching d))"
  using assms
  by (intro zk_lock.loop_ends [where zok = zok and idx = idx and m = m]) blast+

text \<open>The writer's loop while both readers release between its first two calls.\<close>

definition lock_race :: "nat \<Rightarrow> mem_zk" where
  "lock_race n = \<lparr>mz_seq = (\<lambda>_. 3), mz_nodes =
     (if n = 0 then [(''/l'', ''readlock-0000000000''), (''/l'', ''readlock-0000000001'')] else []) @
     [(''/l'', ''writelock-0000000002'')]\<rparr>"

definition race_index :: "string \<Rightarrow> int" where
  "race_index c = (case get_sequence_index c of Inr i \<Rightarrow> i | Inl _ \<Rightarrow> 0)"

lemma race_names:
  "get_sequence_index ''readlock-0000000000'' = Inr 0" "get_sequence_index ''readlock-0000000001'' = Inr 1"
  "get_sequence_index ''writelock-0000000002'' = Inr 2" "get_sequence_index ''/l/writelock-0000000002'' = Inr 2"
  by code_simp+

theorem acquire_lock_loop_ends_witness:
  "\<exists>pc. acquire_lock_loop 4 mem_api lock_race 0 ''/l'' ''/l/writelock-0000000002'' WriteLock = Some (Inr pc) \<and>
    (pc = Locked \<or> (\<exists>d. pc = Watching d))"
proof (rule acquire_lock_loop_ends [OF memzk.zk_lock_axioms _ race_names(4), where idx = race_index])
  show "mem_ok (lock_race n)" for n
    by (auto simp: lock_race_def mem_ok_def race_names)
  show "get_sequence_index c = Inr (race_index c)"
    if "c \<in> set (zk_get_children mem_api (lock_race n) ''/l'')" for n c
    using that by (auto simp: mem_api_def lock_race_def race_index_def race_names split: if_splits)
  show "c \<in> set (zk_get_children mem_api (lock_race n) ''/l'')"
    if "c \<in> set (zk_get_children mem_api (lock_race (Suc n)) ''/l'')" "race_index c < 2" for n c
    using that by (simp add: mem_api_def lock_race_def)
  have "card {c \<in> set (zk_get_children mem_api (lock_race 0) ''/l''). race_index c < 2} \<le>
      card (set (zk_get_children mem_api (lock_race 0) ''/l''))"
    by (rule card_mono) auto
  also have "\<dots> \<le> 3"
    using card_length [of "zk_get_children mem_api (lock_race 0) ''/l''"]
    by (simp add: mem_api_def lock_race_def)
  finally show "card {c \<in> set (zk_get_children mem_api (lock_race 0) ''/l''). race_index c < 2} < 4" by simp
qed

lemma read_node_compat: "\<not> is_incompat ReadLock (seq_node ReadLock pad m)"
proof
  assume "is_incompat ReadLock (seq_node ReadLock pad m)"
  then have "CHR ''w'' \<in> set (seq_node ReadLock pad m)"
    using str_contains_subset by (fastforce simp: incompatible_with_read_def WRITELOCK_SUFFIX_def)
  moreover have "CHR ''w'' \<notin> set (show_nat m)"
    using show_nat_digits [of "CHR ''w''" m] by (auto simp: is_digit_def)
  ultimately show False by (simp add: seq_node_def READLOCK_SUFFIX_def split: if_splits)
qed

text \<open>
  Readers share the lock: a read request that no write request precedes is granted the lock
  at its next look at the children, however many readers hold it.
\<close>

theorem rw_lock_readers_share:
  assumes zk: "zk_lock api sp zok" and reach: "lock_reachable api sp zok s"
    and act: "active (lk_clients s i)" and rd: "lc_kind (lk_clients s i) = ReadLock"
    and idx: "get_sequence_index (lc_node (lk_clients s i)) = Inr m"
    and no_writer: "\<And>j n. active (lk_clients s j) \<Longrightarrow> lc_kind (lk_clients s j) = WriteLock \<Longrightarrow>
      get_sequence_index (lc_node (lk_clients s j)) = Inr n \<Longrightarrow> m < n"
  shows "check_children api (lk_zk s) sp (lc_node (lk_clients s i)) ReadLock = Inr Locked"
proof -
  note inv = zk_lock.inv_reachable [OF zk reach]
  from reachable_owner [OF zk reach act] idx obtain c m' where
    o: "owns sp s i c m'" and m: "m = int m'" by auto
  have "\<not> is_incompat ReadLock d"
    if d: "d \<in> kids api sp s" "get_sequence_index d = Inr n" "n < int m'" for d n
  proof -
    from lock_invD(3) [OF inv d(1)] obtain j k where j: "owns sp s j d k" by blast
    then have j': "active (lk_clients s j)" "get_sequence_index (lc_node (lk_clients s j)) = Inr (int k)"
      by (auto simp: owns_def)
    have "lc_kind (lk_clients s j) = ReadLock"
      using no_writer [OF j'(1) _ j'(2)] d owns_index [OF j] m
      by (cases "lc_kind (lk_clients s j)") auto
    with j read_node_compat show ?thesis by (auto simp: owns_def)
  qed
  with zk_lock.check_children_inv [OF zk inv o] rd show ?thesis by fastforce
qed

theorem rw_lock_readers_share_witness:
  "check_children mem_api (lk_zk lock_shared) ''/l'' (lc_node (lk_clients lock_shared 1)) ReadLock = Inr Locked"
proof (rule rw_lock_readers_share [OF memzk.zk_lock_axioms lock_shared_reachable _ _ lock_shared_nodes(1)])
  have other: "lk_clients lock_shared j = lk_clients lock_start j" if "j \<notin> {0, 1, 2}" for j
    using that by (simp add: lock_shared_def lock_queue_def request_lock_def split_beta)
  have kinds: "lc_kind (lk_clients lock_shared 0) = ReadLock" "lc_kind (lk_clients lock_shared 1) = ReadLock"
    "get_sequence_index (lc_node (lk_clients lock_shared 2)) = Inr 2"
    by code_simp+
  show "active (lk_clients lock_shared 1)" by (simp add: lock_shared_def active_def)
  show "lc_kind (lk_clients lock_shared 1) = ReadLock" by (rule kinds)
  show "1 < n" if "active (lk_clients lock_shared j)" "lc_kind (lk_clients lock_shared j) = WriteLock"
    "get_sequence_index (lc_node (lk_clients lock_shared j)) = Inr n" for j n
  proof -
    have "j \<in> {0, 1, 2}"
      using that(1) other [of j] by (cases "j \<in> {0, 1, 2}") (auto simp: lock_start_def active_def)
    moreover have "j \<noteq> 0" "j \<noteq> 1" using that(2) kinds(1,2) by (metis lock_kind.distinct(1))+
    ultimately have "j = 2" by simp
    with that(3) kinds(3) show ?thesis by simp
  qed
qed

end
