(* ===== verification/Events.thy ===== *)
theory Events
  imports Py_Strings
begin

text \<open>
  The events the services exchange: \<open>kafka-utils/src/bai_kafka_utils/events.py\<close> and the
  result record that travels through ZooKeeper, \<open>bai_zk_utils/states.py\<close>.

  A \<open>BenchmarkEvent\<close> and its subclasses differ in the type of the payload only, so the
  envelope is one datatype and the payload classes are the constructors of \<open>payload\<close>; the
  two are mutually recursive because a status message and a command response carry the event
  they answer.  The functions of the source that build one event from another
  (\<open>create_from_object\<close> and its callers, \<open>dataclasses.replace\<close>) are the \<open>set_\<close> functions and
  their compositions.
\<close>

section \<open>Statuses\<close>

datatype fetcher_status =
    FS_PENDING
  | FS_RUNNING
  | FS_DONE
  | FS_FAILED
  | FS_CANCELED

fun fs_value :: "fetcher_status \<Rightarrow> string" where
  "fs_value FS_PENDING = ''PENDING''"
| "fs_value FS_RUNNING = ''RUNNING''"
| "fs_value FS_DONE = ''DONE''"
| "fs_value FS_FAILED = ''FAILED''"
| "fs_value FS_CANCELED = ''CANCELED''"

fun fs_final :: "fetcher_status \<Rightarrow> bool" where
  "fs_final FS_PENDING = False"
| "fs_final FS_RUNNING = False"
| "fs_final FS_DONE = True"
| "fs_final FS_FAILED = True"
| "fs_final FS_CANCELED = True"

fun fs_success :: "fetcher_status \<Rightarrow> bool" where
  "fs_success FS_PENDING = False"
| "fs_success FS_RUNNING = False"
| "fs_success FS_DONE = True"
| "fs_success FS_FAILED = False"
| "fs_success FS_CANCELED = False"

datatype fetched_type = FT_FILE | FT_DIRECTORY

fun ft_value :: "fetched_type \<Rightarrow> string" where
  "ft_value FT_FILE = ''FILE''"
| "ft_value FT_DIRECTORY = ''DIRECTORY''"

datatype status =
    ST_PENDING
  | ST_RUNNING
  | ST_FAILED
  | ST_ERROR
  | ST_INITIALIZING
  | ST_SUCCEEDED
  | ST_CANCELED
  | ST_METRICS_AVAILABLE

section \<open>Payload classes\<close>

record content_size_info =
  total_size :: int
  file_count :: int
  max_size :: int

record downloadable_content =
  src :: string
  path :: string
  dc_id :: "string option"
  md5 :: "string option"
  dst :: "string option"
  dc_type :: "fetched_type option"
  dc_status :: "fetcher_status option"
  dc_message :: "string option"
  size_info :: "content_size_info option"

record benchmark_doc =
  contents :: "pyval dict"
  doc :: string
  sha1 :: string
  descriptor_filename :: "string option"
  verified :: bool

record benchmark_job =
  job_id :: string
  job_output :: "string option"
  job_extras :: "pyval dict"

record file_system_object =
  fso_dst :: string

record fetcher_payload =
  toml :: benchmark_doc
  datasets :: "downloadable_content list"
  models :: "downloadable_content list"
  scripts :: "file_system_object list"

record executor_payload = fetcher_payload +
  job :: benchmark_job

record visited_service =
  svc :: string
  vs_tstamp :: int
  version :: string
  node :: "string option"

datatype cmd_args =
    NoArgs
  | PosArgs "pyval list"
  | KwArgs "pyval dict"

datatype benchmark_event =
  BenchmarkEvent
    (action_id: string)
    (parent_action_id: "string option")
    (message_id: string)
    (client_id: string)
    (client_version: string)
    (client_username: string)
    (authenticated: bool)
    (tstamp: int)
    (visited: "visited_service list")
    (ev_type: string)
    (payload: payload)
and payload =
    FetcherPayload fetcher_payload
  | ExecutorPayload executor_payload
  | CommandRequestPayload string cmd_args
  | CommandResponsePayload int string benchmark_event pyval
  | StatusMessagePayload string status "benchmark_event option"
  | AnyPayload pyval

section \<open>Replacing fields of an event\<close>

primrec set_action_id :: "string \<Rightarrow> benchmark_event \<Rightarrow> benchmark_event" where
  "set_action_id a (BenchmarkEvent a0 pa mi ci cv cu au ts vi ty pl)
     = BenchmarkEvent a pa mi ci cv cu au ts vi ty pl"

primrec set_parent_action_id :: "string option \<Rightarrow> benchmark_event \<Rightarrow> benchmark_event" where
  "set_parent_action_id p (BenchmarkEvent a pa mi ci cv cu au ts vi ty pl)
     = BenchmarkEvent a p mi ci cv cu au ts vi ty pl"

primrec set_payload :: "payload \<Rightarrow> benchmark_event \<Rightarrow> benchmark_event" where
  "set_payload p (BenchmarkEvent a pa mi ci cv cu au ts vi ty pl)
     = BenchmarkEvent a pa mi ci cv cu au ts vi ty p"

primrec set_visited :: "visited_service list \<Rightarrow> benchmark_event \<Rightarrow> benchmark_event" where
  "set_visited v (BenchmarkEvent a pa mi ci cv cu au ts vi ty pl)
     = BenchmarkEvent a pa mi ci cv cu au ts v ty pl"

primrec set_message_id :: "string \<Rightarrow> benchmark_event \<Rightarrow> benchmark_event" where
  "set_message_id m (BenchmarkEvent a pa mi ci cv cu au ts vi ty pl)
     = BenchmarkEvent a pa m ci cv cu au ts vi ty pl"

primrec set_ev_type :: "string \<Rightarrow> benchmark_event \<Rightarrow> benchmark_event" where
  "set_ev_type t (BenchmarkEvent a pa mi ci cv cu au ts vi ty pl)
     = BenchmarkEvent a pa mi ci cv cu au ts vi t pl"

primrec set_tstamp :: "int \<Rightarrow> benchmark_event \<Rightarrow> benchmark_event" where
  "set_tstamp t (BenchmarkEvent a pa mi ci cv cu au ts vi ty pl)
     = BenchmarkEvent a pa mi ci cv cu au t vi ty pl"

named_theorems event_simps \<open>selectors of events after a field replacement\<close>

lemma set_action_id_sel [simp, event_simps]:
  "action_id (set_action_id a e) = a" "parent_action_id (set_action_id a e) = parent_action_id e"
  "message_id (set_action_id a e) = message_id e" "client_id (set_action_id a e) = client_id e"
  "tstamp (set_action_id a e) = tstamp e" "visited (set_action_id a e) = visited e"
  "ev_type (set_action_id a e) = ev_type e" "payload (set_action_id a e) = payload e"
  by (cases e; simp)+

lemma set_parent_action_id_sel [simp, event_simps]:
  "action_id (set_parent_action_id a e) = action_id e"
  "parent_action_id (set_parent_action_id a e) = a"
  "message_id (set_parent_action_id a e) = message_id e"
  "client_id (set_parent_action_id a e) = client_id e"
  "tstamp (set_parent_action_id a e) = tstamp e" "visited (set_parent_action_id a e) = visited e"
  "ev_type (set_parent_action_id a e) = ev_type e"
  "payload (set_parent_action_id a e) = payload e"
  by (cases e; simp)+

lemma set_payload_sel [simp, event_simps]:
  "action_id (set_payload a e) = action_id e"
  "parent_action_id (set_payload a e) = parent_action_id e"
  "message_id (set_payload a e) = message_id e" "client_id (set_payload a e) = client_id e"
  "tstamp (set_payload a e) = tstamp e" "visited (set_payload a e) = visited e"
  "ev_type (set_payload a e) = ev_type e" "payload (set_payload a e) = a"
  by (cases e; simp)+

lemma set_visited_sel [simp, event_simps]:
  "action_id (set_visited a e) = action_id e"
  "parent_action_id (set_visited a e) = parent_action_id e"
  "message_id (set_visited a e) = message_id e" "client_id (set_visited a e) = client_id e"
  "tstamp (set_visited a e) = tstamp e" "visited (set_visited a e) = a"
  "ev_type (set_visited a e) = ev_type e" "payload (set_visited a e) = payload e"
  by (cases e; simp)+

lemma set_message_id_sel [simp, event_simps]:
  "action_id (set_message_id a e) = action_id e"
  "parent_action_id (set_message_id a e) = parent_action_id e"
  "message_id (set_message_id a e) = a" "client_id (set_message_id a e) = client_id e"
  "tstamp (set_message_id a e) = tstamp e" "visited (set_message_id a e) = visited e"
  "ev_type (set_message_id a e) = ev_type e" "payload (set_message_id a e) = payload e"
  by (cases e; simp)+

lemma set_ev_type_sel [simp, event_simps]:
  "action_id (set_ev_type a e) = action_id e"
  "parent_action_id (set_ev_type a e) = parent_action_id e"
  "message_id (set_ev_type a e) = message_id e" "client_id (set_ev_type a e) = client_id e"
  "tstamp (set_ev_type a e) = tstamp e" "visited (set_ev_type a e) = visited e"
  "ev_type (set_ev_type a e) = a" "payload (set_ev_type a e) = payload e"
  by (cases e; simp)+

lemma set_tstamp_sel [simp, event_simps]:
  "action_id (set_tstamp a e) = action_id e"
  "parent_action_id (set_tstamp a e) = parent_action_id e"
  "message_id (set_tstamp a e) = message_id e" "client_id (set_tstamp a e) = client_id e"
  "tstamp (set_tstamp a e) = a" "visited (set_tstamp a e) = visited e"
  "ev_type (set_tstamp a e) = ev_type e" "payload (set_tstamp a e) = payload e"
  by (cases e; simp)+

section \<open>Events built from other events\<close>

text \<open>
  \<open>create_from_object\<close> copies the fields of the source object that the desired class has
  (\<open>asdict\<close> followed by \<open>dacite.from_dict\<close>), with the given fields overridden.  All event
  classes have the fields of the envelope, so a copied event is the source event with another
  payload; \<open>ExecutorPayload\<close> has the fields of \<open>FetcherPayload\<close> and the job.
\<close>

definition create_from_event :: "status \<Rightarrow> string \<Rightarrow> benchmark_event \<Rightarrow> benchmark_event" where
  "create_from_event st msg e =
     set_visited [] (set_payload (StatusMessagePayload msg st (Some e)) e)"

definition create_from_fetcher_payload :: "fetcher_payload \<Rightarrow> benchmark_job \<Rightarrow> executor_payload" where
  "create_from_fetcher_payload p j =
     \<lparr>toml = toml p, datasets = datasets p, models = models p, scripts = scripts p, job = j\<rparr>"

definition executor_event :: "benchmark_event \<Rightarrow> executor_payload \<Rightarrow> benchmark_event" where
  "executor_event e p = set_payload (ExecutorPayload p) e"

definition command_response_event ::
  "benchmark_event \<Rightarrow> int \<Rightarrow> string \<Rightarrow> pyval \<Rightarrow> benchmark_event" where
  "command_response_event e code msg result =
     set_payload (CommandResponsePayload code msg e result) e"

text \<open>
  \<open>__post_init__\<close> of \<open>BenchmarkEvent\<close>: every field has the default \<open>_REQUIRED\<close>, and the first
  field that still has it raises.  A field of \<open>raw_event\<close> is \<open>None\<close> when it is \<open>_REQUIRED\<close>.
\<close>

record raw_event =
  raw_action_id :: "string option"
  raw_parent_action_id :: "string option"
  raw_message_id :: "string option"
  raw_client_id :: "string option"
  raw_client_version :: "string option"
  raw_client_username :: "string option"
  raw_authenticated :: "bool option"
  raw_tstamp :: "int option"
  raw_visited :: "visited_service list option"
  raw_type :: "string option"
  raw_payload :: "payload option"

definition required :: "string \<Rightarrow> 'a option \<Rightarrow> 'a res" where
  "required field v =
     (case v of
        Some x \<Rightarrow> Inr x
      | None \<Rightarrow> Inl (TypeError (''__init__ missing 1 required argument: '' @ field)))"

definition post_init :: "raw_event \<Rightarrow> benchmark_event res" where
  "post_init r =
     res_bind (required ''action_id'' (raw_action_id r)) (\<lambda>a.
     res_bind (required ''message_id'' (raw_message_id r)) (\<lambda>m.
     res_bind (required ''client_id'' (raw_client_id r)) (\<lambda>c.
     res_bind (required ''client_version'' (raw_client_version r)) (\<lambda>v.
     res_bind (required ''client_username'' (raw_client_username r)) (\<lambda>u.
     res_bind (required ''authenticated'' (raw_authenticated r)) (\<lambda>au.
     res_bind (required ''tstamp'' (raw_tstamp r)) (\<lambda>t.
     res_bind (required ''visited'' (raw_visited r)) (\<lambda>vi.
     res_bind (required ''type'' (raw_type r)) (\<lambda>ty.
     res_bind (required ''payload'' (raw_payload r)) (\<lambda>p.
       Inr (BenchmarkEvent a (raw_parent_action_id r) m c v u au t vi ty p)))))))))))"

datatype event_class =
    FetcherBenchmarkEvent
  | ExecutorBenchmarkEvent
  | StatusMessageBenchmarkEvent
  | CommandRequestEvent
  | CommandResponseEvent
  | MetricsEvent

definition topic_to_event_type :: "event_class dict" where
  "topic_to_event_type =
     [(''BAI_APP_BFF'', FetcherBenchmarkEvent),
      (''BAI_APP_FETCHER'', FetcherBenchmarkEvent),
      (''BAI_APP_EXECUTOR'', ExecutorBenchmarkEvent),
      (''BAI_APP_STATUS'', StatusMessageBenchmarkEvent),
      (''CMD_SUBMIT'', CommandRequestEvent),
      (''CMD_RETURN'', CommandResponseEvent),
      (''BAI_METRICS'', MetricsEvent)]"

definition get_topic_event_type :: "string \<Rightarrow> event_class res" where
  "get_topic_event_type topic =
     (case dict_get topic_to_event_type topic of
        Some c \<Rightarrow> Inr c
      | None \<Rightarrow> Inl (KeyError topic))"

section \<open>Results that travel through ZooKeeper\<close>

record fetcher_result =
  fr_status :: fetcher_status
  fr_type :: "fetched_type option"
  fr_message :: "string option"

text \<open>\<open>FetcherResult.update\<close>: the outcome of a download is stored in the content.\<close>

definition fr_update :: "fetcher_result \<Rightarrow> downloadable_content \<Rightarrow> downloadable_content" where
  "fr_update r c =
     (let c = c\<lparr>dc_status := Some (fr_status r), dc_type := fr_type r\<rparr> in
      if fs_success (fr_status r) then c
      else c\<lparr>dc_message := fr_message r, dst := None\<rparr>)"

text \<open>\<open>to_binary\<close> and \<open>from_binary\<close>, up to the bytes: the JSON object and its reading.\<close>

definition fs_of_value :: "string \<Rightarrow> fetcher_status res" where
  "fs_of_value s =
     (case find (\<lambda>st. fs_value st = s) [FS_PENDING, FS_RUNNING, FS_DONE, FS_FAILED, FS_CANCELED] of
        Some st \<Rightarrow> Inr st
      | None \<Rightarrow> Inl (ValueError s))"

definition ft_of_value :: "string \<Rightarrow> fetched_type res" where
  "ft_of_value s =
     (case find (\<lambda>t. ft_value t = s) [FT_FILE, FT_DIRECTORY] of
        Some t \<Rightarrow> Inr t
      | None \<Rightarrow> Inl (ValueError s))"

definition fr_to_json :: "fetcher_result \<Rightarrow> pyval" where
  "fr_to_json r =
     PDict [(''status'', PStr (fs_value (fr_status r))),
            (''type'', (case fr_type r of None \<Rightarrow> PNone | Some t \<Rightarrow> PStr (ft_value t))),
            (''message'', (case fr_message r of None \<Rightarrow> PNone | Some m \<Rightarrow> PStr m))]"

definition opt_field :: "pyval dict \<Rightarrow> string \<Rightarrow> (string \<Rightarrow> 'a res) \<Rightarrow> 'a option res" where
  "opt_field d k f =
     (case dict_get d k of
        Some (PStr s) \<Rightarrow> res_bind (f s) (\<lambda>x. Inr (Some x))
      | Some PNone \<Rightarrow> Inr None
      | None \<Rightarrow> Inr None
      | Some _ \<Rightarrow> Inl (ValueError k))"

definition fr_from_json :: "pyval \<Rightarrow> fetcher_result res" where
  "fr_from_json v =
     (case v of
        PDict d \<Rightarrow>
          (case dict_get d ''status'' of
             Some (PStr s) \<Rightarrow>
               res_bind (fs_of_value s) (\<lambda>st.
               res_bind (opt_field d ''type'' ft_of_value) (\<lambda>t.
               res_bind (opt_field d ''message'' Inr) (\<lambda>m.
                 Inr \<lparr>fr_status = st, fr_type = t, fr_message = m\<rparr>)))
           | Some _ \<Rightarrow> Inl (ValueError ''status'')
           | None \<Rightarrow> Inl (KeyError ''status''))
      | _ \<Rightarrow> Inl (TypeError ''FetcherResult''))"

section \<open>Facts\<close>

lemma fs_success_final: "fs_success s \<Longrightarrow> fs_final s"
  by (cases s) auto

lemma create_from_event_sel [simp, event_simps]:
  "action_id (create_from_event st msg e) = action_id e"
  "parent_action_id (create_from_event st msg e) = parent_action_id e"
  "client_id (create_from_event st msg e) = client_id e"
  "visited (create_from_event st msg e) = []"
  "payload (create_from_event st msg e) = StatusMessagePayload msg st (Some e)"
  by (simp_all add: create_from_event_def)

lemma executor_event_sel [simp, event_simps]:
  "action_id (executor_event e p) = action_id e"
  "parent_action_id (executor_event e p) = parent_action_id e"
  "client_id (executor_event e p) = client_id e"
  "visited (executor_event e p) = visited e"
  "payload (executor_event e p) = ExecutorPayload p"
  by (simp_all add: executor_event_def)

lemma command_response_event_sel [simp, event_simps]:
  "action_id (command_response_event e c m r) = action_id e"
  "client_id (command_response_event e c m r) = client_id e"
  "visited (command_response_event e c m r) = visited e"
  "payload (command_response_event e c m r) = CommandResponsePayload c m e r"
  by (simp_all add: command_response_event_def)

lemma fs_of_value_fs_value [simp]: "fs_of_value (fs_value s) = Inr s"
  by (cases s) (simp_all add: fs_of_value_def)

lemma ft_of_value_ft_value [simp]: "ft_of_value (ft_value t) = Inr t"
  by (cases t) (simp_all add: ft_of_value_def)

lemma fr_json_inverse [simp]: "fr_from_json (fr_to_json r) = Inr r"
  by (cases r) (auto simp: fr_from_json_def fr_to_json_def opt_field_def split: option.splits)

text \<open>
  A download result survives the way through its ZooKeeper node: reading what was
  written gives the same status, type and message.
\<close>

theorem fetcher_result_roundtrip: "fr_from_json (fr_to_json r) = Inr r"
  by (rule fr_json_inverse)

end
