(* ===== verification/Download_Manager.thy ===== *)
theory Download_Manager
  imports Events
begin

text \<open>
  \<open>fetcher/src/fetcher_dispatcher/download_manager.py\<close>: the nodes in ZooKeeper through which a
  fetcher job reports its result, and the cancellation that races with it.

  \<open>zk_data_api\<close> collects the ZooKeeper calls on node data; the locale \<open>zk_data\<close> states their
  documented behaviour.  A node holds the JSON document of a \<open>FetcherResult\<close>; the UTF-8 text
  around it is left out.  MD5 and the printed form of a \<open>DownloadableContent\<close> are parameters.

  The cancellation runs against other processes: before its \<open>n\<close>-th call, \<open>env n\<close> is applied to
  the ZooKeeper state.  Its \<open>while True\<close> loop has fuel, and \<open>None\<close> is running out of it.
\<close>

section \<open>ZooKeeper node data\<close>

record 'z zk_data_api =
  zd_create :: "'z \<Rightarrow> string \<Rightarrow> pyval \<Rightarrow> unit res \<times> 'z"
  zd_get :: "'z \<Rightarrow> string \<Rightarrow> (pyval \<times> nat) res"
  zd_set :: "'z \<Rightarrow> string \<Rightarrow> pyval \<Rightarrow> nat \<Rightarrow> unit res \<times> 'z"
  zd_delete :: "'z \<Rightarrow> string \<Rightarrow> unit res \<times> 'z"
  zd_children :: "'z \<Rightarrow> string \<Rightarrow> string list res"

text \<open>
  A write names the version it replaces: it succeeds on that version only, raises the version by
  one and touches no other node.
\<close>

locale zk_data =
  fixes zd :: "'z zk_data_api"
  assumes get_missing: "zd_get zd z p = Inl e \<Longrightarrow> e = NoNodeError"
    and set_missing: "zd_get zd z p = Inl e \<Longrightarrow> zd_set zd z p d v = (Inl NoNodeError, z)"
    and set_stale: "zd_get zd z p = Inr (d0, v0) \<Longrightarrow> v \<noteq> v0 \<Longrightarrow>
      zd_set zd z p d v = (Inl BadVersionError, z)"
    and set_current: "zd_get zd z p = Inr (d0, v) \<Longrightarrow>
      fst (zd_set zd z p d v) = Inr () \<and>
      zd_get zd (snd (zd_set zd z p d v)) q = (if q = p then Inr (d, v + 1) else zd_get zd z q)"
    and create_fresh: "zd_get zd z p = Inl e \<Longrightarrow>
      fst (zd_create zd z p d) = Inr () \<and> zd_get zd (snd (zd_create zd z p d)) p = Inr (d, 0)"
    and delete_node: "zd_get zd z p = Inr x \<Longrightarrow>
      fst (zd_delete zd z p) = Inr () \<and> zd_get zd (snd (zd_delete zd z p)) p = Inl NoNodeError"

section \<open>Names\<close>

definition get_lock_name :: "(string \<Rightarrow> string) \<Rightarrow> downloadable_content \<Rightarrow> string" where
  "get_lock_name md5sum content = md5sum (src content)"

definition get_node_path ::
  "(string \<Rightarrow> string) \<Rightarrow> (downloadable_content \<Rightarrow> string) \<Rightarrow>
   string \<Rightarrow> string option \<Rightarrow> downloadable_content option \<Rightarrow> string" where
  "get_node_path md5sum str_content client action content =
     ''/downloads/'' @ client @
     (case action of
        None \<Rightarrow> []
      | Some a \<Rightarrow> if a = [] then [] else ''/'' @ a @
          (case content of None \<Rightarrow> [] | Some c \<Rightarrow> ''/'' @ md5sum (str_content c)))"

section \<open>Cancellation\<close>

text \<open>
  The state of ZooKeeper, the number of calls made, and what the calls of this process replaced:
  the node, its data before the write and its data after it.
\<close>

record 'z zk_sched =
  zs_state :: 'z
  zs_calls :: nat
  zs_writes :: "(string \<times> pyval \<times> pyval) list"

definition zk_read ::
  "(nat \<Rightarrow> 'z \<Rightarrow> 'z) \<Rightarrow> ('z \<Rightarrow> 'a res) \<Rightarrow> 'z zk_sched \<Rightarrow> 'a res \<times> 'z zk_sched" where
  "zk_read env f w =
     (let z = env (zs_calls w) (zs_state w)
      in (f z, w\<lparr>zs_state := z, zs_calls := zs_calls w + 1\<rparr>))"

definition zk_write ::
  "'z zk_data_api \<Rightarrow> (nat \<Rightarrow> 'z \<Rightarrow> 'z) \<Rightarrow> string \<Rightarrow> pyval \<Rightarrow> nat \<Rightarrow> 'z zk_sched \<Rightarrow> unit res \<times> 'z zk_sched" where
  "zk_write zd env p d v w =
     (let z = env (zs_calls w) (zs_state w);
          (r, z') = zd_set zd z p d v;
          w' = w\<lparr>zs_state := z', zs_calls := zs_calls w + 1\<rparr>
      in (r, case (r, zd_get zd z p) of
               (Inr _, Inr (d0, _)) \<Rightarrow> w'\<lparr>zs_writes := zs_writes w @ [(p, d0, d)]\<rparr>
             | _ \<Rightarrow> w'))"

text \<open>The inner \<open>while True\<close>; \<open>True\<close> if the node was updated.\<close>

fun cancel_node ::
  "nat \<Rightarrow> 'z zk_data_api \<Rightarrow> (nat \<Rightarrow> 'z \<Rightarrow> 'z) \<Rightarrow> string \<Rightarrow> 'z zk_sched \<Rightarrow> (bool res \<times> 'z zk_sched) option" where
  "cancel_node 0 zd env abs_path w = None"
| "cancel_node (Suc fuel) zd env abs_path w =
     (case zk_read env (\<lambda>z. zd_get zd z abs_path) w of
        (Inl e, w1) \<Rightarrow> Some (Inl e, w1)
      | (Inr (data, ver), w1) \<Rightarrow>
          (case fr_from_json data of
             Inl e \<Rightarrow> Some (Inl e, w1)
           | Inr result \<Rightarrow>
               if fs_final (fr_status result) then Some (Inr False, w1)
               else (case zk_write zd env abs_path
                            (fr_to_json (result\<lparr>fr_status := FS_CANCELED\<rparr>)) ver w1 of
                       (Inr _, w2) \<Rightarrow> Some (Inr True, w2)
                     | (Inl e, w2) \<Rightarrow>
                         if e = BadVersionError then cancel_node fuel zd env abs_path w2
                         else Some (Inl e, w2))))"

fun cancel_children ::
  "nat \<Rightarrow> 'z zk_data_api \<Rightarrow> (nat \<Rightarrow> 'z \<Rightarrow> 'z) \<Rightarrow> string \<Rightarrow> string list \<Rightarrow> nat \<Rightarrow> 'z zk_sched \<Rightarrow>
   (nat res \<times> 'z zk_sched) option" where
  "cancel_children fuel zd env zk_node_path [] n w = Some (Inr n, w)"
| "cancel_children fuel zd env zk_node_path (child # cs) n w =
     (case cancel_node fuel zd env (zk_node_path @ ''/'' @ child) w of
        None \<Rightarrow> None
      | Some (Inr updated, w') \<Rightarrow>
          cancel_children fuel zd env zk_node_path cs (if updated then n + 1 else n) w'
      | Some (Inl e, w') \<Rightarrow>
          if e = NoNodeError then cancel_children fuel zd env zk_node_path cs n w'
          else Some (Inl e, w'))"

definition update_nodes_to_cancel ::
  "nat \<Rightarrow> 'z zk_data_api \<Rightarrow> (nat \<Rightarrow> 'z \<Rightarrow> 'z) \<Rightarrow> string \<Rightarrow> 'z zk_sched \<Rightarrow> (nat res \<times> 'z zk_sched) option" where
  "update_nodes_to_cancel fuel zd env zk_node_path w =
     (case zk_read env (\<lambda>z. zd_children zd z zk_node_path) w of
        (Inl e, w1) \<Rightarrow> Some (if e = NoNodeError then Inr 0 else Inl e, w1)
      | (Inr cs, w1) \<Rightarrow> cancel_children fuel zd env zk_node_path cs 0 w1)"

section \<open>Fetching\<close>

text \<open>
  What a fetch does outside ZooKeeper, in order.  The \<open>DownloadableContent\<close> is one object that
  the callbacks share, so it is a field of the world; the size estimator may answer differently
  at each call.
\<close>

datatype dm_effect =
    DM_Done downloadable_content
  | DM_Cleanup downloadable_content
  | DM_Release
  | DM_Dispatch downloadable_content string

record 'z dm_world =
  dm_zk :: 'z
  dm_content :: downloadable_content
  dm_trace :: "dm_effect list"
  dm_estimates :: nat

record dm_ports =
  size_estimator :: "nat \<Rightarrow> string \<Rightarrow> content_size_info res"
  exc_str :: "pyexc \<Rightarrow> string"
  node_path :: "downloadable_content \<Rightarrow> string"
  done_result :: "downloadable_content \<Rightarrow> unit res"
  cleanup_result :: "downloadable_content \<Rightarrow> unit res"
  release_result :: "unit res"
  dispatch_result :: "downloadable_content \<Rightarrow> string \<Rightarrow> unit res"

definition dm_emit :: "('z dm_world \<Rightarrow> dm_effect) \<Rightarrow> (downloadable_content \<Rightarrow> unit res) \<Rightarrow> ('z dm_world, unit) py" where
  "dm_emit eff r = (\<lambda>w. (r (dm_content w), w\<lparr>dm_trace := dm_trace w @ [eff w]\<rparr>))"

definition call_on_done :: "dm_ports \<Rightarrow> ('z dm_world, unit) py" where
  "call_on_done P = dm_emit (\<lambda>w. DM_Done (dm_content w)) (done_result P)"

definition lock_release :: "dm_ports \<Rightarrow> ('z dm_world, unit) py" where
  "lock_release P = dm_emit (\<lambda>w. DM_Release) (\<lambda>_. release_result P)"

definition on_done_and_unlock :: "dm_ports \<Rightarrow> ('z dm_world, unit) py" where
  "on_done_and_unlock P =
     py_then (call_on_done P)
     (py_then (dm_emit (\<lambda>w. DM_Cleanup (dm_content w)) (cleanup_result P))
     (lock_release P))"

definition dm_update :: "(downloadable_content \<Rightarrow> downloadable_content) \<Rightarrow> ('z dm_world, unit) py" where
  "dm_update f = py_modify (\<lambda>w. w\<lparr>dm_content := f (dm_content w)\<rparr>)"

definition dm_zk_op :: "('z \<Rightarrow> 'a res \<times> 'z) \<Rightarrow> ('z dm_world, 'a) py" where
  "dm_zk_op f = (\<lambda>w. case f (dm_zk w) of (r, z) \<Rightarrow> (r, w\<lparr>dm_zk := z\<rparr>))"

definition estimate_size :: "dm_ports \<Rightarrow> ('z dm_world, unit) py" where
  "estimate_size P = (\<lambda>w.
     let w' = w\<lparr>dm_estimates := dm_estimates w + 1\<rparr>
     in case size_estimator P (dm_estimates w) (src (dm_content w)) of
          Inl e \<Rightarrow> (Inl e, w')
        | Inr i \<Rightarrow> (Inr (), w'\<lparr>dm_content := (dm_content w)\<lparr>size_info := Some i\<rparr>\<rparr>))"

definition handle_node_state :: "'z zk_data_api \<Rightarrow> dm_ports \<Rightarrow> string \<Rightarrow> ('z dm_world, unit) py" where
  "handle_node_state zd P zk_node_path =
     py_bind (dm_zk_op (\<lambda>z. (zd_get zd z zk_node_path, z))) (\<lambda>(data, _).
     py_bind (py_lift (fr_from_json data)) (\<lambda>result.
       if fs_final (fr_status result) then
         py_then (dm_update (fr_update result))
         (py_then (dm_zk_op (\<lambda>z. zd_delete zd z zk_node_path))
         (on_done_and_unlock P))
       else py_return ()))"

datatype zk_event_type = EV_CREATED | EV_CHANGED | EV_DELETED

definition on_zk_changed :: "'z zk_data_api \<Rightarrow> dm_ports \<Rightarrow> zk_event_type \<Rightarrow> string \<Rightarrow> ('z dm_world, unit) py" where
  "on_zk_changed zd P ty p = (if ty = EV_DELETED then py_return () else handle_node_state zd P p)"

definition INITIAL_DATA :: pyval where
  "INITIAL_DATA = fr_to_json \<lparr>fr_status = FS_PENDING, fr_type = None, fr_message = None\<rparr>"

definition on_content_locked :: "'z zk_data_api \<Rightarrow> dm_ports \<Rightarrow> ('z dm_world, unit) py" where
  "on_content_locked zd P = (\<lambda>w.
     case estimate_size P w of
       (Inl e, w1) \<Rightarrow>
         (let msg = ''Failed to estimate the size of content '' @ src (dm_content w1) @ '': '' @ exc_str P e
          in py_then (dm_update (fr_update \<lparr>fr_status = FS_FAILED, fr_type = None, fr_message = Some msg\<rparr>))
             (py_then (call_on_done P) (lock_release P)) w1)
     | (Inr _, w1) \<Rightarrow>
         (let zk_node_path = node_path P (dm_content w1)
          in py_then (dm_zk_op (\<lambda>z. zd_create zd z zk_node_path INITIAL_DATA))
             (py_then (handle_node_state zd P zk_node_path)
             (py_then (estimate_size P)
             (\<lambda>w2. dm_emit (\<lambda>w. DM_Dispatch (dm_content w) zk_node_path)
                (\<lambda>c. dispatch_result P c zk_node_path) w2))) w1))"

section \<open>Facts about the cancellation\<close>

text \<open>What other processes do respects versions: data changes only with its version.\<close>

definition respects_versions :: "'z zk_data_api \<Rightarrow> (nat \<Rightarrow> 'z \<Rightarrow> 'z) \<Rightarrow> bool" where
  "respects_versions zd env \<longleftrightarrow> (\<forall>n z p d d' v.
     zd_get zd z p = Inr (d, v) \<longrightarrow> zd_get zd (env n z) p = Inr (d', v) \<longrightarrow> d' = d)"

text \<open>A write that cancels an unfinished result and keeps the rest of it.\<close>

definition cancels :: "string \<times> pyval \<times> pyval \<Rightarrow> bool" where
  "cancels e \<longleftrightarrow> (case e of (p, d, d') \<Rightarrow>
     \<exists>r. fr_from_json d = Inr r \<and> \<not> fs_final (fr_status r) \<and>
         d' = fr_to_json (r\<lparr>fr_status := FS_CANCELED\<rparr>))"

text \<open>A node that is missing, unreadable or holds a final status.\<close>

definition node_done :: "'z zk_data_api \<Rightarrow> 'z \<Rightarrow> string \<Rightarrow> bool" where
  "node_done zd z p \<longleftrightarrow> (\<forall>d v r. zd_get zd z p = Inr (d, v) \<longrightarrow> fr_from_json d = Inr r \<longrightarrow>
     fs_final (fr_status r))"

lemma zk_write_fail:
  assumes "fst (zd_set zd (env (zs_calls w) (zs_state w)) p d v) = Inl e"
  shows "zk_write zd env p d v w =
    (Inl e, w\<lparr>zs_state := snd (zd_set zd (env (zs_calls w) (zs_state w)) p d v), zs_calls := zs_calls w + 1\<rparr>)"
  using assms by (simp add: zk_write_def Let_def split_beta)

lemma zk_write_ok:
  assumes "fst (zd_set zd (env (zs_calls w) (zs_state w)) p d v) = Inr u"
    and "zd_get zd (env (zs_calls w) (zs_state w)) p = Inr (d0, v0)"
  shows "zk_write zd env p d v w =
    (Inr u, w\<lparr>zs_state := snd (zd_set zd (env (zs_calls w) (zs_state w)) p d v),
       zs_calls := zs_calls w + 1, zs_writes := zs_writes w @ [(p, d0, d)]\<rparr>)"
  using assms by (simp add: zk_write_def Let_def split_beta)

context zk_data
begin

lemma set_result:
  "fst (zd_set zd z p d v) = Inr () \<Longrightarrow> \<exists>d0. zd_get zd z p = Inr (d0, v)"
proof (cases "zd_get zd z p")
  case (Inl e)
  assume "fst (zd_set zd z p d v) = Inr ()"
  with set_missing [OF Inl] show ?thesis by simp
next
  case (Inr x)
  assume a: "fst (zd_set zd z p d v) = Inr ()"
  obtain d0 v0 where x: "x = (d0, v0)" by (cases x)
  with Inr set_stale [of z p d0 v0 v d] a show ?thesis by (cases "v = v0") auto
qed

lemma write_cancels:
  assumes env: "respects_versions zd env"
    and get: "zd_get zd z p = Inr (d, v)" and r: "fr_from_json d = Inr r" "\<not> fs_final (fr_status r)"
    and w: "zs_state w = z" "zk_write zd env p (fr_to_json (r\<lparr>fr_status := FS_CANCELED\<rparr>)) v w = (q, w')"
  shows "case q of Inl e \<Rightarrow> zs_writes w' = zs_writes w
    | Inr _ \<Rightarrow> \<exists>x. zs_writes w' = zs_writes w @ [x] \<and> cancels x"
proof -
  let ?z = "env (zs_calls w) z" and ?d = "fr_to_json (r\<lparr>fr_status := FS_CANCELED\<rparr>)"
  show ?thesis
  proof (cases "fst (zd_set zd ?z p ?d v)")
    case (Inl e)
    then have "fst (zd_set zd (env (zs_calls w) (zs_state w)) p ?d v) = Inl e" using w(1) by simp
    from zk_write_fail [of zd env w p ?d v, OF this] w(2) show ?thesis by auto
  next
    case (Inr u)
    with set_result obtain d0 where d0: "zd_get zd ?z p = Inr (d0, v)" by fastforce
    with env get have "d0 = d" unfolding respects_versions_def by blast
    moreover have "fst (zd_set zd (env (zs_calls w) (zs_state w)) p ?d v) = Inr u"
      "zd_get zd (env (zs_calls w) (zs_state w)) p = Inr (d0, v)"
      using Inr d0 w(1) by simp_all
    ultimately show ?thesis using zk_write_ok [of zd env w p ?d v u d0 v] w(2) r by (auto simp: cancels_def)
  qed
qed

lemma cancel_node_writes:
  assumes env: "respects_versions zd env"
  shows "cancel_node fuel zd env p w = Some (r, w') \<Longrightarrow>
    \<exists>ws. zs_writes w' = zs_writes w @ ws \<and> (\<forall>x \<in> set ws. cancels x) \<and>
      length ws = (if r = Inr True then 1 else 0)"
proof (induction fuel arbitrary: w)
  case 0
  then show ?case by simp
next
  case (Suc fuel)
  let ?z = "env (zs_calls w) (zs_state w)"
  let ?w1 = "w\<lparr>zs_state := ?z, zs_calls := zs_calls w + 1\<rparr>"
  show ?case
  proof (cases "zd_get zd ?z p")
    case (Inl e)
    with Suc.prems show ?thesis by (auto simp: zk_read_def Let_def)
  next
    case (Inr x)
    obtain d v where get: "zd_get zd ?z p = Inr (d, v)" using Inr by (cases x) auto
    show ?thesis
    proof (cases "fr_from_json d")
      case (Inl e)
      with Suc.prems get show ?thesis by (auto simp: zk_read_def Let_def)
    next
      case (Inr res)
      show ?thesis
      proof (cases "fs_final (fr_status res)")
        case True
        with Suc.prems get Inr show ?thesis by (auto simp: zk_read_def Let_def)
      next
        case False
        obtain q w2 where zw:
          "zk_write zd env p (fr_to_json (res\<lparr>fr_status := FS_CANCELED\<rparr>)) v ?w1 = (q, w2)"
          by (cases "zk_write zd env p (fr_to_json (res\<lparr>fr_status := FS_CANCELED\<rparr>)) v ?w1")
        have log: "case q of Inl e \<Rightarrow> zs_writes w2 = zs_writes w
            | Inr _ \<Rightarrow> \<exists>x. zs_writes w2 = zs_writes w @ [x] \<and> cancels x"
          using write_cancels [OF env get Inr False _ zw] by (simp split: sum.splits)
        show ?thesis
        proof (cases q)
          case (Inl e)
          with log have same: "zs_writes w2 = zs_writes w" by simp
          show ?thesis
          proof (cases "e = BadVersionError")
            case True
            with Suc.prems get \<open>fr_from_json d = Inr res\<close> False zw Inl
            have "cancel_node fuel zd env p w2 = Some (r, w')" by (simp add: zk_read_def Let_def)
            from Suc.IH [OF this] same show ?thesis by simp
          next
            case F: False
            with Suc.prems get \<open>fr_from_json d = Inr res\<close> False zw Inl same
            show ?thesis by (auto simp: zk_read_def Let_def)
          qed
        next
          case (Inr u)
          with log Suc.prems get \<open>fr_from_json d = Inr res\<close> False zw
          show ?thesis by (auto simp: zk_read_def Let_def)
        qed
      qed
    qed
  qed
qed

lemma cancel_children_writes:
  assumes env: "respects_versions zd env"
  shows "cancel_children fuel zd env base cs n w = Some (r, w') \<Longrightarrow>
    \<exists>ws. zs_writes w' = zs_writes w @ ws \<and> (\<forall>x \<in> set ws. cancels x) \<and>
      (\<forall>m. r = Inr m \<longrightarrow> m = n + length ws)"
proof (induction cs arbitrary: n w)
  case Nil
  then show ?case by auto
next
  case (Cons c cs)
  from Cons.prems obtain q w1 where node: "cancel_node fuel zd env (base @ ''/'' @ c) w = Some (q, w1)"
    by (auto split: option.splits)
  from cancel_node_writes [OF env node] obtain ws where ws: "zs_writes w1 = zs_writes w @ ws"
    "\<forall>x \<in> set ws. cancels x" "length ws = (if q = Inr True then 1 else 0)" by blast
  show ?case
  proof (cases "\<exists>e. q = Inl e \<and> e \<noteq> NoNodeError")
    case True
    with Cons.prems node ws show ?thesis by auto
  next
    case False
    then have "cancel_children fuel zd env base cs (n + length ws) w1 = Some (r, w')"
      using Cons.prems node ws(3) by (auto split: sum.splits if_splits)
    from Cons.IH [OF this] obtain vs where "zs_writes w' = zs_writes w1 @ vs"
      "\<forall>x \<in> set vs. cancels x" "\<forall>m. r = Inr m \<longrightarrow> m = n + length ws + length vs" by blast
    with ws show ?thesis by (intro exI [of _ "ws @ vs"]) auto
  qed
qed

text \<open>Once the other processes are quiet, a write is not stale any more.\<close>

lemma cancel_node_total:
  assumes quiet: "\<And>n z. N \<le> n \<Longrightarrow> env n z = z"
  shows "N - zs_calls w < fuel \<Longrightarrow>
    \<exists>r w'. cancel_node fuel zd env p w = Some (r, w') \<and> zs_calls w \<le> zs_calls w'"
proof (induction fuel arbitrary: w)
  case 0
  then show ?case by simp
next
  case (Suc fuel)
  let ?z = "env (zs_calls w) (zs_state w)"
  let ?w1 = "w\<lparr>zs_state := ?z, zs_calls := zs_calls w + 1\<rparr>"
  show ?case
  proof (cases "\<exists>d v r. zd_get zd ?z p = Inr (d, v) \<and> fr_from_json d = Inr r \<and> \<not> fs_final (fr_status r)")
    case False
    then show ?thesis by (auto simp: zk_read_def Let_def split: sum.splits)
  next
    case True
    then obtain d v r where get: "zd_get zd ?z p = Inr (d, v)" and
      r: "fr_from_json d = Inr r" "\<not> fs_final (fr_status r)" by blast
    let ?d = "fr_to_json (r\<lparr>fr_status := FS_CANCELED\<rparr>)" and ?z2 = "env (zs_calls w + 1) ?z"
    obtain q w2 where zw: "zk_write zd env p ?d v ?w1 = (q, w2)" by (cases "zk_write zd env p ?d v ?w1")
    have q: "q = fst (zd_set zd ?z2 p ?d v)" and calls: "zs_calls w2 = zs_calls w + 2"
      using zw by (auto simp: zk_write_def Let_def split_beta split: sum.splits)
    show ?thesis
    proof (cases "q = Inl BadVersionError")
      case False
      with get r zw calls show ?thesis by (auto simp: zk_read_def Let_def split: sum.splits)
    next
      case True
      have "zs_calls w + 1 < N"
      proof (rule ccontr)
        assume "\<not> zs_calls w + 1 < N"
        then have "?z2 = ?z" using quiet by simp
        with set_current [OF get] q True show False by simp
      qed
      with Suc.prems calls have "N - zs_calls w2 < fuel" by simp
      from Suc.IH [OF this] get r zw True calls show ?thesis by (fastforce simp: zk_read_def Let_def)
    qed
  qed
qed

lemma cancel_children_total:
  assumes quiet: "\<And>n z. N \<le> n \<Longrightarrow> env n z = z"
  shows "N - zs_calls w < fuel \<Longrightarrow> \<exists>r w'. cancel_children fuel zd env base cs n w = Some (r, w')"
proof (induction cs arbitrary: n w)
  case Nil
  then show ?case by simp
next
  case (Cons c cs)
  from cancel_node_total [of N env, OF quiet Cons.prems] obtain r w1 where
    node: "cancel_node fuel zd env (base @ ''/'' @ c) w = Some (r, w1)" "zs_calls w \<le> zs_calls w1"
    by blast
  then have "N - zs_calls w1 < fuel" using Cons.prems by simp
  from Cons.IH [OF this] node(1) show ?case by (cases r) auto
qed

lemma cancel_node_done:
  assumes stable: "\<And>n z q. node_done zd z q \<Longrightarrow> node_done zd (env n z) q"
  shows "cancel_node fuel zd env p w = Some (r, w') \<Longrightarrow>
    (\<forall>q. node_done zd (zs_state w) q \<longrightarrow> node_done zd (zs_state w') q) \<and>
    ((\<exists>b. r = Inr b) \<or> r = Inl NoNodeError \<longrightarrow> node_done zd (zs_state w') p)"
proof (induction fuel arbitrary: w)
  case 0
  then show ?case by simp
next
  case (Suc fuel)
  let ?z = "env (zs_calls w) (zs_state w)"
  let ?w1 = "w\<lparr>zs_state := ?z, zs_calls := zs_calls w + 1\<rparr>"
  have keep1: "node_done zd (zs_state w) q \<Longrightarrow> node_done zd ?z q" for q by (rule stable)
  show ?case
  proof (cases "\<exists>d v r. zd_get zd ?z p = Inr (d, v) \<and> fr_from_json d = Inr r \<and> \<not> fs_final (fr_status r)")
    case False
    then have "node_done zd ?z p" by (auto simp: node_done_def)
    moreover have "w' = ?w1" using False Suc.prems by (auto simp: zk_read_def Let_def split: sum.splits if_splits)
    ultimately show ?thesis using keep1 by simp
  next
    case True
    then obtain d v x where get: "zd_get zd ?z p = Inr (d, v)" and
      x: "fr_from_json d = Inr x" "\<not> fs_final (fr_status x)" by blast
    let ?d = "fr_to_json (x\<lparr>fr_status := FS_CANCELED\<rparr>)" and ?z2 = "env (zs_calls w + 1) ?z"
    obtain q w2 where zw: "zk_write zd env p ?d v ?w1 = (q, w2)" by (cases "zk_write zd env p ?d v ?w1")
    have q: "q = fst (zd_set zd ?z2 p ?d v)" and st: "zs_state w2 = snd (zd_set zd ?z2 p ?d v)"
      using zw by (auto simp: zk_write_def Let_def split_beta split: sum.splits)
    have keep2: "node_done zd (zs_state w) y \<Longrightarrow> node_done zd ?z2 y" for y using stable by blast
    show ?thesis
    proof (cases q)
      case (Inr u)
      then obtain d0 where "zd_get zd ?z2 p = Inr (d0, v)" using q set_result by fastforce
      from set_current [OF this] st have upd:
        "\<And>y. zd_get zd (zs_state w2) y = (if y = p then Inr (?d, v + 1) else zd_get zd ?z2 y)" by simp
      have fin: "node_done zd (zs_state w2) p" by (auto simp: node_done_def upd)
      moreover have "node_done zd (zs_state w2) y" if "node_done zd (zs_state w) y" for y
        using keep2 [OF that] fin by (cases "y = p") (auto simp: node_done_def upd)
      moreover have "w' = w2" using Suc.prems get x zw Inr by (simp add: zk_read_def Let_def)
      ultimately show ?thesis by blast
    next
      case (Inl e)
      have same: "zs_state w2 = ?z2"
      proof (cases "zd_get zd ?z2 p")
        case (Inl e')
        then show ?thesis using set_missing st by simp
      next
        case (Inr y)
        then obtain d0 v0 where y: "zd_get zd ?z2 p = Inr (d0, v0)" by (cases y) auto
        have "v \<noteq> v0" using set_current [of ?z2 p d0 v ?d] y q \<open>q = Inl e\<close> by auto
        then show ?thesis using set_stale [OF y] st by simp
      qed
      show ?thesis
      proof (cases "e = BadVersionError")
        case True
        then have "cancel_node fuel zd env p w2 = Some (r, w')"
          using Suc.prems get x zw Inl by (simp add: zk_read_def Let_def)
        from Suc.IH [OF this] keep2 same show ?thesis by auto
      next
        case False
        then have r: "r = Inl e" "w' = w2" using Suc.prems get x zw Inl by (simp_all add: zk_read_def Let_def)
        have "node_done zd ?z2 p"
        proof (cases "zd_get zd ?z2 p")
          case (Inl e')
          then show ?thesis by (simp add: node_done_def)
        next
          case (Inr y)
          then obtain d0 v0 where y: "zd_get zd ?z2 p = Inr (d0, v0)" by (cases y) auto
          have False
            using set_stale [OF y, of v ?d] set_current [of ?z2 p d0 v ?d] y q \<open>q = Inl e\<close> False
            by (cases "v = v0") auto
          then show ?thesis ..
        qed
        with r same keep2 show ?thesis by simp
      qed
    qed
  qed
qed

lemma cancel_children_done:
  assumes stable: "\<And>n z q. node_done zd z q \<Longrightarrow> node_done zd (env n z) q"
  shows "cancel_children fuel zd env base cs n w = Some (Inr m, w') \<Longrightarrow>
    (\<forall>q. node_done zd (zs_state w) q \<longrightarrow> node_done zd (zs_state w') q) \<and>
    (\<forall>c \<in> set cs. node_done zd (zs_state w') (base @ ''/'' @ c))"
proof (induction cs arbitrary: n w)
  case Nil
  then show ?case by auto
next
  case (Cons c cs)
  from Cons.prems obtain r w1 n' where
    node: "cancel_node fuel zd env (base @ ''/'' @ c) w = Some (r, w1)" and
    r: "(\<exists>b. r = Inr b) \<or> r = Inl NoNodeError" and
    rest: "cancel_children fuel zd env base cs n' w1 = Some (Inr m, w')"
    by (auto split: option.splits sum.splits if_splits)
  from cancel_node_done [OF stable node] r Cons.IH [OF rest] show ?case by auto
qed

end

section \<open>Facts about fetching\<close>

text \<open>
  The notifications of one node, each preceded by what other processes did to ZooKeeper.
\<close>

fun deliver ::
  "'z zk_data_api \<Rightarrow> dm_ports \<Rightarrow> string \<Rightarrow> (('z \<Rightarrow> 'z) \<times> zk_event_type) list \<Rightarrow> 'z dm_world \<Rightarrow> 'z dm_world" where
  "deliver zd P p [] w = w"
| "deliver zd P p ((g, ty) # evs) w =
     deliver zd P p evs (snd (on_zk_changed zd P ty p (w\<lparr>dm_zk := g (dm_zk w)\<rparr>)))"

text \<open>A node that is gone stays gone: only \<open>fetch\<close> creates it, once.\<close>

definition never_recreated :: "'z zk_data_api \<Rightarrow> string \<Rightarrow> (('z \<Rightarrow> 'z) \<times> zk_event_type) list \<Rightarrow> bool" where
  "never_recreated zd p evs \<longleftrightarrow>
     (\<forall>g \<in> fst ` set evs. \<forall>z e. zd_get zd z p = Inl e \<longrightarrow> (\<exists>e'. zd_get zd (g z) p = Inl e'))"

lemma never_recreated_Cons:
  "never_recreated zd p ((g, ty) # evs) \<longleftrightarrow>
     (\<forall>z e. zd_get zd z p = Inl e \<longrightarrow> (\<exists>e'. zd_get zd (g z) p = Inl e')) \<and> never_recreated zd p evs"
  by (auto simp: never_recreated_def)

lemma on_done_and_unlock_run:
  "\<exists>added. snd (on_done_and_unlock P w) = w\<lparr>dm_trace := dm_trace w @ added\<rparr> \<and>
    prefix added [DM_Done (dm_content w), DM_Cleanup (dm_content w), DM_Release]"
  by (cases "done_result P (dm_content w)"; cases "cleanup_result P (dm_content w)")
    (force simp: on_done_and_unlock_def call_on_done_def lock_release_def dm_emit_def
      py_then_def py_bind_def)+

lemma handle_node_state_quiet:
  assumes "\<And>d v r. zd_get zd (dm_zk w) p = Inr (d, v) \<Longrightarrow> fr_from_json d = Inr r \<Longrightarrow> \<not> fs_final (fr_status r)"
  shows "snd (handle_node_state zd P p w) = w"
  using assms
  by (cases "zd_get zd (dm_zk w) p")
    (auto simp: handle_node_state_def py_bind_def dm_zk_op_def py_lift_def py_return_def split: sum.splits)

lemma handle_node_state_final:
  assumes "zk_data zd" and get: "zd_get zd (dm_zk w) p = Inr (d, v)"
    and r: "fr_from_json d = Inr r" "fs_final (fr_status r)"
  shows "handle_node_state zd P p w =
    on_done_and_unlock P (w\<lparr>dm_content := fr_update r (dm_content w), dm_zk := snd (zd_delete zd (dm_zk w) p)\<rparr>)"
proof -
  have "fst (zd_delete zd (dm_zk w) p) = Inr ()" using zk_data.delete_node [OF assms(1) get] by simp
  then show ?thesis using get r
    by (simp add: handle_node_state_def py_bind_def py_then_def dm_zk_op_def py_lift_def dm_update_def
      py_modify_def split_beta)
qed

lemma deliver_missing:
  assumes "never_recreated zd p evs"
    and "zd_get zd (dm_zk w) p = Inl e"
  shows "dm_trace (deliver zd P p evs w) = dm_trace w"
  using assms
proof (induction evs arbitrary: w e)
  case Nil
  then show ?case by simp
next
  case (Cons ev evs)
  obtain g ty where ev: "ev = (g, ty)" by (cases ev)
  let ?w = "w\<lparr>dm_zk := g (dm_zk w)\<rparr>"
  from Cons.prems ev obtain e' where gone: "zd_get zd (dm_zk ?w) p = Inl e'"
    by (auto simp: never_recreated_Cons)
  have same: "snd (on_zk_changed zd P ty p ?w) = ?w"
    using handle_node_state_quiet [of zd ?w p P] gone by (simp add: on_zk_changed_def)
  have "dm_trace (deliver zd P p evs ?w) = dm_trace ?w"
    by (rule Cons.IH [OF _ gone]) (use Cons.prems(1) ev in \<open>simp add: never_recreated_Cons\<close>)
  with same ev show ?case by simp
qed

lemma deliver_trace:
  assumes zk: "zk_data zd"
    and gone: "never_recreated zd p evs"
  shows "\<exists>added c. dm_trace (deliver zd P p evs w) = dm_trace w @ added \<and>
    prefix added [DM_Done c, DM_Cleanup c, DM_Release]"
  using gone
proof (induction evs arbitrary: w)
  case Nil
  then show ?case by simp
next
  case (Cons ev evs)
  obtain g ty where ev: "ev = (g, ty)" by (cases ev)
  let ?w = "w\<lparr>dm_zk := g (dm_zk w)\<rparr>"
  show ?case
  proof (cases "ty \<noteq> EV_DELETED \<and> (\<exists>d v r. zd_get zd (dm_zk ?w) p = Inr (d, v) \<and> fr_from_json d = Inr r \<and>
      fs_final (fr_status r))")
    case False
    then have "snd (on_zk_changed zd P ty p ?w) = ?w"
      using handle_node_state_quiet [of zd ?w p P] by (auto simp: on_zk_changed_def)
    moreover have "\<exists>added c. dm_trace (deliver zd P p evs ?w) = dm_trace ?w @ added \<and>
        prefix added [DM_Done c, DM_Cleanup c, DM_Release]"
      by (rule Cons.IH) (use Cons.prems ev in \<open>simp add: never_recreated_Cons\<close>)
    ultimately show ?thesis using ev by simp
  next
    case True
    then obtain d v r where get: "zd_get zd (dm_zk ?w) p = Inr (d, v)" and
      r: "fr_from_json d = Inr r" "fs_final (fr_status r)" by blast
    let ?w2 = "?w\<lparr>dm_content := fr_update r (dm_content ?w), dm_zk := snd (zd_delete zd (dm_zk ?w) p)\<rparr>"
    have run: "on_zk_changed zd P ty p ?w = on_done_and_unlock P ?w2"
      using handle_node_state_final [OF zk get r] True by (simp add: on_zk_changed_def)
    from on_done_and_unlock_run [of P ?w2] obtain added where
      a: "snd (on_done_and_unlock P ?w2) = ?w2\<lparr>dm_trace := dm_trace ?w2 @ added\<rparr>"
        "prefix added [DM_Done (dm_content ?w2), DM_Cleanup (dm_content ?w2), DM_Release]" by blast
    have "zd_get zd (dm_zk (snd (on_done_and_unlock P ?w2))) p = Inl NoNodeError"
      using zk_data.delete_node [OF zk get] a(1) by simp
    then have "dm_trace (deliver zd P p evs (snd (on_done_and_unlock P ?w2))) =
        dm_trace (snd (on_done_and_unlock P ?w2))"
      by (rule deliver_missing [rotated]) (use Cons.prems ev in \<open>simp add: never_recreated_Cons\<close>)
    with run a ev show ?thesis by auto
  qed
qed

section \<open>An in-memory node store\<close>

record mem_store =
  ms_nodes :: "string \<Rightarrow> (pyval \<times> nat) option"
  ms_kids :: "string \<Rightarrow> string list option"

definition mem_zd :: "mem_store zk_data_api" where
  "mem_zd = \<lparr>
     zd_create = (\<lambda>z p d. (Inr (), z\<lparr>ms_nodes := (ms_nodes z)(p := Some (d, 0))\<rparr>)),
     zd_get = (\<lambda>z p. case ms_nodes z p of None \<Rightarrow> Inl NoNodeError | Some x \<Rightarrow> Inr x),
     zd_set = (\<lambda>z p d v. case ms_nodes z p of
         None \<Rightarrow> (Inl NoNodeError, z)
       | Some (d0, v0) \<Rightarrow>
           if v = v0 then (Inr (), z\<lparr>ms_nodes := (ms_nodes z)(p := Some (d, v0 + 1))\<rparr>)
           else (Inl BadVersionError, z)),
     zd_delete = (\<lambda>z p. (Inr (), z\<lparr>ms_nodes := (ms_nodes z)(p := None)\<rparr>)),
     zd_children = (\<lambda>z p. case ms_kids z p of None \<Rightarrow> Inl NoNodeError | Some cs \<Rightarrow> Inr cs)\<rparr>"

interpretation memdata: zk_data mem_zd
  by unfold_locales (auto simp: mem_zd_def split: option.splits if_splits)

text \<open>
  Two downloads of an action, one still running; before the first write of the cancellation the
  fetcher job reports progress, so that the write is stale.
\<close>

definition two_downloads :: "mem_store zk_sched" where
  "two_downloads = \<lparr>zs_state = \<lparr>ms_nodes = [
       ''/downloads/c/a/x'' \<mapsto> (fr_to_json \<lparr>fr_status = FS_PENDING, fr_type = None, fr_message = None\<rparr>, 0),
       ''/downloads/c/a/y'' \<mapsto> (fr_to_json \<lparr>fr_status = FS_DONE, fr_type = Some FT_FILE, fr_message = None\<rparr>, 2)],
     ms_kids = [''/downloads/c/a'' \<mapsto> [''x'', ''y'']]\<rparr>, zs_calls = 0, zs_writes = []\<rparr>"

definition job_reports :: "nat \<Rightarrow> mem_store \<Rightarrow> mem_store" where
  "job_reports n z = (if n = 2 then snd (zd_set mem_zd z ''/downloads/c/a/x''
     (fr_to_json \<lparr>fr_status = FS_RUNNING, fr_type = None, fr_message = None\<rparr>) 0) else z)"

lemma job_reports_versions: "respects_versions mem_zd job_reports"
  by (auto simp: respects_versions_def job_reports_def mem_zd_def split: option.splits if_splits)

definition cancel_run :: "(nat res \<times> mem_store zk_sched) option" where
  "cancel_run = update_nodes_to_cancel 4 mem_zd job_reports ''/downloads/c/a'' two_downloads"

lemma cancel_run_result: "map_option fst cancel_run = Some (Inr 1)"
  by code_simp

section \<open>Properties\<close>

text \<open>
  (C2) Whatever other processes do, \<open>_update_nodes_to_cancel\<close> replaces only results that are not
  final at the moment of the write, changes nothing but their status, and returns the number of
  results it replaced.
\<close>

theorem cancel_only_unfinished:
  assumes zk: "zk_data zd" and env: "respects_versions zd env"
    and run: "update_nodes_to_cancel fuel zd env base w = Some (r, w')"
  shows "\<exists>ws. zs_writes w' = zs_writes w @ ws \<and> (\<forall>x \<in> set ws. cancels x) \<and>
    (\<forall>m. r = Inr m \<longrightarrow> m = length ws)"
proof (cases "zd_children zd (env (zs_calls w) (zs_state w)) base")
  case (Inl e)
  with run show ?thesis by (auto simp: update_nodes_to_cancel_def zk_read_def Let_def)
next
  case (Inr cs)
  with run have "cancel_children fuel zd env base cs 0
      (w\<lparr>zs_state := env (zs_calls w) (zs_state w), zs_calls := zs_calls w + 1\<rparr>) = Some (r, w')"
    by (simp add: update_nodes_to_cancel_def zk_read_def Let_def)
  from zk_data.cancel_children_writes [OF zk env this] show ?thesis by simp
qed

theorem cancel_only_unfinished_witness:
  "\<exists>r w' ws. cancel_run = Some (r, w') \<and> zs_writes w' = zs_writes two_downloads @ ws \<and>
    (\<forall>x \<in> set ws. cancels x) \<and> length ws = 1"
proof -
  obtain w' where run: "cancel_run = Some (Inr 1, w')" using cancel_run_result by auto
  from cancel_only_unfinished [OF memdata.zk_data_axioms job_reports_versions run [unfolded cancel_run_def]]
  obtain ws where "zs_writes w' = zs_writes two_downloads @ ws" "\<forall>x \<in> set ws. cancels x" "length ws = 1"
    by auto
  with run show ?thesis by blast
qed

text \<open>
  (C30) The retry loop of the cancellation ends: if the other processes leave ZooKeeper alone from
  call \<open>N\<close> on, \<open>N + 1\<close> rounds per node are enough for it to return.
\<close>

theorem cancel_returns:
  assumes zk: "zk_data zd" and quiet: "\<And>n z. N \<le> n \<Longrightarrow> env n z = z" and fuel: "N < fuel"
  shows "\<exists>r w'. update_nodes_to_cancel fuel zd env base w = Some (r, w')"
proof (cases "zd_children zd (env (zs_calls w) (zs_state w)) base")
  case (Inl e)
  then show ?thesis by (simp add: update_nodes_to_cancel_def zk_read_def Let_def)
next
  case (Inr cs)
  let ?w = "w\<lparr>zs_state := env (zs_calls w) (zs_state w), zs_calls := zs_calls w + 1\<rparr>"
  have "N - zs_calls ?w < fuel" using fuel by simp
  from zk_data.cancel_children_total [of zd N env ?w fuel base cs 0, OF zk quiet this] Inr show ?thesis
    by (simp add: update_nodes_to_cancel_def zk_read_def Let_def)
qed

theorem cancel_returns_witness: "\<exists>r w'. update_nodes_to_cancel 4 mem_zd job_reports ''/downloads/c/a'' two_downloads = Some (r, w')"
  by (rule cancel_returns [OF memdata.zk_data_axioms, of 3]) (simp_all add: job_reports_def)


definition quiet_run :: "(nat res \<times> mem_store zk_sched) option" where
  "quiet_run = update_nodes_to_cancel 1 mem_zd (\<lambda>_ z. z) ''/downloads/c/a'' two_downloads"


text \<open>
  (C4) The result of a download is reported at most once: whatever notifications arrive for its
  node, the fetch reports to \<open>on_done\<close> once, then removes the job, then releases the lock, in this
  order and with the same content.
\<close>

theorem fetch_reports_once:
  assumes "zk_data zd" "never_recreated zd p evs"
  shows "\<exists>added c. dm_trace (deliver zd P p evs w) = dm_trace w @ added \<and>
    prefix added [DM_Done c, DM_Cleanup c, DM_Release]"
  by (rule deliver_trace [OF assms])

definition demo_content :: downloadable_content where
  "demo_content = \<lparr>src = ''s3://b/k'', path = ''/p'', dc_id = None, md5 = None, dst = Some ''s3://d/k'',
     dc_type = None, dc_status = None, dc_message = None, size_info = None\<rparr>"

definition demo_ports :: dm_ports where
  "demo_ports = \<lparr>size_estimator = (\<lambda>_ _. Inl S3Error), exc_str = (\<lambda>_. ''denied''),
     node_path = (\<lambda>_. ''/n''), done_result = (\<lambda>_. Inr ()), cleanup_result = (\<lambda>_. Inr ()),
     release_result = Inr (), dispatch_result = (\<lambda>_ _. Inl (ApiException 403))\<rparr>"

definition demo_world :: "fetcher_status \<Rightarrow> mem_store dm_world" where
  "demo_world st = \<lparr>dm_zk = \<lparr>ms_nodes = [''/n'' \<mapsto>
       (fr_to_json \<lparr>fr_status = st, fr_type = None, fr_message = None\<rparr>, 1)], ms_kids = (\<lambda>_. None)\<rparr>,
     dm_content = demo_content, dm_trace = [], dm_estimates = 0\<rparr>"

theorem fetch_reports_once_witness:
  "\<exists>added c. dm_trace (deliver mem_zd demo_ports ''/n'' [(\<lambda>z. z, EV_CHANGED), (\<lambda>z. z, EV_DELETED)]
      (demo_world FS_DONE)) = dm_trace (demo_world FS_DONE) @ added \<and>
    prefix added [DM_Done c, DM_Cleanup c, DM_Release]"
  by (rule fetch_reports_once [OF memdata.zk_data_axioms]) (simp add: never_recreated_def)

text \<open>
  A notification with a final result updates the content, deletes the node, reports, cleans
  up and releases the lock; a notification without one changes nothing.
\<close>

theorem node_state_handled:
  assumes zk: "zk_data zd" and get: "zd_get zd (dm_zk w) p = Inr (fr_to_json r, v)"
    and ports: "\<And>c. done_result P c = Inr ()" "\<And>c. cleanup_result P c = Inr ()" "release_result P = Inr ()"
  shows "handle_node_state zd P p w =
    (if fs_final (fr_status r)
     then let c = fr_update r (dm_content w)
          in (Inr (), w\<lparr>dm_zk := snd (zd_delete zd (dm_zk w) p), dm_content := c,
                dm_trace := dm_trace w @ [DM_Done c, DM_Cleanup c, DM_Release]\<rparr>)
     else (Inr (), w))"
proof (cases "fs_final (fr_status r)")
  case True
  from handle_node_state_final [OF zk get fr_json_inverse True] ports True show ?thesis
    by (simp add: Let_def on_done_and_unlock_def call_on_done_def lock_release_def dm_emit_def
      py_then_def py_bind_def)
next
  case False
  with get show ?thesis
    by (simp add: handle_node_state_def py_bind_def dm_zk_op_def py_lift_def py_return_def)
qed

theorem node_state_handled_witness:
  "handle_node_state mem_zd demo_ports ''/n'' (demo_world FS_RUNNING) = (Inr (), demo_world FS_RUNNING)"
  using node_state_handled [OF memdata.zk_data_axioms,
      of "demo_world FS_RUNNING" "''/n''" "\<lparr>fr_status = FS_RUNNING, fr_type = None, fr_message = None\<rparr>" 1 demo_ports]
  by (simp add: demo_world_def demo_ports_def mem_zd_def)

text \<open>
  A content whose size cannot be estimated fails without a job: the content is \<open>FAILED\<close> with
  the reason and no destination, \<open>on_done\<close> hears of it, the lock is released, and neither a node
  nor a job is created.
\<close>

theorem estimate_failure_reported:
  assumes est: "size_estimator P (dm_estimates w) (src (dm_content w)) = Inl e"
    and ports: "\<And>c. done_result P c = Inr ()" "release_result P = Inr ()"
  shows "on_content_locked zd P w =
    (let c = (dm_content w)\<lparr>dc_status := Some FS_FAILED, dc_type := None, dst := None,
       dc_message := Some (''Failed to estimate the size of content '' @ src (dm_content w) @ '': '' @ exc_str P e)\<rparr>
     in (Inr (), w\<lparr>dm_estimates := dm_estimates w + 1, dm_content := c,
           dm_trace := dm_trace w @ [DM_Done c, DM_Release]\<rparr>))"
  using assms
  by (simp add: on_content_locked_def estimate_size_def Let_def call_on_done_def lock_release_def dm_emit_def
    py_then_def py_bind_def dm_update_def py_modify_def fr_update_def)

theorem estimate_failure_reported_witness:
  "dm_trace (snd (on_content_locked mem_zd demo_ports (demo_world FS_PENDING))) =
    (let c = demo_content\<lparr>dc_status := Some FS_FAILED, dc_type := None, dst := None,
       dc_message := Some (''Failed to estimate the size of content '' @ ''s3://b/k'' @ '': '' @ ''denied'')\<rparr>
     in [DM_Done c, DM_Release])"
  using estimate_failure_reported [of demo_ports "demo_world FS_PENDING" S3Error mem_zd]
  by (simp add: demo_world_def demo_ports_def demo_content_def Let_def)

text \<open>
  When the job cannot be dispatched, \<open>fetch\<close> raises and the write lock of the content stays
  held: neither \<open>on_done\<close> is called nor the lock released.
\<close>

theorem dispatch_failure_keeps_lock:
  assumes zk: "zk_data zd"
    and est: "\<And>n s. size_estimator P n s = Inr i"
    and free: "\<And>c. zd_get zd (dm_zk w) (node_path P c) = Inl NoNodeError"
    and disp: "\<And>c p. dispatch_result P c p = Inl e"
  shows "fst (on_content_locked zd P w) = Inl e \<and>
    (\<exists>c p. dm_trace (snd (on_content_locked zd P w)) = dm_trace w @ [DM_Dispatch c p])"
proof -
  let ?p = "node_path P ((dm_content w)\<lparr>size_info := Some i\<rparr>)"
  have c: "fst (zd_create zd (dm_zk w) ?p INITIAL_DATA) = Inr ()"
    "zd_get zd (snd (zd_create zd (dm_zk w) ?p INITIAL_DATA)) ?p = Inr (INITIAL_DATA, 0)"
    using zk_data.create_fresh [OF zk free] by simp_all
  then show ?thesis using est disp
    by (simp add: on_content_locked_def estimate_size_def Let_def dm_zk_op_def py_then_def py_bind_def
      handle_node_state_def py_lift_def py_return_def dm_emit_def split_beta INITIAL_DATA_def)
qed

theorem dispatch_failure_keeps_lock_witness:
  "fst (on_content_locked mem_zd
      (demo_ports\<lparr>size_estimator := \<lambda>_ _. Inr \<lparr>total_size = 1, file_count = 1, max_size = 1\<rparr>, node_path := \<lambda>_. ''/m''\<rparr>)
      (demo_world FS_PENDING)) = Inl (ApiException 403)"
  using dispatch_failure_keeps_lock [OF memdata.zk_data_axioms,
      of "demo_ports\<lparr>size_estimator := \<lambda>_ _. Inr \<lparr>total_size = 1, file_count = 1, max_size = 1\<rparr>, node_path := \<lambda>_. ''/m''\<rparr>"
        "\<lparr>total_size = 1, file_count = 1, max_size = 1\<rparr>" "demo_world FS_PENDING" "ApiException 403"]
  by (simp add: demo_ports_def demo_world_def mem_zd_def)

end
