(* ===== verification/Kafka_Service.thy ===== *)
theory Kafka_Service
  imports Events
begin

text \<open>
  The service loop every backend service is built on:
  \<open>kafka-utils/src/bai_kafka_utils/kafka_service.py\<close> (\<open>EventEmitter\<close>, \<open>KafkaService\<close>) with
  \<open>generate_uuid\<close> and \<open>now_milliseconds\<close> of \<open>utils.py\<close>.

  \<open>kworld\<close> is the world of one service process: the log of what its producer sent, the
  sources of fresh UUIDs and of the time (any functions: the theorems hold for all of them),
  and the mutable fields of the \<open>KafkaService\<close> object.  Components extend the record with
  their own state.  A callback object is a number, so that identity is equality, and what the
  objects do is the argument \<open>handle\<close> (and \<open>cleanup\<close>) of the loop.  The batches that
  successive calls of \<open>KafkaConsumer.poll\<close> return are the list given to \<open>run_loop\<close>; when it is
  used up while the loop still runs, the process waits in \<open>poll\<close>.
\<close>

section \<open>The world of a service\<close>

record kmessage =
  km_topic :: string
  km_value :: benchmark_event
  km_key :: string

record kworld =
  sent :: "kmessage list"
  uuid_src :: "nat \<Rightarrow> string"
  uuid_used :: nat
  clock :: "nat \<Rightarrow> int"
  clock_reads :: nat
  running :: bool
  callbacks :: "nat list dict"

definition generate_uuid :: "('a kworld_scheme, string) py" where
  "generate_uuid = (\<lambda>w. (Inr (uuid_src w (uuid_used w)), w\<lparr>uuid_used := Suc (uuid_used w)\<rparr>))"

definition now_milliseconds :: "('a kworld_scheme, int) py" where
  "now_milliseconds = (\<lambda>w. (Inr (clock w (clock_reads w)), w\<lparr>clock_reads := Suc (clock_reads w)\<rparr>))"

section \<open>EventEmitter\<close>

record emitter =
  em_name :: string
  em_version :: string
  em_pod_name :: string
  em_status_topic :: "string option"

definition kafka_producer_send ::
  "string \<Rightarrow> benchmark_event \<Rightarrow> string \<Rightarrow> ('a kworld_scheme, unit) py" where
  "kafka_producer_send topic v key =
     py_modify (\<lambda>w. w\<lparr>sent := sent w @ [\<lparr>km_topic = topic, km_value = v, km_key = key\<rparr>]\<rparr>)"

definition add_self_to_visited ::
  "emitter \<Rightarrow> benchmark_event \<Rightarrow> ('a kworld_scheme, visited_service list) py" where
  "add_self_to_visited em e =
     py_bind now_milliseconds (\<lambda>current_time_ms.
       py_return (visited e @
         [\<lparr>svc = em_name em, vs_tstamp = current_time_ms, version = em_version em,
           node = Some (em_pod_name em)\<rparr>]))"

definition send_event :: "emitter \<Rightarrow> benchmark_event \<Rightarrow> string \<Rightarrow> ('a kworld_scheme, unit) py" where
  "send_event em e topic =
     py_bind generate_uuid (\<lambda>m.
     py_bind (add_self_to_visited em e) (\<lambda>vs.
     py_bind now_milliseconds (\<lambda>t.
       (let event_to_send = set_tstamp t (set_visited vs (set_ev_type topic (set_message_id m e)))
        in kafka_producer_send topic event_to_send (client_id event_to_send)))))"

definition send_status_message_event ::
  "emitter \<Rightarrow> benchmark_event \<Rightarrow> status \<Rightarrow> string \<Rightarrow> string option \<Rightarrow> ('a kworld_scheme, unit) py" where
  "send_status_message_event em handled_event st msg target_action_id =
     (let status_event = create_from_event st msg handled_event;
          status_event =
            (case target_action_id of
               Some a \<Rightarrow> if a \<noteq> [] then set_action_id a status_event else status_event
             | None \<Rightarrow> status_event)
      in case em_status_topic em of
           Some topic \<Rightarrow> if topic \<noteq> [] then send_event em status_event topic else py_return ()
         | None \<Rightarrow> py_return ())"

section \<open>KafkaService\<close>

text \<open>A message read from Kafka; the value is \<open>None\<close> when it could not be deserialised.\<close>

record kmsg =
  msg_value :: "benchmark_event option"

type_synonym 'w handler = "nat \<Rightarrow> benchmark_event \<Rightarrow> ('w, unit) py"

definition handle_event :: "'w handler \<Rightarrow> benchmark_event option \<Rightarrow> nat \<Rightarrow> ('w, unit) py" where
  "handle_event handle ev cb =
     (case ev of
        None \<Rightarrow> py_raise KafkaServiceCallbackException
      | Some e \<Rightarrow> handle cb e)"

text \<open>
  Both \<open>except\<close> clauses log and go on, so the exception is dropped whatever it is.
\<close>

definition safe_handle_msg :: "'w handler \<Rightarrow> kmsg \<Rightarrow> nat \<Rightarrow> ('w, unit) py" where
  "safe_handle_msg handle msg cb =
     py_catch (handle_event handle (msg_value msg) cb) (\<lambda>e. py_return ())"

text \<open>Whether \<open>_check_message_belongs_to_topic\<close> logs its warning; it has no other effect.\<close>

definition check_message_belongs_to_topic :: "kmsg \<Rightarrow> string \<Rightarrow> bool" where
  "check_message_belongs_to_topic msg topic =
     (case msg_value msg of None \<Rightarrow> False | Some e \<Rightarrow> ev_type e \<noteq> topic)"

definition process_msg ::
  "'a kworld_scheme handler \<Rightarrow> string \<Rightarrow> kmsg \<Rightarrow> ('a kworld_scheme, unit) py" where
  "process_msg handle topic msg = (\<lambda>w.
     case dict_get (callbacks w) topic of
       None \<Rightarrow> (Inr (), w)
     | Some cbs \<Rightarrow> py_for cbs (safe_handle_msg handle msg) w)"

definition process_records ::
  "'a kworld_scheme handler \<Rightarrow> (string \<times> kmsg list) list \<Rightarrow> ('a kworld_scheme, unit) py" where
  "process_records handle records =
     py_for records (\<lambda>(topic, record). py_for record (process_msg handle topic))"

fun loop_polls ::
  "'a kworld_scheme handler \<Rightarrow> (string \<times> kmsg list) list list \<Rightarrow> ('a kworld_scheme, bool) py" where
  "loop_polls handle [] w = (Inr (\<not> running w), w)"
| "loop_polls handle (records # polls) w =
     (if running w then py_then (process_records handle records) (loop_polls handle polls) w
      else (Inr True, w))"

text \<open>
  \<open>run_loop\<close> returns whether the loop was left; only then are the callbacks cleaned up.  The
  source iterates over a \<open>set\<close> of the callback objects, in no particular order.
\<close>

definition run_loop ::
  "'a kworld_scheme handler \<Rightarrow> (nat \<Rightarrow> ('a kworld_scheme, unit) py) \<Rightarrow>
   (string \<times> kmsg list) list list \<Rightarrow> ('a kworld_scheme, bool) py" where
  "run_loop handle cleanup polls = (\<lambda>w.
     if running w then (Inl LoopAlreadyRunningException, w)
     else py_bind (loop_polls handle polls) (\<lambda>stopped.
            if stopped then
              (\<lambda>w. py_then (py_for (remdups (concat (map snd (callbacks w)))) cleanup)
                     (py_return True) w)
            else py_return False) (w\<lparr>running := True\<rparr>))"

definition stop_loop :: "('a kworld_scheme, unit) py" where
  "stop_loop = (\<lambda>w. if \<not> running w then (Inl LoopNotRunningException, w)
                    else (Inr (), w\<lparr>running := False\<rparr>))"

definition add_callback :: "nat \<Rightarrow> string \<Rightarrow> ('a kworld_scheme, unit) py" where
  "add_callback cb topic = (\<lambda>w.
     if running w then (Inl LoopAlreadyRunningException, w)
     else (Inr (),
       (case dict_get (callbacks w) topic of
          Some cbs \<Rightarrow> w\<lparr>callbacks := dict_set (callbacks w) topic (cbs @ [cb])\<rparr>
        | None \<Rightarrow> w\<lparr>callbacks := dict_set (callbacks w) topic [cb]\<rparr>)))"

definition remove_callback :: "nat \<Rightarrow> string option \<Rightarrow> ('a kworld_scheme, unit) py" where
  "remove_callback cb topic = (\<lambda>w.
     if running w then (Inl LoopAlreadyRunningException, w)
     else if truthy_str topic then
       (case dict_get (callbacks w) (the topic) of
          None \<Rightarrow> (Inl (KeyError (the topic)), w)
        | Some cbs \<Rightarrow>
            if cb \<in> set cbs then
              (Inr (), w\<lparr>callbacks := dict_set (callbacks w) (the topic) (remove1 cb cbs)\<rparr>)
            else (Inl (ValueError ''list.remove(x): x not in list''), w))
     else (Inr (), w\<lparr>callbacks := map (\<lambda>(t, cbs). (t, remove1 cb cbs)) (callbacks w)\<rparr>))"

section \<open>What is sent\<close>

definition sent_event :: "emitter \<Rightarrow> benchmark_event \<Rightarrow> string \<Rightarrow> 'a kworld_scheme \<Rightarrow> benchmark_event" where
  "sent_event em e topic w =
     set_tstamp (clock w (Suc (clock_reads w)))
       (set_visited (visited e @
          [\<lparr>svc = em_name em, vs_tstamp = clock w (clock_reads w), version = em_version em,
            node = Some (em_pod_name em)\<rparr>])
       (set_ev_type topic (set_message_id (uuid_src w (uuid_used w)) e)))"

lemma send_event_run [py_simps]:
  "send_event em e topic w =
     (Inr (), w\<lparr>uuid_used := Suc (uuid_used w), clock_reads := Suc (Suc (clock_reads w)),
               sent := sent w @ [\<lparr>km_topic = topic, km_value = sent_event em e topic w,
                                  km_key = client_id e\<rparr>]\<rparr>)"
  by (simp add: send_event_def generate_uuid_def now_milliseconds_def add_self_to_visited_def
      kafka_producer_send_def sent_event_def py_simps)

lemma sent_event_sel [simp, event_simps]:
  "action_id (sent_event em e t w) = action_id e"
  "parent_action_id (sent_event em e t w) = parent_action_id e"
  "client_id (sent_event em e t w) = client_id e"
  "payload (sent_event em e t w) = payload e"
  "ev_type (sent_event em e t w) = t"
  "message_id (sent_event em e t w) = uuid_src w (uuid_used w)"
  "tstamp (sent_event em e t w) = clock w (Suc (clock_reads w))"
  by (simp_all add: sent_event_def)

lemma visited_sent_event [simp, event_simps]:
  "visited (sent_event em e t w) = visited e @
     [\<lparr>svc = em_name em, vs_tstamp = clock w (clock_reads w), version = em_version em,
       node = Some (em_pod_name em)\<rparr>]"
  by (simp add: sent_event_def)

text \<open>The event a status message is sent as, before it is dispatched.\<close>

definition status_event :: "benchmark_event \<Rightarrow> status \<Rightarrow> string \<Rightarrow> string option \<Rightarrow> benchmark_event" where
  "status_event e st msg target =
     (if truthy_str target then set_action_id (the target) (create_from_event st msg e)
      else create_from_event st msg e)"

lemma send_status_message_event_run [py_simps]:
  "send_status_message_event em e st msg target w =
     (if truthy_str (em_status_topic em)
      then send_event em (status_event e st msg target) (the (em_status_topic em)) w
      else (Inr (), w))"
  by (auto simp: send_status_message_event_def status_event_def Let_def split: option.splits)

lemma status_event_sel [simp, event_simps]:
  "payload (status_event e st msg target) = StatusMessagePayload msg st (Some e)"
  "client_id (status_event e st msg target) = client_id e"
  "visited (status_event e st msg target) = []"
  by (simp_all add: status_event_def)

text \<open>
  \<open>emits\<close>: how a call of a service may change the log.  It only appends, and every message
  gets an identifier of its own when the UUID source never repeats itself.
\<close>

definition fresh_ids :: "'a kworld_scheme \<Rightarrow> bool" where
  "fresh_ids w \<longleftrightarrow>
     distinct (map (message_id \<circ> km_value) (sent w)) \<and>
     (\<forall>m \<in> set (sent w). message_id (km_value m) \<in> uuid_src w ` {..<uuid_used w})"

definition emits :: "'a kworld_scheme \<Rightarrow> 'b kworld_scheme \<Rightarrow> bool" where
  "emits w w' \<longleftrightarrow>
     prefix (sent w) (sent w') \<and> uuid_src w' = uuid_src w \<and>
     (inj (uuid_src w) \<and> fresh_ids w \<longrightarrow> fresh_ids w')"

interpretation klog: world_order emits
  by unfold_locales (auto simp: emits_def)

lemma fresh_ids_send:
  assumes "inj (uuid_src w)" and "fresh_ids w"
  shows "fresh_ids (snd (send_event em e t w))"
proof -
  let ?n = "uuid_used w"
  have "uuid_src w ?n \<notin> uuid_src w ` {..<?n}"
    using assms(1) by (auto simp: inj_def)
  then have "uuid_src w ?n \<notin> set (map (message_id \<circ> km_value) (sent w))"
    using assms(2) unfolding fresh_ids_def by auto
  then show ?thesis
    using assms(2) by (auto simp: fresh_ids_def send_event_run less_Suc_eq)
qed

lemma emits_same_log:
  "sent w' = sent w \<Longrightarrow> uuid_src w' = uuid_src w \<Longrightarrow> uuid_used w' = uuid_used w \<Longrightarrow> emits w w'"
  by (simp add: emits_def fresh_ids_def)

lemma keeps_send_event [intro, simp]: "keeps emits (send_event em e t)"
  by (simp add: keeps_def emits_def fresh_ids_send) (simp add: send_event_run)

lemma keeps_send_status [intro, simp]:
  "keeps emits (send_status_message_event em e st msg target)"
  using keeps_send_event [of em "status_event e st msg target" "the (em_status_topic em)"]
  by (auto simp: keeps_def send_status_message_event_run klog.refl)

section \<open>The contract of the callbacks\<close>

text \<open>
  A service's callbacks write to the log through the emitter only.  Then so does the whole
  loop, whatever messages arrive and whatever the callbacks raise.
\<close>

locale kafka_callbacks =
  fixes handle :: "'a kworld_scheme handler"
    and cleanup :: "nat \<Rightarrow> ('a kworld_scheme, unit) py"
  assumes handle_emits: "keeps emits (handle cb e)"
    and cleanup_emits: "keeps emits (cleanup cb)"
begin

lemma safe_handle_msg_emits: "keeps emits (safe_handle_msg handle msg cb)"
proof -
  have "keeps emits (handle_event handle (msg_value msg) cb)"
    by (cases "msg_value msg")
      (simp_all add: handle_event_def klog.keeps_raise handle_emits)
  then show ?thesis
    unfolding safe_handle_msg_def by (intro klog.keeps_catch klog.keeps_return)
qed

lemma process_msg_emits: "keeps emits (process_msg handle topic msg)"
proof -
  have "keeps emits (py_for cbs (safe_handle_msg handle msg))" for cbs
    by (intro klog.keeps_for safe_handle_msg_emits)
  then show ?thesis
    by (auto simp: keeps_def process_msg_def klog.refl split: option.splits)
qed

lemma process_records_emits: "keeps emits (process_records handle records)"
  unfolding process_records_def
  by (intro klog.keeps_for) (auto intro!: klog.keeps_for process_msg_emits split: prod.splits)

lemma loop_polls_emits: "keeps emits (loop_polls handle polls)"
proof (induction polls)
  case Nil
  then show ?case by (simp add: keeps_def klog.refl)
next
  case (Cons records polls)
  then have "keeps emits (py_then (process_records handle records) (loop_polls handle polls))"
    by (intro klog.keeps_then process_records_emits)
  then show ?case by (simp add: keeps_def klog.refl)
qed

lemma run_loop_emits: "keeps emits (run_loop handle cleanup polls)"
proof -
  let ?fin = "\<lambda>w. py_then (py_for (remdups (concat (map snd (callbacks w)))) cleanup)
                   (py_return True) w"
  have "keeps emits (py_then (py_for cbs cleanup) (py_return True))" for cbs
    by (intro klog.keeps_then klog.keeps_for cleanup_emits klog.keeps_return)
  then have "keeps emits ?fin" by (simp add: keeps_def)
  then have body: "keeps emits (py_bind (loop_polls handle polls) (\<lambda>stopped.
      if stopped then ?fin else py_return False))" (is "keeps emits ?body")
    by (intro klog.keeps_bind loop_polls_emits klog.keeps_if klog.keeps_return)
  have "emits w (snd (?body (w\<lparr>running := True\<rparr>)))" for w
  proof (rule klog.trans)
    show "emits w (w\<lparr>running := True\<rparr>)" by (rule emits_same_log) simp_all
    show "emits (w\<lparr>running := True\<rparr>) (snd (?body (w\<lparr>running := True\<rparr>)))"
      using body by (simp add: keeps_def)
  qed
  then show ?thesis by (simp add: keeps_def run_loop_def klog.refl)
qed

end

section \<open>Properties\<close>

text \<open>A service at rest, an event and an emitter, for the concrete instances below.\<close>

definition idle_world :: "nat list dict \<Rightarrow> kworld" where
  "idle_world cbs = \<lparr>sent = [], uuid_src = show_nat, uuid_used = 0, clock = int, clock_reads = 0,
     running = False, callbacks = cbs\<rparr>"

definition sample_event :: "string \<Rightarrow> payload \<Rightarrow> benchmark_event" where
  "sample_event a p = BenchmarkEvent a None ''m'' ''c'' ''1'' ''u'' True 0 [] ''T'' p"

definition sample_emitter :: emitter where
  "sample_emitter = \<lparr>em_name = ''svc'', em_version = ''1'', em_pod_name = ''pod'',
     em_status_topic = Some ''BAI_APP_STATUS''\<rparr>"

lemma safe_handle_msg_run [py_simps]:
  "safe_handle_msg handle \<lparr>msg_value = Some e\<rparr> cb w = (Inr (), snd (handle cb e w))"
  by (auto simp: safe_handle_msg_def handle_event_def py_simps split: prod.splits sum.splits)

lemma safe_handle_msg_None [py_simps]:
  "safe_handle_msg handle \<lparr>msg_value = None\<rparr> cb w = (Inr (), w)"
  by (simp add: safe_handle_msg_def handle_event_def py_simps)

lemma py_for_total:
  "(\<And>x w. f x w = (Inr (), g x w)) \<Longrightarrow> py_for xs f w = (Inr (), fold g xs w)"
  by (induction xs arbitrary: w) (simp_all add: py_simps)

text \<open>
  Every message that leaves a service carries the event unchanged in its action, parent
  action, client and payload; it gets the next identifier of the UUID source, the topic as
  its type, and one more entry at the end of its itinerary, and the partition key is the
  client.  Nothing else of the log changes.
\<close>

theorem send_event_message:
  "\<exists>v. send_event em e topic w =
      (Inr (), w\<lparr>uuid_used := Suc (uuid_used w), clock_reads := Suc (Suc (clock_reads w)),
                sent := sent w @ [\<lparr>km_topic = topic, km_value = v, km_key = client_id e\<rparr>]\<rparr>)
    \<and> action_id v = action_id e \<and> parent_action_id v = parent_action_id e
    \<and> client_id v = client_id e \<and> payload v = payload e
    \<and> ev_type v = topic \<and> message_id v = uuid_src w (uuid_used w)
    \<and> butlast (visited v) = visited e \<and> svc (last (visited v)) = em_name em"
  by (intro exI [of _ "sent_event em e topic w"]) (simp add: send_event_run)

text \<open>
  A status message is registered against the target action when one is given and
  against the action of the handled event otherwise; it names the handled event as its
  source, starts a new itinerary with the sending service alone, and goes to the status
  topic.  Without a status topic nothing is sent.
\<close>

theorem send_status_message:
  "send_status_message_event em e st msg target w =
     (if truthy_str (em_status_topic em)
      then send_event em (status_event e st msg target) (the (em_status_topic em)) w
      else (Inr (), w))
   \<and> action_id (status_event e st msg target) =
       (case target of Some a \<Rightarrow> (if a = [] then action_id e else a) | None \<Rightarrow> action_id e)
   \<and> payload (status_event e st msg target) = StatusMessagePayload msg st (Some e)
   \<and> visited (status_event e st msg target) = []"
  by (auto simp: send_status_message_event_run status_event_def split: option.splits)

text \<open>
  The time stamp of a sent message is not the time of its last itinerary entry: the
  clock is read a second time, so it is the later reading.
\<close>

theorem tstamp_after_visit:
  assumes "mono (clock w)"
  shows "vs_tstamp (last (visited (sent_event em e topic w))) = clock w (clock_reads w)
       \<and> tstamp (sent_event em e topic w) = clock w (Suc (clock_reads w))
       \<and> vs_tstamp (last (visited (sent_event em e topic w))) \<le> tstamp (sent_event em e topic w)"
  using assms by (simp add: monoD)

theorem tstamp_after_visit_witness:
  "mono (clock (idle_world [])) \<and>
   (let v = sent_event sample_emitter (sample_event ''a'' (AnyPayload PNone)) ''T'' (idle_world [])
    in vs_tstamp (last (visited v)) = 0 \<and> tstamp v = 1)"
proof -
  have "mono (clock (idle_world []))" by (simp add: mono_def idle_world_def)
  with tstamp_after_visit [OF this, of sample_emitter "sample_event ''a'' (AnyPayload PNone)" "''T''"]
  show ?thesis by (simp add: Let_def idle_world_def)
qed

lemma process_msg_run:
  "process_msg handle topic msg w =
     (Inr (), case msg_value msg of
        None \<Rightarrow> w
      | Some e \<Rightarrow> fold (\<lambda>cb w. snd (handle cb e w))
                   (case dict_get (callbacks w) topic of None \<Rightarrow> [] | Some cbs \<Rightarrow> cbs) w)"
proof (cases "msg_value msg")
  case None
  then have msg: "msg = \<lparr>msg_value = None\<rparr>" by (cases msg) simp
  have "fold (\<lambda>_ w. w) cbs v = v" for cbs :: "nat list" and v :: "'a kworld_scheme"
    by (induction cbs) simp_all
  moreover have "py_for cbs (safe_handle_msg handle msg) w = (Inr (), fold (\<lambda>_ w. w) cbs w)" for cbs
    unfolding msg by (rule py_for_total) (rule safe_handle_msg_None)
  ultimately show ?thesis
    using None by (simp add: process_msg_def split: option.splits)
next
  case (Some e)
  then have msg: "msg = \<lparr>msg_value = Some e\<rparr>" by (cases msg) simp
  have "py_for cbs (safe_handle_msg handle msg) w
      = (Inr (), fold (\<lambda>cb w. snd (handle cb e w)) cbs w)" for cbs
    unfolding msg by (rule py_for_total) (rule safe_handle_msg_run)
  with Some show ?thesis by (simp add: process_msg_def split: option.splits)
qed

lemma process_records_run:
  "process_records handle records w =
     (Inr (), fold (\<lambda>(topic, msgs). fold (\<lambda>msg w. snd (process_msg handle topic msg w)) msgs)
                records w)"
proof -
  have msg: "process_msg handle topic msg v = (Inr (), snd (process_msg handle topic msg v))"
    for topic msg v
    by (simp add: process_msg_run)
  have "py_for msgs (process_msg handle topic) v
      = (Inr (), fold (\<lambda>msg w. snd (process_msg handle topic msg w)) msgs v)" for topic msgs v
    by (rule py_for_total) (rule msg)
  then show ?thesis
    unfolding process_records_def by (intro py_for_total) (auto split: prod.splits)
qed

text \<open>
  A message that arrives on a topic is handled by every callback registered for the
  topic, once and in the order of registration, each starting from what the one before left,
  even if earlier ones raise; the loop itself sees no exception.  A message that could not be
  deserialised reaches no callback and changes nothing.
\<close>

theorem process_msg_all_callbacks:
  "process_msg handle topic \<lparr>msg_value = Some e\<rparr> w =
     (Inr (), fold (\<lambda>cb w. snd (handle cb e w))
                (case dict_get (callbacks w) topic of None \<Rightarrow> [] | Some cbs \<Rightarrow> cbs) w)
   \<and> process_msg handle topic \<lparr>msg_value = None\<rparr> w = (Inr (), w)"
  by (simp add: process_msg_run)

lemma loop_polls_total: "\<exists>stopped w'. loop_polls handle polls w = (Inr stopped, w')"
proof (induction polls arbitrary: w)
  case Nil
  then show ?case by simp
next
  case (Cons records polls)
  show ?case
  proof (cases "running w")
    case True
    with Cons.IH show ?thesis by (simp add: py_then_run process_records_run)
  next
    case False
    then show ?thesis by auto
  qed
qed

lemma loop_polls_stopped: "loop_polls handle polls w = (Inr True, w') \<Longrightarrow> \<not> running w'"
proof (induction polls arbitrary: w)
  case Nil
  then show ?case by auto
next
  case (Cons records polls)
  then show ?case
    by (auto simp: py_then_run process_records_run split: if_splits)
qed



definition registered :: "'a kworld_scheme \<Rightarrow> string \<Rightarrow> nat list" where
  "registered w topic = (case dict_get (callbacks w) topic of None \<Rightarrow> [] | Some cbs \<Rightarrow> cbs)"

lemma add_callback_run:
  "\<not> running w \<Longrightarrow> add_callback cb topic w =
     (Inr (), w\<lparr>callbacks := dict_set (callbacks w) topic (registered w topic @ [cb])\<rparr>)"
  by (simp add: add_callback_def registered_def split: option.splits)

lemma registered_set [simp]:
  "registered (w\<lparr>callbacks := dict_set d topic cbs\<rparr>) t =
     (if t = topic then cbs else registered (w\<lparr>callbacks := d\<rparr>) t)"
  by (simp add: registered_def)

lemma registered_same [simp]: "registered (w\<lparr>callbacks := callbacks w\<rparr>) t = registered w t"
  by (simp add: registered_def)

lemma remove_callback_run:
  "\<not> running w \<Longrightarrow> topic \<noteq> [] \<Longrightarrow> dict_get (callbacks w) topic = Some cbs \<Longrightarrow> cb \<in> set cbs \<Longrightarrow>
   remove_callback cb (Some topic) w =
     (Inr (), w\<lparr>callbacks := dict_set (callbacks w) topic (remove1 cb cbs)\<rparr>)"
  by (simp add: remove_callback_def)

text \<open>
  While the loop runs, the callback tables cannot be changed: adding and removing raise
  and leave the service as it is.  While it does not run, a callback that is added to a
  topic becomes the last one to handle its messages and the other topics are untouched;
  removing it again takes the first registration of it back out.
\<close>

theorem add_remove_callback:
  assumes "topic \<noteq> []"
  shows "(running w \<longrightarrow>
      add_callback cb topic w = (Inl LoopAlreadyRunningException, w) \<and>
      remove_callback cb (Some topic) w = (Inl LoopAlreadyRunningException, w))
    \<and> (\<not> running w \<longrightarrow> (\<exists>w1 w2.
      add_callback cb topic w = (Inr (), w1) \<and> registered w1 topic = registered w topic @ [cb] \<and>
      (\<forall>t. t \<noteq> topic \<longrightarrow> registered w1 t = registered w t) \<and>
      remove_callback cb (Some topic) w1 = (Inr (), w2) \<and>
      registered w2 topic = remove1 cb (registered w topic @ [cb])))"
proof (intro conjI impI)
  assume "running w"
  then show "add_callback cb topic w = (Inl LoopAlreadyRunningException, w)"
    and "remove_callback cb (Some topic) w = (Inl LoopAlreadyRunningException, w)"
    by (simp_all add: add_callback_def remove_callback_def)
next
  assume idle: "\<not> running w"
  let ?cbs = "registered w topic @ [cb]"
  let ?w1 = "w\<lparr>callbacks := dict_set (callbacks w) topic ?cbs\<rparr>"
  let ?w2 = "?w1\<lparr>callbacks := dict_set (callbacks ?w1) topic (remove1 cb ?cbs)\<rparr>"
  have "remove_callback cb (Some topic) ?w1 = (Inr (), ?w2)"
    by (rule remove_callback_run) (use idle assms in simp_all)
  moreover have "add_callback cb topic w = (Inr (), ?w1)"
    by (rule add_callback_run [OF idle])
  moreover have "registered ?w1 topic = ?cbs" and "registered ?w2 topic = remove1 cb ?cbs"
    and "\<forall>t. t \<noteq> topic \<longrightarrow> registered ?w1 t = registered w t"
    by simp_all
  ultimately show "\<exists>w1 w2.
      add_callback cb topic w = (Inr (), w1) \<and> registered w1 topic = registered w topic @ [cb] \<and>
      (\<forall>t. t \<noteq> topic \<longrightarrow> registered w1 t = registered w t) \<and>
      remove_callback cb (Some topic) w1 = (Inr (), w2) \<and>
      registered w2 topic = remove1 cb (registered w topic @ [cb])"
    by blast
qed

theorem add_remove_callback_witness:
  "\<exists>w1. add_callback 7 ''T'' (idle_world [(''T'', [1])]) = (Inr (), w1) \<and> registered w1 ''T'' = [1, 7]"
  using add_remove_callback [of "''T''" "idle_world [(''T'', [1])]" 7]
  by (auto simp: idle_world_def registered_def)

end
