(* ===== verification/Labels.thy ===== *)
theory Labels
  imports Py_Strings
begin

text \<open>
  The labels that tie Kubernetes objects to an action, \<open>kafka-utils/src/bai_k8s_utils/service_labels.py\<close>,
  and what an equality selector built from them matches.  \<open>selects\<close> is Kubernetes' documented
  meaning of such a selector: every requirement \<open>key=value\<close> holds of the labels.
\<close>

definition ACTION_ID_LABEL :: string where "ACTION_ID_LABEL = ''action-id''"

definition PARENT_ACTION_ID_LABEL :: string where "PARENT_ACTION_ID_LABEL = ''parent-action-id''"

definition CLIENT_ID_LABEL :: string where "CLIENT_ID_LABEL = ''client-id''"

definition CREATED_BY_LABEL :: string where "CREATED_BY_LABEL = ''created-by''"

lemmas label_names = ACTION_ID_LABEL_def PARENT_ACTION_ID_LABEL_def CLIENT_ID_LABEL_def CREATED_BY_LABEL_def

definition get_labels :: "string \<Rightarrow> string \<Rightarrow> string \<Rightarrow> string dict" where
  "get_labels service_name client action =
     [(ACTION_ID_LABEL, action), (CLIENT_ID_LABEL, client), (CREATED_BY_LABEL, service_name)]"

definition get_labels_as_parent :: "string \<Rightarrow> string \<Rightarrow> string \<Rightarrow> string dict" where
  "get_labels_as_parent service_name client action =
     [(PARENT_ACTION_ID_LABEL, action), (CLIENT_ID_LABEL, client), (CREATED_BY_LABEL, service_name)]"

definition label :: "string \<Rightarrow> string \<Rightarrow> string" where
  "label key v = key @ ''='' @ v"

definition build_label_selector :: "string \<Rightarrow> string \<Rightarrow> string dict \<Rightarrow> string" where
  "build_label_selector service_name client additional_labels =
     str_join '','' ([label CREATED_BY_LABEL service_name, label CLIENT_ID_LABEL client] @
       map (\<lambda>(k, v). label k v) additional_labels)"

definition get_label_selector :: "string \<Rightarrow> string \<Rightarrow> string option \<Rightarrow> string" where
  "get_label_selector service_name client action =
     build_label_selector service_name client
       (if truthy_str action then [(ACTION_ID_LABEL, the action)] else [])"

definition get_label_selector_as_parent :: "string \<Rightarrow> string \<Rightarrow> string \<Rightarrow> string" where
  "get_label_selector_as_parent service_name client action =
     build_label_selector service_name client [(PARENT_ACTION_ID_LABEL, action)]"

section \<open>What a selector matches\<close>

definition requirement_holds :: "string dict \<Rightarrow> string \<Rightarrow> bool" where
  "requirement_holds labels r =
     (case split_on (CHR ''='') r of
        k # vs \<Rightarrow> dict_get labels k = Some (str_join ''='' vs)
      | [] \<Rightarrow> False)"

definition selects :: "string \<Rightarrow> string dict \<Rightarrow> bool" where
  "selects sel labels = list_all (requirement_holds labels) (split_on (CHR '','') sel)"

text \<open>Kubernetes allows neither a comma nor an equals sign in a key or a value.\<close>

definition plain_label :: "string \<Rightarrow> bool" where
  "plain_label v \<longleftrightarrow> CHR '','' \<notin> set v \<and> CHR ''='' \<notin> set v"

lemma plain_label_names [simp]:
  "plain_label ACTION_ID_LABEL" "plain_label PARENT_ACTION_ID_LABEL"
  "plain_label CLIENT_ID_LABEL" "plain_label CREATED_BY_LABEL"
  by (simp_all add: plain_label_def label_names)

lemma requirement_holds_label [simp]:
  assumes "plain_label k" "plain_label v"
  shows "requirement_holds labels (label k v) \<longleftrightarrow> dict_get labels k = Some v"
proof -
  have "split_on (CHR ''='') (str_join ''='' [k, v]) = [k, v]"
    by (rule split_join) (use assms in \<open>auto simp: plain_label_def\<close>)
  then show ?thesis by (simp add: requirement_holds_def label_def)
qed

lemma selects_join:
  assumes "rs \<noteq> []" "\<forall>r \<in> set rs. CHR '','' \<notin> set r"
  shows "selects (str_join '','' rs) labels \<longleftrightarrow> list_all (requirement_holds labels) rs"
  using split_join [of rs "CHR '',''"] assms by (simp add: selects_def)

lemma label_no_comma: "plain_label k \<Longrightarrow> plain_label v \<Longrightarrow> CHR '','' \<notin> set (label k v)"
  by (simp add: plain_label_def label_def)

lemma selects_build:
  assumes "plain_label s" "plain_label c" "\<forall>(k, v) \<in> set extra. plain_label k \<and> plain_label v"
  shows "selects (build_label_selector s c extra) labels \<longleftrightarrow>
    dict_get labels CREATED_BY_LABEL = Some s \<and> dict_get labels CLIENT_ID_LABEL = Some c \<and>
    (\<forall>(k, v) \<in> set extra. dict_get labels k = Some v)"
proof -
  have "selects (build_label_selector s c extra) labels \<longleftrightarrow>
      list_all (requirement_holds labels) ([label CREATED_BY_LABEL s, label CLIENT_ID_LABEL c] @
        map (\<lambda>(k, v). label k v) extra)"
    unfolding build_label_selector_def
    by (rule selects_join) (use assms label_no_comma in fastforce)+
  also have "\<dots> \<longleftrightarrow> dict_get labels CREATED_BY_LABEL = Some s \<and> dict_get labels CLIENT_ID_LABEL = Some c \<and>
      (\<forall>(k, v) \<in> set extra. dict_get labels k = Some v)"
    using assms by (fastforce simp: list_all_iff)
  finally show ?thesis .
qed

lemma dict_get_labels [simp]:
  "dict_get (get_labels s c a) ACTION_ID_LABEL = Some a" "dict_get (get_labels s c a) CLIENT_ID_LABEL = Some c"
  "dict_get (get_labels s c a) CREATED_BY_LABEL = Some s" "dict_get (get_labels s c a) PARENT_ACTION_ID_LABEL = None"
  by (simp_all add: get_labels_def label_names)

lemma dict_get_labels_parent [simp]:
  "dict_get (get_labels_as_parent s c a) PARENT_ACTION_ID_LABEL = Some a"
  "dict_get (get_labels_as_parent s c a) CLIENT_ID_LABEL = Some c"
  "dict_get (get_labels_as_parent s c a) CREATED_BY_LABEL = Some s"
  "dict_get (get_labels_as_parent s c a) ACTION_ID_LABEL = None"
  by (simp_all add: get_labels_as_parent_def label_names)

lemma selects_action:
  assumes "plain_label s" "plain_label c" "plain_label a" "a \<noteq> []"
  shows "selects (get_label_selector s c (Some a)) labels \<longleftrightarrow>
    dict_get labels CREATED_BY_LABEL = Some s \<and> dict_get labels CLIENT_ID_LABEL = Some c \<and>
    dict_get labels ACTION_ID_LABEL = Some a"
  using selects_build [of s c "[(ACTION_ID_LABEL, a)]"] assms by (simp add: get_label_selector_def truthy_str_def)

text \<open>
  The selector of an action matches the objects labelled for this service, client and action
  and no others; in particular never those labelled with the action as their parent.
\<close>

theorem selector_matches_labels:
  assumes "plain_label s" "plain_label c" "plain_label a" "a \<noteq> []"
  shows "(selects (get_label_selector s c (Some a)) (get_labels s' c' a') \<longleftrightarrow> s' = s \<and> c' = c \<and> a' = a) \<and>
    \<not> selects (get_label_selector s c (Some a)) (get_labels_as_parent s' c' a') \<and>
    (selects (get_label_selector s c None) (get_labels s' c' a') \<longleftrightarrow> s' = s \<and> c' = c) \<and>
    (selects (get_label_selector_as_parent s c a) (get_labels_as_parent s' c' a') \<longleftrightarrow> s' = s \<and> c' = c \<and> a' = a) \<and>
    \<not> selects (get_label_selector_as_parent s c a) (get_labels s' c' a')"
  using assms selects_build [of s c "[]"] selects_build [of s c "[(PARENT_ACTION_ID_LABEL, a)]"]
  by (auto simp: selects_action get_label_selector_as_parent_def) (auto simp: get_label_selector_def)

theorem selector_matches_labels_witness:
  "selects (get_label_selector ''executor'' ''c1'' (Some ''a1'')) (get_labels ''executor'' ''c1'' ''a1'') \<and>
   \<not> selects (get_label_selector ''executor'' ''c1'' (Some ''a1'')) (get_labels ''executor'' ''c1'' ''a2'')"
  using selector_matches_labels [of "''executor''" "''c1''" "''a1''" "''executor''" "''c1''" "''a1''"]
    selector_matches_labels [of "''executor''" "''c1''" "''a1''" "''executor''" "''c1''" "''a2''"]
  by (simp add: plain_label_def)

end
