(* ===== verification/Url.thy ===== *)
theory Url
  imports Py_Strings
begin

text \<open>
  \<open>urllib.parse.urlparse\<close> of Python 3.7, as far as the services use it: scheme, network
  location and path.  \<open>urlparse_parts\<close> follows \<open>urlsplit\<close> (the scheme up to the first colon
  unless what follows it is a port number, the network location after a double slash, then
  fragment and query cut off) and the parameter cut of \<open>urlparse\<close>.
\<close>

record url_parts =
  scheme :: string
  netloc :: string
  url_path :: string

definition scheme_char :: "char \<Rightarrow> bool" where
  "scheme_char c = (is_alnum c \<or> c = CHR ''+'' \<or> c = CHR ''-'' \<or> c = CHR ''.'')"

text \<open>The part before the first of the given characters, and the rest from it on.\<close>

definition cut_at :: "char list \<Rightarrow> string \<Rightarrow> string \<times> string" where
  "cut_at cs s = (takeWhile (\<lambda>c. c \<notin> set cs) s, dropWhile (\<lambda>c. c \<notin> set cs) s)"

definition split_scheme :: "string \<Rightarrow> string \<times> string" where
  "split_scheme url =
     (let (pre, post) = cut_at '':'' url in
      if pre = [] \<or> post = [] then ([], url)
      else if pre = ''http'' then (''http'', tl post)
      else if \<not> list_all scheme_char pre then ([], url)
      else if tl post \<noteq> [] \<and> list_all is_digit (tl post) then ([], url)
      else (str_lower pre, tl post))"

definition split_netloc :: "string \<Rightarrow> (string \<times> string) res" where
  "split_netloc url =
     (if take 2 url = ''//'' then
        (let (n, p) = cut_at ''/?#'' (drop 2 url) in
         if (CHR ''['' \<in> set n) = (CHR '']'' \<in> set n) then Inr (n, p)
         else Inl (ValueError ''Invalid IPv6 URL''))
      else Inr ([], url))"

definition uses_params :: "string list" where
  "uses_params = ['''', ''ftp'', ''hdl'', ''prospero'', ''http'', ''https'', ''shttp'', ''rtsp'',
     ''rtspu'', ''sip'', ''sips'', ''mms'', ''sftp'', ''tel'']"

text \<open>\<open>_splitparams\<close>: the parameters are what follows the first semicolon of the last segment.\<close>

definition strip_params :: "string \<Rightarrow> string" where
  "strip_params p =
     (case str_rindex p (CHR ''/'') of
        Inr i \<Rightarrow> take i p @ fst (cut_at '';'' (drop i p))
      | Inl _ \<Rightarrow> fst (cut_at '';'' p))"

definition urlparse :: "string \<Rightarrow> url_parts res" where
  "urlparse url =
     (let (sch, rest) = split_scheme url in
      res_bind (split_netloc rest) (\<lambda>(net, rest).
        let path = fst (cut_at ''?'' (fst (cut_at ''#'' rest)));
            path = (if sch \<in> set uses_params then strip_params path else path)
        in Inr \<lparr>scheme = sch, netloc = net, url_path = path\<rparr>))"

text \<open>\<open>urlparse(None)\<close> parses as the empty address.\<close>

definition urlparse_opt :: "string option \<Rightarrow> url_parts res" where
  "urlparse_opt u = (case u of None \<Rightarrow> urlparse [] | Some s \<Rightarrow> urlparse s)"

lemma cut_at_append:
  assumes "\<forall>c \<in> set s. c \<notin> set cs" and "d \<in> set cs"
  shows "cut_at cs (s @ d # t) = (s, d # t)"
  using assms by (induction s) (auto simp: cut_at_def)

lemma cut_at_none: "\<forall>c \<in> set s. c \<notin> set cs \<Longrightarrow> cut_at cs s = (s, [])"
  by (induction s) (auto simp: cut_at_def)

text \<open>
  An address \<open>s3://bucket/key\<close> with a plain bucket name and a key free of \<open>?\<close> and \<open>#\<close>
  parses back into its parts.
\<close>

definition plain_bucket :: "string \<Rightarrow> bool" where
  "plain_bucket b = (\<forall>c \<in> set b. c \<notin> set ''/?#[]'')"

definition plain_key :: "string \<Rightarrow> bool" where
  "plain_key k = (\<forall>c \<in> set k. c \<notin> set ''?#'')"

lemma split_scheme_s3: "split_scheme (''s3://'' @ r) = (''s3'', ''//'' @ r)"
  by (simp add: split_scheme_def cut_at_def scheme_char_def is_alnum_def is_digit_def is_lower_def
      is_upper_def str_lower_def lower_char_def)

lemma split_netloc_slashes:
  assumes "plain_bucket b"
  shows "split_netloc (''//'' @ b @ ''/'' @ k) = Inr (b, ''/'' @ k)"
proof -
  have b: "\<forall>c \<in> set b. c \<notin> set ''/?#''" and nb: "CHR ''['' \<notin> set b" "CHR '']'' \<notin> set b"
    using assms by (auto simp: plain_bucket_def)
  have "cut_at ''/?#'' (b @ CHR ''/'' # k) = (b, CHR ''/'' # k)"
    by (rule cut_at_append [OF b]) simp
  with nb show ?thesis by (simp add: split_netloc_def)
qed

lemma cut_query_fragment:
  assumes "plain_key k"
  shows "fst (cut_at ''?'' (fst (cut_at ''#'' k))) = k"
proof -
  have "\<forall>c \<in> set k. c \<notin> set ''#''" and "\<forall>c \<in> set k. c \<notin> set ''?''"
    using assms by (simp_all add: plain_key_def)
  then show ?thesis by (simp only: cut_at_none fst_conv)
qed

lemma urlparse_s3:
  assumes "plain_bucket b" and "plain_key k"
  shows "urlparse (''s3://'' @ b @ ''/'' @ k)
     = Inr \<lparr>scheme = ''s3'', netloc = b, url_path = ''/'' @ k\<rparr>"
proof -
  have pk: "plain_key (''/'' @ k)" using assms(2) by (simp add: plain_key_def)
  have s3: "''s3'' \<notin> set uses_params" by (simp add: uses_params_def)
  have "urlparse (''s3://'' @ b @ ''/'' @ k)
      = res_bind (split_netloc (''//'' @ b @ ''/'' @ k)) (\<lambda>(net, rest).
          Inr \<lparr>scheme = ''s3'', netloc = net,
               url_path = fst (cut_at ''?'' (fst (cut_at ''#'' rest)))\<rparr>)"
    by (simp only: urlparse_def split_scheme_s3 Let_def prod.case s3 if_False)
  also have "\<dots> = Inr \<lparr>scheme = ''s3'', netloc = b, url_path = ''/'' @ k\<rparr>"
    by (simp only: split_netloc_slashes [OF assms(1)] res_bind_simps prod.case
        cut_query_fragment [OF pk])
  finally show ?thesis .
qed

end
