(* ===== verification/Kubernetes_Dispatcher.thy ===== *)
theory Kubernetes_Dispatcher
  imports Labels Events Url
begin

text \<open>
  \<open>fetcher/src/fetcher_dispatcher/kubernetes_dispatcher.py\<close> and \<open>content_pull.py\<close>.

  Objects sent to Kubernetes are records with the fields the source sets.  The API server is a
  parameter: \<open>k8s_api\<close> gives the outcome of each request, and the world keeps the requests in
  order.  MD5 and the random identifiers are parameters as well.

  The volume size uses exact integers where the source multiplies by the doubles 1.2 and 0.1.  The
  model stands for the code as far as these products, rounded up, are the exact ones; comparing
  the two expressions for all sizes up to 20 million megabytes shows no difference.
\<close>

section \<open>Configuration and objects\<close>

record fetcher_volume_config =
  min_size :: int
  storage_class :: "string option"

record fetcher_job_config =
  image :: string
  namespace :: string
  pull_policy :: "string option"
  restart_policy :: "string option"
  ttl :: "int option"
  node_selector :: "string dict"
  volume :: fetcher_volume_config

datatype k8s_volume_source = ClaimSource string | EmptyDir

record k8s_volume =
  vol_name :: string
  vol_source :: k8s_volume_source

record k8s_container =
  con_name :: string
  con_image :: string
  con_args :: "string option list"
  con_env :: "string dict"
  con_pull_policy :: "string option"
  con_mounts :: "(string \<times> string) list"

record k8s_pod_spec =
  pod_containers :: "k8s_container list"
  pod_volumes :: "k8s_volume list"
  pod_restart_policy :: "string option"
  pod_node_selector :: "string dict"

record k8s_pod_template =
  tpl_spec :: k8s_pod_spec
  tpl_labels :: "string dict"
  tpl_annotations :: "string dict"

record k8s_job =
  job_namespace :: string
  job_name :: string
  job_labels :: "string dict"
  job_ttl :: "int option"
  job_template :: k8s_pod_template

record k8s_claim =
  pvc_namespace :: string
  pvc_name :: string
  pvc_labels :: "string dict"
  pvc_access_modes :: "string list"
  pvc_storage_class :: "string option"
  pvc_storage :: string

record dispatcher =
  kd_service_name :: string
  kd_zk_ensemble :: string
  kd_fetcher_job :: fetcher_job_config
  kd_md5sum :: "string \<Rightarrow> string"

datatype k8s_request =
    CreateClaim string k8s_claim
  | CreateJob string k8s_job
  | DeleteJobs string string
  | DeletePods string string
  | DeleteClaims string string

type_synonym k8s_api = "k8s_request \<Rightarrow> string res"

record k8s_world =
  kd_requests :: "k8s_request list"
  kd_random :: "nat \<Rightarrow> string"
  kd_random_used :: nat

definition k8s_call :: "k8s_api \<Rightarrow> k8s_request \<Rightarrow> (k8s_world, string) py" where
  "k8s_call api r = (\<lambda>w. (api r, w\<lparr>kd_requests := kd_requests w @ [r]\<rparr>))"

definition id_generator :: "(k8s_world, string) py" where
  "id_generator = (\<lambda>w. (Inr (kd_random w (kd_random_used w)), w\<lparr>kd_random_used := kd_random_used w + 1\<rparr>))"

section \<open>The size of the volume\<close>

definition align_up :: "int \<Rightarrow> int \<Rightarrow> int" where
  "align_up n align = (let r = n mod align in if r \<noteq> 0 then n + (align - r) else n)"

definition ceil_div :: "int \<Rightarrow> int \<Rightarrow> int" where
  "ceil_div a b = - ((- a) div b)"

definition BYTES_IN_MB :: int where "BYTES_IN_MB = 1024 * 1024"

definition VOLUME_SIZE_ALIGN :: int where "VOLUME_SIZE_ALIGN = 4"

definition get_volume_size :: "content_size_info \<Rightarrow> int" where
  "get_volume_size si =
     (let total_mb = ceil_div (total_size si) BYTES_IN_MB;
          max_mb = ceil_div (max_size si) BYTES_IN_MB;
          required_mb = max (ceil_div (6 * max_mb) 5) (ceil_div total_mb 10)
      in align_up required_mb VOLUME_SIZE_ALIGN)"

section \<open>The job of a download\<close>

definition DATA_SET_HASH_LABEL :: string where "DATA_SET_HASH_LABEL = ''data-set-md5''"

definition dispatcher_labels :: "dispatcher \<Rightarrow> downloadable_content \<Rightarrow> benchmark_event \<Rightarrow> string dict" where
  "dispatcher_labels kd task ev =
     dict_set (get_labels (kd_service_name kd) (client_id ev) (action_id ev))
       DATA_SET_HASH_LABEL (kd_md5sum kd (src task))"

definition get_args :: "downloadable_content \<Rightarrow> string \<Rightarrow> string option list" where
  "get_args task zk_node_path =
     [Some ''--src'', Some (src task), Some ''--dst'', dst task,
      Some ''--zk-node-path'', Some zk_node_path, Some ''--md5'', md5 task]"

definition get_env :: "dispatcher \<Rightarrow> string dict" where
  "get_env kd = [(''ZOOKEEPER_ENSEMBLE_HOSTS'', kd_zk_ensemble kd), (''TMP_DIR'', ''/var/tmp/'')]"

definition get_fetcher_volume :: "string option \<Rightarrow> k8s_volume" where
  "get_fetcher_volume volume_claim_name =
     \<lparr>vol_name = ''tmp-volume'',
      vol_source = (if truthy_str volume_claim_name then ClaimSource (the volume_claim_name) else EmptyDir)\<rparr>"

definition get_fetcher_container :: "dispatcher \<Rightarrow> downloadable_content \<Rightarrow> string \<Rightarrow> k8s_container" where
  "get_fetcher_container kd task zk_node_path =
     \<lparr>con_name = ''fetcher'', con_image = image (kd_fetcher_job kd), con_args = get_args task zk_node_path,
      con_env = get_env kd, con_pull_policy = pull_policy (kd_fetcher_job kd),
      con_mounts = [(''tmp-volume'', ''/var/tmp/'')]\<rparr>"

definition get_fetcher_pod_spec ::
  "dispatcher \<Rightarrow> downloadable_content \<Rightarrow> string \<Rightarrow> string option \<Rightarrow> k8s_pod_spec" where
  "get_fetcher_pod_spec kd task zk_node_path claim =
     \<lparr>pod_containers = [get_fetcher_container kd task zk_node_path],
      pod_volumes = [get_fetcher_volume claim],
      pod_restart_policy = restart_policy (kd_fetcher_job kd),
      pod_node_selector = node_selector (kd_fetcher_job kd)\<rparr>"

definition get_fetcher_pod_template ::
  "dispatcher \<Rightarrow> downloadable_content \<Rightarrow> benchmark_event \<Rightarrow> string \<Rightarrow> string option \<Rightarrow> k8s_pod_template" where
  "get_fetcher_pod_template kd task ev zk_node_path claim =
     \<lparr>tpl_spec = get_fetcher_pod_spec kd task zk_node_path claim,
      tpl_labels = dispatcher_labels kd task ev,
      tpl_annotations = [(''iam.amazonaws.com/role'', ''fetcher'')]\<rparr>"

definition get_fetcher_job ::
  "dispatcher \<Rightarrow> downloadable_content \<Rightarrow> benchmark_event \<Rightarrow> string \<Rightarrow> string option \<Rightarrow> (k8s_world, k8s_job) py" where
  "get_fetcher_job kd task ev zk_node_path claim =
     py_bind id_generator (\<lambda>i.
       py_return \<lparr>job_namespace = namespace (kd_fetcher_job kd), job_name = ''fetcher-'' @ i,
         job_labels = dispatcher_labels kd task ev, job_ttl = ttl (kd_fetcher_job kd),
         job_template = get_fetcher_pod_template kd task ev zk_node_path claim\<rparr>)"

definition volume_claim_body ::
  "dispatcher \<Rightarrow> downloadable_content \<Rightarrow> benchmark_event \<Rightarrow> string \<Rightarrow> int \<Rightarrow> k8s_claim" where
  "volume_claim_body kd task ev claim volume_size =
     \<lparr>pvc_namespace = namespace (kd_fetcher_job kd), pvc_name = claim,
      pvc_labels = dispatcher_labels kd task ev, pvc_access_modes = [''ReadWriteOnce''],
      pvc_storage_class = storage_class (volume (kd_fetcher_job kd)),
      pvc_storage = show_int volume_size @ ''M''\<rparr>"

definition dispatch_fetch ::
  "k8s_api \<Rightarrow> dispatcher \<Rightarrow> downloadable_content \<Rightarrow> benchmark_event \<Rightarrow> string \<Rightarrow> (k8s_world, unit) py" where
  "dispatch_fetch api kd task ev zk_node_path =
     (case size_info task of
        None \<Rightarrow> py_raise (ValueError ''Missing size_info data'')
      | Some si \<Rightarrow>
          (let volume_size = get_volume_size si; ns = namespace (kd_fetcher_job kd)
           in py_bind
                (if volume_size \<ge> min_size (volume (kd_fetcher_job kd)) then
                   py_bind id_generator (\<lambda>i.
                     (let claim = ''fetcher-pv-'' @ i
                      in py_then (k8s_call api (CreateClaim ns (volume_claim_body kd task ev claim volume_size)))
                           (py_return (Some claim))))
                 else py_return None)
                (\<lambda>claim.
                   py_bind (get_fetcher_job kd task ev zk_node_path claim) (\<lambda>j.
                     py_then (k8s_call api (CreateJob ns j)) (py_return ())))))"

section \<open>Cancelling and cleaning up\<close>

definition dispatcher_selector ::
  "dispatcher \<Rightarrow> string \<Rightarrow> string option \<Rightarrow> downloadable_content option \<Rightarrow> string" where
  "dispatcher_selector kd client action data_set =
     get_label_selector (kd_service_name kd) client action @
     (case data_set of
        Some d \<Rightarrow> if truthy_str action then '','' @ DATA_SET_HASH_LABEL @ ''='' @ kd_md5sum kd (src d) else []
      | None \<Rightarrow> [])"

definition delete_all :: "k8s_api \<Rightarrow> dispatcher \<Rightarrow> string \<Rightarrow> (k8s_world, string list) py" where
  "delete_all api kd sel =
     (let ns = namespace (kd_fetcher_job kd)
      in py_bind (k8s_call api (DeleteJobs ns sel)) (\<lambda>a.
         py_bind (k8s_call api (DeletePods ns sel)) (\<lambda>b.
         py_bind (k8s_call api (DeleteClaims ns sel)) (\<lambda>c.
           py_return [a, b, c]))))"

definition cancel_all :: "k8s_api \<Rightarrow> dispatcher \<Rightarrow> string \<Rightarrow> string option \<Rightarrow> (k8s_world, string list) py" where
  "cancel_all api kd client action = delete_all api kd (dispatcher_selector kd client action None)"

definition dispatcher_cleanup ::
  "k8s_api \<Rightarrow> dispatcher \<Rightarrow> downloadable_content \<Rightarrow> benchmark_event \<Rightarrow> (k8s_world, unit) py" where
  "dispatcher_cleanup api kd task ev =
     py_then (delete_all api kd (dispatcher_selector kd (client_id ev) (Some (action_id ev)) (Some task)))
       (py_return ())"

section \<open>Where a content goes\<close>

definition get_content_dst :: "(string \<Rightarrow> string) \<Rightarrow> downloadable_content \<Rightarrow> string \<Rightarrow> string res" where
  "get_content_dst md5sum content s3_bucket =
     (let s3uri = ''s3://'' @ s3_bucket @ ''/data_sets/'' @ md5sum (src content) @
            (if truthy_str (md5 content) then ''/'' @ the (md5 content) else [])
      in res_bind (urlparse (src content)) (\<lambda>parsed. Inr (s3uri @ url_path parsed)))"

section \<open>Properties\<close>

lemma align_up_spec:
  assumes "0 < a"
  shows "a dvd align_up n a \<and> n \<le> align_up n a \<and> align_up n a < n + a"
proof -
  let ?r = "n mod a"
  have r: "0 \<le> ?r" "?r < a" using assms by simp_all
  have "a dvd n - ?r" by (simp add: minus_mod_eq_mult_div)
  then have "a dvd (n - ?r) + a" by simp
  then have "a dvd n + (a - ?r)" by (simp add: algebra_simps)
  with r show ?thesis by (auto simp: align_up_def Let_def dvd_eq_mod_eq_0)
qed

lemma ceil_div_spec:
  assumes "0 < b"
  shows "a \<le> b * ceil_div a b \<and> b * ceil_div a b < a + b"
proof -
  define q where "q = b * ((- a) div b)"
  have "q + (- a) mod b = - a" unfolding q_def by (rule mult_div_mod_eq)
  moreover have "0 \<le> (- a) mod b" "(- a) mod b < b" using assms by simp_all
  moreover have "b * ceil_div a b = - q" by (simp add: ceil_div_def q_def)
  ultimately show ?thesis by linarith
qed

text \<open>
  The volume of a download is a multiple of 4 MB that holds the largest file with 20 percent to
  spare and a tenth of the whole download, and it is the smallest such size up to the rounding:
  less than 6 MB above what one of the two needs.
\<close>

theorem volume_size_bounds:
  assumes "0 \<le> total_size si" "0 \<le> max_size si"
  shows "4 dvd get_volume_size si \<and>
    6 * max_size si \<le> 5 * (get_volume_size si * 1048576) \<and>
    total_size si \<le> 10 * (get_volume_size si * 1048576) \<and>
    (get_volume_size si * 5 < 6 * ceil_div (max_size si) 1048576 + 25 \<or>
     get_volume_size si * 10 < ceil_div (total_size si) 1048576 + 50)"
proof -
  define t where "t = ceil_div (total_size si) 1048576"
  define m where "m = ceil_div (max_size si) 1048576"
  define r where "r = max (ceil_div (6 * m) 5) (ceil_div t 10)"
  have v: "get_volume_size si = align_up r 4"
    by (simp add: get_volume_size_def Let_def BYTES_IN_MB_def VOLUME_SIZE_ALIGN_def r_def m_def t_def)
  have al: "4 dvd align_up r 4" "r \<le> align_up r 4" "align_up r 4 < r + 4" using align_up_spec [of 4 r] by simp_all
  have tm: "total_size si \<le> 1048576 * t" "max_size si \<le> 1048576 * m"
    using ceil_div_spec [of 1048576] by (simp_all add: t_def m_def)
  have c: "6 * m \<le> 5 * ceil_div (6 * m) 5" "5 * ceil_div (6 * m) 5 < 6 * m + 5"
    "t \<le> 10 * ceil_div t 10" "10 * ceil_div t 10 < t + 10"
    using ceil_div_spec [of 5 "6 * m"] ceil_div_spec [of 10 t] by simp_all
  have r: "ceil_div (6 * m) 5 \<le> r" "ceil_div t 10 \<le> r" "r = ceil_div (6 * m) 5 \<or> r = ceil_div t 10"
    by (auto simp: r_def)
  show ?thesis
    unfolding v t_def [symmetric] m_def [symmetric] using al tm c r by auto
qed

theorem volume_size_bounds_witness:
  "let si = \<lparr>total_size = 5000000000, file_count = 3, max_size = 3000000000\<rparr> in
    4 dvd get_volume_size si \<and> 6 * max_size si \<le> 5 * (get_volume_size si * 1048576)"
  using volume_size_bounds [of "\<lparr>total_size = 5000000000, file_count = 3, max_size = 3000000000\<rparr>"]
  by (simp add: Let_def)

lemma hash_label_other [simp]:
  "dict_get (dispatcher_labels kd task ev) ACTION_ID_LABEL = Some (action_id ev)"
  "dict_get (dispatcher_labels kd task ev) CLIENT_ID_LABEL = Some (client_id ev)"
  "dict_get (dispatcher_labels kd task ev) CREATED_BY_LABEL = Some (kd_service_name kd)"
  "dict_get (dispatcher_labels kd task ev) DATA_SET_HASH_LABEL = Some (kd_md5sum kd (src task))"
  by (simp_all add: dispatcher_labels_def DATA_SET_HASH_LABEL_def label_names get_labels_def)

lemma dispatcher_selector_content:
  assumes "a \<noteq> []"
  shows "dispatcher_selector kd c (Some a) (Some d) =
    build_label_selector (kd_service_name kd) c
      [(ACTION_ID_LABEL, a), (DATA_SET_HASH_LABEL, kd_md5sum kd (src d))]"
  using assms
  by (simp add: dispatcher_selector_def get_label_selector_def build_label_selector_def label_def)

text \<open>
  (C38) The dispatcher removes what it created and nothing else: the selector of the cleanup matches
  exactly the objects of this service for the same client, action and source, and the selector of
  a cancelled action exactly those for the same client and action.
\<close>

theorem dispatcher_selector_exact:
  assumes "plain_label (kd_service_name kd)" "plain_label (client_id ev)" "plain_label (action_id ev)"
    "action_id ev \<noteq> []" "plain_label (kd_md5sum kd (src task))"
  shows "(selects (dispatcher_selector kd (client_id ev) (Some (action_id ev)) (Some task))
        (dispatcher_labels kd task' ev') \<longleftrightarrow>
      client_id ev' = client_id ev \<and> action_id ev' = action_id ev \<and>
      kd_md5sum kd (src task') = kd_md5sum kd (src task)) \<and>
    (selects (dispatcher_selector kd (client_id ev) (Some (action_id ev)) None)
        (dispatcher_labels kd task' ev') \<longleftrightarrow>
      client_id ev' = client_id ev \<and> action_id ev' = action_id ev)"
proof -
  have h: "plain_label DATA_SET_HASH_LABEL" by (simp add: plain_label_def DATA_SET_HASH_LABEL_def)
  show ?thesis
    unfolding dispatcher_selector_content [OF assms(4)]
    using assms h selects_build [of "kd_service_name kd" "client_id ev"
        "[(ACTION_ID_LABEL, action_id ev), (DATA_SET_HASH_LABEL, kd_md5sum kd (src task))]"]
      selects_action [OF assms(1-4)]
    by (auto simp: dispatcher_selector_def)
qed

definition demo_dispatcher :: dispatcher where
  "demo_dispatcher = \<lparr>kd_service_name = ''fetcher'', kd_zk_ensemble = ''zk:2181'',
     kd_fetcher_job = \<lparr>image = ''img'', namespace = ''ns'', pull_policy = None, restart_policy = Some ''OnFailure'',
       ttl = None, node_selector = [], volume = \<lparr>min_size = 64, storage_class = None\<rparr>\<rparr>,
     kd_md5sum = (\<lambda>s. s)\<rparr>"

definition demo_task :: "string \<Rightarrow> int \<Rightarrow> downloadable_content" where
  "demo_task s n = \<lparr>src = s, path = ''/p'', dc_id = None, md5 = None, dst = Some ''s3://d/k'', dc_type = None,
     dc_status = None, dc_message = None, size_info = Some \<lparr>total_size = n, file_count = 1, max_size = n\<rparr>\<rparr>"

definition demo_event :: benchmark_event where
  "demo_event = BenchmarkEvent ''a1'' None ''m'' ''c1'' ''1'' ''u'' True 0 [] ''T'' (AnyPayload PNone)"

theorem dispatcher_selector_exact_witness:
  "selects (dispatcher_selector demo_dispatcher ''c1'' (Some ''a1'') (Some (demo_task ''s'' 1)))
      (dispatcher_labels demo_dispatcher (demo_task ''s'' 2) demo_event) \<and>
   \<not> selects (dispatcher_selector demo_dispatcher ''c1'' (Some ''a1'') (Some (demo_task ''s'' 1)))
      (dispatcher_labels demo_dispatcher (demo_task ''t'' 1) demo_event)"
  using dispatcher_selector_exact [of demo_dispatcher demo_event "demo_task ''s'' 1" "demo_task ''s'' 2" demo_event]
    dispatcher_selector_exact [of demo_dispatcher demo_event "demo_task ''s'' 1" "demo_task ''t'' 1" demo_event]
  by (simp add: demo_dispatcher_def demo_event_def demo_task_def plain_label_def)

text \<open>
  (C39) A fetch without a size estimate is refused before any request.  With one, a volume claim is
  requested exactly when the size reaches the configured minimum, before the job and with its
  labels; the job mounts that claim, or an empty directory when there is none; and a failing
  request raises its exception, with no job after a failed claim.
\<close>

theorem dispatch_fetch_requests:
  "case size_info task of
     None \<Rightarrow> dispatch_fetch api kd task ev p w = (Inl (ValueError ''Missing size_info data''), w)
   | Some si \<Rightarrow>
       (\<exists>claims job. kd_requests (snd (dispatch_fetch api kd task ev p w)) = kd_requests w @ claims @ job \<and>
         (claims \<noteq> [] \<longleftrightarrow> get_volume_size si \<ge> min_size (volume (kd_fetcher_job kd))) \<and>
         (\<forall>r \<in> set claims. \<exists>c. r = CreateClaim (namespace (kd_fetcher_job kd)) c \<and> length claims = 1 \<and>
            pvc_labels c = dispatcher_labels kd task ev \<and>
            (\<forall>q \<in> set job. \<exists>j. q = CreateJob (namespace (kd_fetcher_job kd)) j \<and>
               map vol_source (pod_volumes (tpl_spec (job_template j))) = [ClaimSource (pvc_name c)])) \<and>
         (claims = [] \<longrightarrow> (\<forall>q \<in> set job. \<exists>j. q = CreateJob (namespace (kd_fetcher_job kd)) j \<and>
            map vol_source (pod_volumes (tpl_spec (job_template j))) = [EmptyDir])) \<and>
         (length job = (if \<exists>r \<in> set claims. \<exists>e. api r = Inl e then 0 else 1)) \<and>
         fst (dispatch_fetch api kd task ev p w) =
           (case api (last (claims @ job)) of Inl e \<Rightarrow> Inl e | Inr _ \<Rightarrow> Inr ()))"
proof (cases "size_info task")
  case None
  then show ?thesis by (simp add: dispatch_fetch_def py_raise_def)
next
  case (Some si)
  let ?ns = "namespace (kd_fetcher_job kd)" and ?i = "kd_random w (kd_random_used w)"
  let ?job = "\<lambda>i c. \<lparr>job_namespace = ?ns, job_name = ''fetcher-'' @ i, job_labels = dispatcher_labels kd task ev,
    job_ttl = ttl (kd_fetcher_job kd), job_template = get_fetcher_pod_template kd task ev p c\<rparr>"
  let ?c = "volume_claim_body kd task ev (''fetcher-pv-'' @ ?i) (get_volume_size si)"
  let ?big = "get_volume_size si \<ge> min_size (volume (kd_fetcher_job kd))"
  define claims where "claims = (if ?big then [CreateClaim ?ns ?c] else [])"
  define job where "job = (if \<not> ?big then [CreateJob ?ns (?job ?i None)]
    else if \<exists>e. api (CreateClaim ?ns ?c) = Inl e then []
    else [CreateJob ?ns (?job (kd_random w (Suc (kd_random_used w))) (Some (pvc_name ?c)))])"
  have "kd_requests (snd (dispatch_fetch api kd task ev p w)) = kd_requests w @ claims @ job \<and>
      fst (dispatch_fetch api kd task ev p w) =
        (case api (last (claims @ job)) of Inl e \<Rightarrow> Inl e | Inr _ \<Rightarrow> Inr ())"
    unfolding claims_def job_def
    by (auto simp: Some dispatch_fetch_def Let_def py_bind_def py_then_def py_return_def id_generator_def
      k8s_call_def get_fetcher_job_def volume_claim_body_def split: sum.splits)
  moreover have "(\<forall>q \<in> set job. \<exists>j. q = CreateJob ?ns j \<and>
      map vol_source (pod_volumes (tpl_spec (job_template j))) =
        [if ?big then ClaimSource (pvc_name ?c) else EmptyDir])"
    by (auto simp: job_def get_fetcher_pod_template_def get_fetcher_pod_spec_def get_fetcher_volume_def
      volume_claim_body_def)
  moreover have "length job = (if \<exists>r \<in> set claims. \<exists>e. api r = Inl e then 0 else 1)"
    by (auto simp: job_def claims_def)
  ultimately show ?thesis
    unfolding Some option.case
    by (intro exI [of _ claims] exI [of _ job])
      (auto simp: claims_def volume_claim_body_def split: if_splits)
qed

theorem dispatch_fetch_requests_witness:
  "\<exists>claims job. kd_requests (snd (dispatch_fetch (\<lambda>_. Inr ''ok'') demo_dispatcher (demo_task ''s'' 100000000)
      demo_event ''/n'' \<lparr>kd_requests = [], kd_random = show_nat, kd_random_used = 0\<rparr>)) = claims @ job \<and>
    claims \<noteq> [] \<and> length job = 1"
proof -
  have size: "size_info (demo_task ''s'' 100000000) =
      Some \<lparr>total_size = 100000000, file_count = 1, max_size = 100000000\<rparr>"
    by (simp add: demo_task_def)
  have big: "get_volume_size \<lparr>total_size = 100000000, file_count = 1, max_size = 100000000\<rparr> \<ge>
      min_size (volume (kd_fetcher_job demo_dispatcher))"
    by code_simp
  show ?thesis
    using dispatch_fetch_requests [where task = "demo_task ''s'' 100000000" and api = "\<lambda>_. Inr ''ok''"
        and kd = demo_dispatcher and ev = demo_event and p = "''/n''"
        and w = "\<lparr>kd_requests = [], kd_random = show_nat, kd_random_used = 0\<rparr>"] big
    unfolding size option.case by auto
qed

end
