(* ===== verification/Fetcher_Service.thy ===== *)
theory Fetcher_Service
  imports Kafka_Service Kubernetes_Dispatcher
begin

text \<open>
  \<open>fetcher/src/fetcher_dispatcher/fetcher_dispatcher_service.py\<close>: the event handler that starts
  the downloads of an event and forwards the event when all of them are done, and the command
  object that cancels them.

  The contents of an event are objects that the handler and the download manager change, so the
  world holds them (data sets first, then models) and the payload of the event is read back from
  there; \<open>pending\<close> holds positions of this list.  The download manager's \<open>fetch\<close> is a parameter:
  it may call back at once or leave the completion to a later \<open>complete\<close>.
\<close>

record fetch_world = kworld +
  fw_contents :: "downloadable_content list"
  fw_pending :: "nat list"

record fetch_handler =
  fh_emitter :: emitter
  fh_producer_topic :: string
  fh_bucket :: string
  fh_md5sum :: "string \<Rightarrow> string"
  fh_event :: benchmark_event
  fh_payload :: fetcher_payload

definition fh_tasks_all :: "fetch_handler \<Rightarrow> downloadable_content list" where
  "fh_tasks_all h = datasets (fh_payload h) @ models (fh_payload h)"

text \<open>The event with its contents as they are now.\<close>

definition now_datasets :: "fetch_handler \<Rightarrow> fetch_world \<Rightarrow> downloadable_content list" where
  "now_datasets h w = take (length (datasets (fh_payload h))) (fw_contents w)"

definition now_event :: "fetch_handler \<Rightarrow> fetch_world \<Rightarrow> benchmark_event" where
  "now_event h w = set_payload (FetcherPayload ((fh_payload h)\<lparr>datasets := now_datasets h w,
     models := drop (length (datasets (fh_payload h))) (fw_contents w)\<rparr>)) (fh_event h)"

definition fh_status :: "fetch_handler \<Rightarrow> status \<Rightarrow> string \<Rightarrow> (fetch_world, unit) py" where
  "fh_status h st msg = (\<lambda>w. send_status_message_event (fh_emitter h) (now_event h w) st msg None w)"

definition fh_send :: "fetch_handler \<Rightarrow> (fetch_world, unit) py" where
  "fh_send h = (\<lambda>w. send_event (fh_emitter h) (now_event h w) (fh_producer_topic h) w)"

definition collect_status :: "downloadable_content list \<Rightarrow> status" where
  "collect_status downloads =
     (let fetch_statuses = map dc_status downloads in
      if Some FS_CANCELED \<in> set fetch_statuses then ST_CANCELED
      else if Some FS_FAILED \<in> set fetch_statuses then ST_FAILED
      else if Some FS_PENDING \<in> set fetch_statuses then ST_PENDING
      else if Some FS_RUNNING \<in> set fetch_statuses then ST_RUNNING
      else ST_SUCCEEDED)"

definition on_all_done :: "fetch_handler \<Rightarrow> (fetch_world, unit) py" where
  "on_all_done h = (\<lambda>w.
     let total_status = collect_status (now_datasets h w) in
     if total_status = ST_SUCCEEDED then
       py_then (fh_send h) (fh_status h total_status ''All downloads processed'') w
     else if total_status \<in> {ST_CANCELED, ST_FAILED} then
       fh_status h total_status ''Aborting execution'' w
     else (Inr (), w))"

definition done_message :: "downloadable_content \<Rightarrow> string \<times> status" where
  "done_message content =
     (case dc_status content of
        Some FS_DONE \<Rightarrow> (src content @ '' downloaded...'', ST_PENDING)
      | Some FS_CANCELED \<Rightarrow> (src content @ '' download canceled...'', ST_CANCELED)
      | Some FS_FAILED \<Rightarrow>
          (src content @ '' download failed: '' @ [CHR 0x27] @
           (case dc_message content of None \<Rightarrow> ''None'' | Some m \<Rightarrow> m) @ [CHR 0x27] @ ''...'', ST_FAILED)
      | Some FS_RUNNING \<Rightarrow> (''Downloading '' @ src content @ ''...'', ST_PENDING)
      | Some FS_PENDING \<Rightarrow> (''Downloading '' @ src content @ ''...'', ST_PENDING)
      | None \<Rightarrow> (''Unknown status None issued for '' @ src content, ST_ERROR))"

text \<open>\<open>list.remove\<close>: the first position whose content equals the given one.\<close>

fun remove_first :: "('a \<Rightarrow> bool) \<Rightarrow> 'a list \<Rightarrow> 'a list res" where
  "remove_first P [] = Inl (ValueError ''list.remove(x): x not in list'')"
| "remove_first P (x # xs) = (if P x then Inr xs else res_bind (remove_first P xs) (\<lambda>ys. Inr (x # ys)))"

definition on_done :: "fetch_handler \<Rightarrow> nat \<Rightarrow> (fetch_world, unit) py" where
  "on_done h i = (\<lambda>w.
     let (msg, st) = done_message (fw_contents w ! i) in
     py_then (fh_status h st msg)
       (\<lambda>w. case remove_first (\<lambda>k. fw_contents w ! k = fw_contents w ! i) (fw_pending w) of
          Inl e \<Rightarrow> (Inl e, w)
        | Inr ps \<Rightarrow>
            (let w' = w\<lparr>fw_pending := ps\<rparr>
             in if ps = [] then on_all_done h w' else (Inr (), w'))) w)"

definition execute :: "fetch_handler \<Rightarrow> (nat \<Rightarrow> (fetch_world, unit) py) \<Rightarrow> nat \<Rightarrow> (fetch_world, unit) py" where
  "execute h fetch i = (\<lambda>w.
     case get_content_dst (fh_md5sum h) (fw_contents w ! i) (fh_bucket h) of
       Inl e \<Rightarrow> (Inl e, w)
     | Inr d \<Rightarrow>
         py_then (py_modify (\<lambda>w. w\<lparr>fw_contents := (fw_contents w)[i := (fw_contents w ! i)\<lparr>dst := Some d\<rparr>]\<rparr>))
         (py_then (fh_status h ST_PENDING (''Preparing '' @ src (fw_contents w ! i) @ '' for download...''))
         (fetch i)) w)"

definition execute_all ::
  "fetch_handler \<Rightarrow> (nat \<Rightarrow> (fetch_world, unit) py) \<Rightarrow> nat list \<Rightarrow> (fetch_world, unit) py" where
  "execute_all h fetch tasks =
     py_then (fh_status h ST_PENDING ''Initiating downloads...'')
     (py_then (py_modify (\<lambda>w. w\<lparr>fw_pending := tasks\<rparr>))
     (py_for tasks (execute h fetch)))"

definition to_fetch :: "downloadable_content list \<Rightarrow> nat list" where
  "to_fetch cs = filter (\<lambda>i. \<not> truthy_str (dst (cs ! i))) [0..<length cs]"

definition fetcher_handle_event ::
  "fetch_handler \<Rightarrow> (nat \<Rightarrow> (fetch_world, unit) py) \<Rightarrow> (fetch_world, unit) py" where
  "fetcher_handle_event h fetch =
     py_then (py_modify (\<lambda>w. w\<lparr>fw_contents := fh_tasks_all h\<rparr>))
     (if to_fetch (fh_tasks_all h) = [] then
        py_then (fh_status h ST_SUCCEEDED ''Nothing to fetch'') (fh_send h)
      else execute_all h fetch (to_fetch (fh_tasks_all h)))"

text \<open>The download manager reports a result: the content is updated, then \<open>on_done\<close> is called.\<close>

definition complete :: "fetch_handler \<Rightarrow> nat \<times> fetcher_result \<Rightarrow> (fetch_world, unit) py" where
  "complete h d =
     py_then (py_modify (\<lambda>w. w\<lparr>fw_contents := (fw_contents w)[fst d := fr_update (snd d) (fw_contents w ! fst d)]\<rparr>))
       (on_done h (fst d))"

section \<open>DownloadCmdObject\<close>

definition download_cancel ::
  "emitter \<Rightarrow> ('a kworld_scheme, string list \<times> nat) py \<Rightarrow> benchmark_event \<Rightarrow> string \<Rightarrow>
   ('a kworld_scheme, string list \<times> nat) py" where
  "download_cancel em mgr_cancel ev target =
     py_then (send_status_message_event em ev ST_PENDING ''Canceling downloads...'' (Some target))
     (py_bind
       (py_catch mgr_cancel (\<lambda>err.
          py_then (send_status_message_event em ev ST_FAILED
             (''An error occurred when attempting to delete resources related to '' @ target @ ''. '' @
              ''Please check the status of the deletion command ('' @ action_id ev @ '' '' @
              ''for additional information.'') (Some target))
            (py_raise err)))
       (\<lambda>(k8s_delete_results, num_zk_nodes_updated).
          py_then
            (if num_zk_nodes_updated = 0
             then send_status_message_event em ev ST_SUCCEEDED ''No downloads to cancel...'' (Some target)
             else py_return ())
            (py_return (k8s_delete_results, num_zk_nodes_updated))))"

section \<open>Facts\<close>

definition forwarded :: "string \<Rightarrow> 'a kworld_scheme \<Rightarrow> kmessage list" where
  "forwarded t w = filter (\<lambda>m. km_topic m = t) (sent w)"

lemma forwarded_upd [simp]:
  "forwarded t (w\<lparr>fw_contents := c\<rparr>) = forwarded t w" "forwarded t (w\<lparr>fw_pending := p\<rparr>) = forwarded t w"
  by (simp_all add: forwarded_def)

lemma fh_status_run:
  assumes "em_status_topic (fh_emitter h) \<noteq> Some t"
  shows "\<exists>w'. fh_status h st msg w = (Inr (), w') \<and> fw_contents w' = fw_contents w \<and>
    fw_pending w' = fw_pending w \<and> forwarded t w' = forwarded t w"
  using assms
  by (cases "em_status_topic (fh_emitter h)")
    (auto simp: fh_status_def send_status_message_event_run send_event_run forwarded_def)

lemma fh_send_run:
  "\<exists>w' m. fh_send h w = (Inr (), w') \<and> fw_contents w' = fw_contents w \<and> fw_pending w' = fw_pending w \<and>
    forwarded (fh_producer_topic h) w' = forwarded (fh_producer_topic h) w @ [m] \<and>
    payload (km_value m) = payload (now_event h w) \<and> action_id (km_value m) = action_id (fh_event h)"
  by (auto simp: fh_send_def send_event_run forwarded_def now_event_def)

lemma on_all_done_run:
  assumes st: "em_status_topic (fh_emitter h) \<noteq> Some (fh_producer_topic h)"
  shows "\<exists>w' ms. on_all_done h w = (Inr (), w') \<and> fw_contents w' = fw_contents w \<and> fw_pending w' = fw_pending w \<and>
    forwarded (fh_producer_topic h) w' = forwarded (fh_producer_topic h) w @ ms \<and>
    (if collect_status (now_datasets h w) = ST_SUCCEEDED
     then \<exists>m. ms = [m] \<and> payload (km_value m) = payload (now_event h w) else ms = [])"
proof (cases "collect_status (now_datasets h w) = ST_SUCCEEDED")
  case True
  obtain w1 m where w1: "fh_send h w = (Inr (), w1)" "fw_contents w1 = fw_contents w" "fw_pending w1 = fw_pending w"
    "forwarded (fh_producer_topic h) w1 = forwarded (fh_producer_topic h) w @ [m]"
    "payload (km_value m) = payload (now_event h w)" using fh_send_run [of h w] by blast
  obtain w2 where "fh_status h ST_SUCCEEDED ''All downloads processed'' w1 = (Inr (), w2)"
    "fw_contents w2 = fw_contents w1" "fw_pending w2 = fw_pending w1"
    "forwarded (fh_producer_topic h) w2 = forwarded (fh_producer_topic h) w1"
    using fh_status_run [OF st] by blast
  with w1 True show ?thesis by (auto simp: on_all_done_def Let_def py_then_def py_bind_def)
next
  case False
  obtain w1 where "fh_status h (collect_status (now_datasets h w)) ''Aborting execution'' w = (Inr (), w1)"
    "fw_contents w1 = fw_contents w" "fw_pending w1 = fw_pending w"
    "forwarded (fh_producer_topic h) w1 = forwarded (fh_producer_topic h) w"
    using fh_status_run [OF st] by blast
  with False show ?thesis by (auto simp: on_all_done_def Let_def)
qed

lemma remove_first_unique:
  assumes "i \<in> set ps" "\<And>k. k \<in> set ps \<Longrightarrow> P k \<longleftrightarrow> k = i"
  shows "remove_first P ps = Inr (remove1 i ps)"
  using assms by (induction ps) auto

text \<open>The downloads that are still open: distinct positions of contents without a final status.\<close>

definition open_downloads :: "nat list \<Rightarrow> downloadable_content list \<Rightarrow> bool" where
  "open_downloads ps cs \<longleftrightarrow> distinct ps \<and>
     (\<forall>k \<in> set ps. k < length cs \<and> (case dc_status (cs ! k) of None \<Rightarrow> True | Some s \<Rightarrow> \<not> fs_final s))"

definition apply_results :: "(nat \<times> fetcher_result) list \<Rightarrow> downloadable_content list \<Rightarrow> downloadable_content list" where
  "apply_results = fold (\<lambda>(i, r) cs. cs[i := fr_update r (cs ! i)])"

lemma dc_status_fr_update [simp]: "dc_status (fr_update r c) = Some (fr_status r)"
  by (simp add: fr_update_def Let_def)

lemma open_downloads_step:
  assumes "open_downloads ps cs" "i \<in> set ps"
  shows "open_downloads (remove1 i ps) (cs[i := c])"
  using assms by (auto simp: open_downloads_def nth_list_update)

lemma complete_run:
  assumes st: "em_status_topic (fh_emitter h) \<noteq> Some (fh_producer_topic h)"
    and op: "open_downloads (fw_pending w) (fw_contents w)" and i: "i \<in> set (fw_pending w)"
    and r: "fs_final (fr_status r)"
  shows "\<exists>w' ms. complete h (i, r) w = (Inr (), w') \<and>
    fw_contents w' = (fw_contents w)[i := fr_update r (fw_contents w ! i)] \<and>
    fw_pending w' = remove1 i (fw_pending w) \<and>
    forwarded (fh_producer_topic h) w' = forwarded (fh_producer_topic h) w @ ms \<and>
    (if remove1 i (fw_pending w) = [] \<and> collect_status (now_datasets h w') = ST_SUCCEEDED
     then \<exists>m. ms = [m] \<and> payload (km_value m) = payload (now_event h w') else ms = [])"
proof -
  let ?cs = "(fw_contents w)[i := fr_update r (fw_contents w ! i)]"
  let ?w = "w\<lparr>fw_contents := ?cs\<rparr>" and ?t = "fh_producer_topic h"
  obtain msg s where m: "done_message (?cs ! i) = (msg, s)" by (cases "done_message (?cs ! i)")
  obtain w1 where w1: "fh_status h s msg ?w = (Inr (), w1)" "fw_contents w1 = ?cs" "fw_pending w1 = fw_pending w"
    "forwarded ?t w1 = forwarded ?t w" using fh_status_run [OF st, of s msg ?w] by auto
  have lt: "i < length (fw_contents w)" using op i by (simp add: open_downloads_def)
  have "?cs ! k = ?cs ! i \<longleftrightarrow> k = i" if k: "k \<in> set (fw_pending w)" for k
  proof
    assume eq: "?cs ! k = ?cs ! i"
    show "k = i"
    proof (rule ccontr)
      assume "k \<noteq> i"
      then have "dc_status (fw_contents w ! k) = Some (fr_status r)" using eq lt by simp
      with op k r show False by (auto simp: open_downloads_def)
    qed
  qed simp
  then have rm: "remove_first (\<lambda>k. fw_contents w1 ! k = fw_contents w1 ! i) (fw_pending w1) =
      Inr (remove1 i (fw_pending w))"
    using remove_first_unique [OF i] w1 by simp
  have run: "complete h (i, r) w = (let w' = w1\<lparr>fw_pending := remove1 i (fw_pending w)\<rparr>
      in if remove1 i (fw_pending w) = [] then on_all_done h w' else (Inr (), w'))"
    using m w1(1) rm by (simp add: complete_def on_done_def py_then_def py_bind_def py_modify_def Let_def)
  show ?thesis
  proof (cases "remove1 i (fw_pending w) = []")
    case False
    with run w1 show ?thesis by auto
  next
    case True
    let ?w2 = "w1\<lparr>fw_pending := remove1 i (fw_pending w)\<rparr>"
    from on_all_done_run [OF st, of ?w2] obtain w3 ms where w3: "on_all_done h ?w2 = (Inr (), w3)"
      "fw_contents w3 = fw_contents ?w2" "fw_pending w3 = fw_pending ?w2" "forwarded ?t w3 = forwarded ?t ?w2 @ ms"
      "if collect_status (now_datasets h ?w2) = ST_SUCCEEDED
       then \<exists>m. ms = [m] \<and> payload (km_value m) = payload (now_event h ?w2) else ms = []" by blast
    have "now_datasets h w3 = now_datasets h ?w2" "now_event h w3 = now_event h ?w2"
      using w3(2) by (simp_all add: now_datasets_def now_event_def)
    with run True w1 w3 show ?thesis by (auto simp: Let_def)
  qed
qed

lemma completes_run:
  assumes st: "em_status_topic (fh_emitter h) \<noteq> Some (fh_producer_topic h)"
  shows "open_downloads (fw_pending w) (fw_contents w) \<Longrightarrow> distinct (map fst ds) \<Longrightarrow>
    set (map fst ds) \<subset> set (fw_pending w) \<Longrightarrow> \<forall>d \<in> set ds. fs_final (fr_status (snd d)) \<Longrightarrow>
    \<exists>w'. py_for ds (complete h) w = (Inr (), w') \<and> fw_contents w' = apply_results ds (fw_contents w) \<and>
      set (fw_pending w') = set (fw_pending w) - set (map fst ds) \<and>
      open_downloads (fw_pending w') (fw_contents w') \<and>
      forwarded (fh_producer_topic h) w' = forwarded (fh_producer_topic h) w"
proof (induction ds arbitrary: w)
  case Nil
  then show ?case by (auto simp: apply_results_def py_return_def)
next
  case (Cons d ds)
  obtain i r where d: "d = (i, r)" by (cases d)
  have i: "i \<in> set (fw_pending w)" and r: "fs_final (fr_status r)" using Cons.prems d by auto
  from complete_run [OF st Cons.prems(1) i r] obtain w1 ms where
    w1: "complete h (i, r) w = (Inr (), w1)" "fw_contents w1 = (fw_contents w)[i := fr_update r (fw_contents w ! i)]"
      "fw_pending w1 = remove1 i (fw_pending w)"
      "forwarded (fh_producer_topic h) w1 = forwarded (fh_producer_topic h) w @ ms"
      "remove1 i (fw_pending w) \<noteq> [] \<longrightarrow> ms = []" by (metis (lifting))
  have dist: "distinct (fw_pending w)" using Cons.prems(1) by (simp add: open_downloads_def)
  then have pend: "set (fw_pending w1) = set (fw_pending w) - {i}" using w1(3) by simp
  have sub: "set (map fst ds) \<subset> set (fw_pending w1)" using Cons.prems(2,3) d pend by auto
  then have "ms = []" using w1(3,5) by auto
  have op: "open_downloads (fw_pending w1) (fw_contents w1)"
    using open_downloads_step [OF Cons.prems(1) i] w1(2,3) by simp
  from Cons.IH [OF op _ sub] Cons.prems(2,4) obtain w' where
    "py_for ds (complete h) w1 = (Inr (), w')" "fw_contents w' = apply_results ds (fw_contents w1)"
    "set (fw_pending w') = set (fw_pending w1) - set (map fst ds)"
    "open_downloads (fw_pending w') (fw_contents w')"
    "forwarded (fh_producer_topic h) w' = forwarded (fh_producer_topic h) w1" by auto
  with w1(1,2,4) \<open>ms = []\<close> d pend show ?case
    by (auto simp: apply_results_def py_then_def py_bind_def)
qed

lemma distinct_singleton: "distinct xs \<Longrightarrow> set xs = {i} \<Longrightarrow> xs = [i]"
proof (cases xs)
  case (Cons a ys)
  assume d: "distinct xs" and s: "set xs = {i}"
  with Cons have "a = i" "set ys \<subseteq> {i}" "i \<notin> set ys" by auto
  then have "ys = []" by (metis subset_singletonD set_empty2 insertI1)
  with Cons \<open>a = i\<close> show ?thesis by simp
qed simp

lemma py_for_snoc: "py_for (xs @ [x]) f w = py_then (py_for xs f) (f x) w"
  by (induction xs arbitrary: w)
    (auto simp: py_then_def py_bind_def py_return_def split: prod.splits sum.splits)

section \<open>The handler as a callback of the service\<close>

text \<open>
  The callback of the fetcher topic; other payloads cannot be read as a fetcher event.  The
  downloads it starts complete later.
\<close>

definition fetcher_callback :: "fetch_handler \<Rightarrow> nat \<Rightarrow> benchmark_event \<Rightarrow> (fetch_world, unit) py" where
  "fetcher_callback h cb e =
     (case payload e of
        FetcherPayload p \<Rightarrow> fetcher_handle_event (h\<lparr>fh_event := e, fh_payload := p\<rparr>) (\<lambda>i. py_return ())
      | _ \<Rightarrow> py_raise (AttributeError ''datasets''))"

lemma keeps_fh_status [intro]: "keeps emits (fh_status h st msg)"
  by (simp add: fh_status_def keeps_def) (intro allI keeps_send_status [unfolded keeps_def, rule_format])

lemma keeps_fh_send [intro]: "keeps emits (fh_send h)"
  by (simp add: fh_send_def keeps_def) (intro allI keeps_send_event [unfolded keeps_def, rule_format])

lemma keeps_fw_modify [intro]:
  "keeps emits (py_modify (\<lambda>w. w\<lparr>fw_contents := f w\<rparr>))" "keeps emits (py_modify (\<lambda>w. w\<lparr>fw_pending := g w\<rparr>))"
  by (auto simp: keeps_def py_modify_def intro: emits_same_log)

lemma keeps_execute: "(\<And>i. keeps emits (fetch i)) \<Longrightarrow> keeps emits (execute h fetch i)"
proof -
  assume f: "\<And>i. keeps emits (fetch i)"
  have "keeps emits (py_then (py_modify (\<lambda>w. w\<lparr>fw_contents := (fw_contents w)[i := (fw_contents w ! i)\<lparr>dst := Some d\<rparr>]\<rparr>))
      (py_then (fh_status h ST_PENDING msg) (fetch i)))" for d msg
    by (intro klog.keeps_then keeps_fw_modify keeps_fh_status f)
  then show ?thesis by (auto simp: execute_def keeps_def klog.refl split: sum.splits)
qed

lemma keeps_fetcher_handle_event:
  assumes "\<And>i. keeps emits (fetch i)"
  shows "keeps emits (fetcher_handle_event h fetch)"
  unfolding fetcher_handle_event_def execute_all_def
  by (intro klog.keeps_then klog.keeps_if klog.keeps_for keeps_execute keeps_fw_modify keeps_fh_status
    keeps_fh_send assms)

interpretation fetcher_service: kafka_callbacks "fetcher_callback h" "\<lambda>_. py_return ()"
proof
  fix cb e
  show "keeps emits (fetcher_callback h cb e)"
    by (cases "payload e") (auto simp: fetcher_callback_def
      intro!: keeps_fetcher_handle_event klog.keeps_return klog.keeps_raise)
  show "keeps emits (py_return () :: (fetch_world, unit) py)" by (rule klog.keeps_return)
qed

section \<open>Properties\<close>


definition demo_dc :: "string \<Rightarrow> downloadable_content" where
  "demo_dc s = \<lparr>src = s, path = ''/p'', dc_id = None, md5 = None, dst = None, dc_type = None,
     dc_status = None, dc_message = None, size_info = None\<rparr>"

definition demo_handler :: fetch_handler where
  "demo_handler = (let p = \<lparr>toml = \<lparr>contents = [], doc = [], sha1 = [], descriptor_filename = None, verified = True\<rparr>,
       datasets = [demo_dc ''s3://b/x''], models = [demo_dc ''s3://b/y''], scripts = []\<rparr>
     in \<lparr>fh_emitter = sample_emitter, fh_producer_topic = ''BAI_APP_FETCHER'', fh_bucket = ''data'',
         fh_md5sum = (\<lambda>s. ''0''), fh_event = sample_event ''a'' (FetcherPayload p), fh_payload = p\<rparr>)"

definition demo_pending :: fetch_world where
  "demo_pending = kworld.extend (idle_world [])
     \<lparr>fw_contents = [demo_dc ''s3://b/x'', demo_dc ''s3://b/y''], fw_pending = [0, 1]\<rparr>"

definition res_of :: "fetcher_status \<Rightarrow> fetcher_result" where
  "res_of s = \<lparr>fr_status = s, fr_type = None, fr_message = None\<rparr>"

lemma demo_facts:
  "em_status_topic (fh_emitter demo_handler) \<noteq> Some (fh_producer_topic demo_handler)"
  "open_downloads (fw_pending demo_pending) (fw_contents demo_pending)"
  "set (fw_pending demo_pending) = {0, 1}"
  by (simp_all add: demo_handler_def sample_emitter_def Let_def open_downloads_def demo_pending_def
    kworld.extend_def demo_dc_def)


lemma collect_succeeded:
  assumes "\<And>c. c \<in> set cs \<Longrightarrow> dc_status c = Some FS_DONE"
  shows "collect_status cs = ST_SUCCEEDED"
proof -
  have "s = Some FS_DONE" if "s \<in> set (map dc_status cs)" for s using assms that by auto
  then show ?thesis by (auto simp: collect_status_def Let_def)
qed

text \<open>
  The models of an event do not count: when every data set is downloaded, the event is
  forwarded as succeeded even if the download of a model failed.
\<close>

theorem failed_models_forwarded:
  assumes st: "em_status_topic (fh_emitter h) \<noteq> Some (fh_producer_topic h)"
    and ok: "\<And>c. c \<in> set (now_datasets h w) \<Longrightarrow> dc_status c = Some FS_DONE"
  shows "\<exists>w' m. on_all_done h w = (Inr (), w') \<and>
    forwarded (fh_producer_topic h) w' = forwarded (fh_producer_topic h) w @ [m]"
  using on_all_done_run [OF st, of w] collect_succeeded [OF ok] by auto

definition demo_failed_model :: fetch_world where
  "demo_failed_model = demo_pending\<lparr>fw_contents :=
     [fr_update (res_of FS_DONE) (demo_dc ''s3://b/x''), fr_update (res_of FS_FAILED) (demo_dc ''s3://b/y'')],
     fw_pending := []\<rparr>"

theorem failed_models_forwarded_witness:
  "dc_status (fw_contents demo_failed_model ! 1) = Some FS_FAILED \<and>
   (\<exists>w' m. on_all_done demo_handler demo_failed_model = (Inr (), w') \<and>
     forwarded (fh_producer_topic demo_handler) w' = forwarded (fh_producer_topic demo_handler) demo_failed_model @ [m])"
proof
  show "dc_status (fw_contents demo_failed_model ! 1) = Some FS_FAILED"
    by (simp add: demo_failed_model_def res_of_def)
  show "\<exists>w' m. on_all_done demo_handler demo_failed_model = (Inr (), w') \<and>
     forwarded (fh_producer_topic demo_handler) w' = forwarded (fh_producer_topic demo_handler) demo_failed_model @ [m]"
    by (rule failed_models_forwarded [OF demo_facts(1)])
      (auto simp: now_datasets_def demo_handler_def Let_def demo_failed_model_def res_of_def)
qed

text \<open>
  A failing cancellation is reported against the cancelled action and then raised to the
  command callback; a successful one returns what was deleted, with a final message only when
  there was nothing to cancel.
\<close>

theorem download_cancel_result:
  assumes top: "em_status_topic em = Some t" "t \<noteq> []"
    and mgr: "\<And>w. mgr w = (r, w)"
  shows "\<exists>ms. fst (download_cancel em mgr ev target w) = r \<and>
    sent (snd (download_cancel em mgr ev target w)) = sent w @ ms \<and>
    map (\<lambda>m. case payload (km_value m) of StatusMessagePayload _ s _ \<Rightarrow> Some s | _ \<Rightarrow> None) ms =
      Some ST_PENDING # (case r of Inl _ \<Rightarrow> [Some ST_FAILED] | Inr (_, n) \<Rightarrow> if n = 0 then [Some ST_SUCCEEDED] else []) \<and>
    (target \<noteq> [] \<longrightarrow> (\<forall>m \<in> set ms. action_id (km_value m) = target))"
  using top
  by (cases r) (auto simp: download_cancel_def py_then_def py_bind_def py_catch_def py_raise_def py_return_def
    mgr send_status_message_event_run send_event_run status_event_def)

theorem download_cancel_result_witness:
  "fst (download_cancel sample_emitter (\<lambda>w. (Inl (ApiException 500), w)) (sample_event ''a'' (AnyPayload PNone)) ''b''
     (idle_world [])) = Inl (ApiException 500)"
  using download_cancel_result [of sample_emitter "''BAI_APP_STATUS''" "\<lambda>w. (Inl (ApiException 500), w)"
      "Inl (ApiException 500)" "sample_event ''a'' (AnyPayload PNone)" "''b''" "idle_world []"]
  by (simp add: sample_emitter_def)

end
