(* ===== verification/Fetcher_Job.thy ===== *)
theory Fetcher_Job
  imports Url Events
begin

text \<open>
  The fetcher job (\<open>fetcher-job/src/bai_fetcher_job\<close>), the I/O utilities it uses
  (\<open>kafka-utils/src/bai_io_utils\<close>) and the size estimators of \<open>fetcher/src/preflight\<close>.

  S3, \<open>libcurl\<close>, MD5 and the package \<open>retrying\<close> are parameters.  \<open>s3_api\<close> collects the S3
  requests; the locale \<open>retrying\<close> states what the documentation of that package says of
  \<open>stop_max_attempt_number\<close> and \<open>retry_on_exception\<close>.  Files are byte strings; the percentages
  that the progress callbacks log are left out.
\<close>

section \<open>Failures\<close>

fun retryable :: "pyexc \<Rightarrow> bool" where
  "retryable HttpServerError = True"
| "retryable _ = False"

fun unretryable :: "pyexc \<Rightarrow> bool" where
  "unretryable InvalidDigestError = True"
| "unretryable HttpClientError = True"
| "unretryable S3Error = True"
| "unretryable CurlError = True"
| "unretryable _ = False"

section \<open>HTTP\<close>

definition http_family :: "int \<Rightarrow> int res" where
  "http_family status_code =
     (let f = status_code - status_code mod 100
      in if f \<in> {100, 200, 300, 400, 500} then Inr f
         else Inl (ValueError (show_int f @ '' is not a valid HTTPFamily'')))"

definition check_status :: "int \<Rightarrow> unit res" where
  "check_status status_code =
     res_bind (http_family status_code) (\<lambda>family.
       if family = 400 then Inl HttpClientError
       else if family = 500 then Inl HttpServerError
       else Inr ())"

text \<open>What \<open>curl.perform\<close> gives: a failure below HTTP, or status, length and body.\<close>

datatype curl_outcome = CurlFailed | CurlResponse int int string

definition http_perform :: "curl_outcome \<Rightarrow> (int \<times> string) res" where
  "http_perform c =
     (case c of
        CurlFailed \<Rightarrow> Inl CurlError
      | CurlResponse code content_length body \<Rightarrow>
          res_bind (check_status code) (\<lambda>_. Inr (content_length, body)))"

definition http_estimate_size :: "(string \<Rightarrow> curl_outcome) \<Rightarrow> string \<Rightarrow> content_size_info res" where
  "http_estimate_size curl url =
     res_bind (http_perform (curl url)) (\<lambda>(content_length, _).
       Inr \<lparr>total_size = content_length, file_count = 1, max_size = content_length\<rparr>)"

definition http_download :: "(string \<Rightarrow> curl_outcome) \<Rightarrow> string \<Rightarrow> string res" where
  "http_download curl url = res_bind (http_perform (curl url)) (\<lambda>(_, body). Inr body)"

section \<open>S3\<close>

record s3_object =
  s3_bucket :: string
  s3_key :: string

definition s3_parse :: "string \<Rightarrow> s3_object res" where
  "s3_parse url = res_bind (urlparse url) (\<lambda>u. Inr \<lparr>s3_bucket = netloc u, s3_key = drop 1 (url_path u)\<rparr>)"

definition s3_str :: "s3_object \<Rightarrow> string" where
  "s3_str ob = ''s3://'' @ s3_bucket ob @ ''/'' @ s3_key ob"

record s3_summary =
  sm_key :: string
  sm_size :: int
  sm_etag :: string

record 's s3_api =
  s3_head :: "'s \<Rightarrow> s3_object \<Rightarrow> (int \<times> string) res"
  s3_list :: "'s \<Rightarrow> string \<Rightarrow> string \<Rightarrow> s3_summary list res"
  s3_tags :: "'s \<Rightarrow> s3_object \<Rightarrow> (string \<times> string) list res"
  s3_if_match :: "'s \<Rightarrow> s3_object \<Rightarrow> string \<Rightarrow> unit res"
  s3_read :: "'s \<Rightarrow> s3_object \<Rightarrow> string res"
  s3_upload :: "s3_object \<Rightarrow> string \<Rightarrow> 's \<Rightarrow> unit res \<times> 's"
  s3_put_tags :: "s3_object \<Rightarrow> (string \<times> string) list \<Rightarrow> 's \<Rightarrow> unit res \<times> 's"
  s3_copy :: "s3_object \<Rightarrow> s3_object \<Rightarrow> 's \<Rightarrow> unit res \<times> 's"

fun is_client_error :: "pyexc \<Rightarrow> bool" where
  "is_client_error (ClientError _) = True"
| "is_client_error _ = False"

text \<open>\<open>except ClientError as e: raise S3Error from e\<close>.\<close>

definition s3_wrap :: "'a res \<Rightarrow> 'a res" where
  "s3_wrap r = (case r of Inl e \<Rightarrow> Inl (if is_client_error e then S3Error else e) | Inr x \<Rightarrow> Inr x)"

definition upload_to_s3 :: "'s s3_api \<Rightarrow> string \<Rightarrow> s3_object \<Rightarrow> ('s, unit) py" where
  "upload_to_s3 s3 data target = (\<lambda>w. case s3_upload s3 target data w of (r, w') \<Rightarrow> (s3_wrap r, w'))"

definition update_s3_hash_tagging :: "'s s3_api \<Rightarrow> s3_object \<Rightarrow> string \<Rightarrow> ('s, unit) py" where
  "update_s3_hash_tagging s3 target digest =
     (\<lambda>w. case s3_put_tags s3 target [(''MD5'', digest)] w of (r, w') \<Rightarrow> (s3_wrap r, w'))"

definition check_s3_for_etag :: "'s s3_api \<Rightarrow> s3_object \<Rightarrow> string \<Rightarrow> ('s, bool) py" where
  "check_s3_for_etag s3 target etag = (\<lambda>w.
     (case s3_if_match s3 w target etag of
        Inl e \<Rightarrow> if is_client_error e then Inr False else Inl e
      | Inr _ \<Rightarrow> Inr True, w))"

definition check_s3_for_md5 :: "'s s3_api \<Rightarrow> s3_object \<Rightarrow> string \<Rightarrow> ('s, bool) py" where
  "check_s3_for_md5 s3 target digest = (\<lambda>w.
     case s3_tags s3 w target of
       Inl e \<Rightarrow> (if is_client_error e then Inr False else Inl e, w)
     | Inr tags \<Rightarrow>
         (case map snd (filter (\<lambda>(k, _). k = ''MD5'') tags) of
            m # _ \<Rightarrow> (Inr (digest = m), w)
          | [] \<Rightarrow> check_s3_for_etag s3 target digest w))"

definition download_from_s3 :: "'s s3_api \<Rightarrow> string \<Rightarrow> ('s, string) py" where
  "download_from_s3 s3 url = (\<lambda>w. (res_bind (s3_parse url) (\<lambda>ob. s3_wrap (s3_read s3 w ob)), w))"

fun all_keys_equal :: "string \<Rightarrow> s3_summary list \<Rightarrow> bool" where
  "all_keys_equal k [] = True"
| "all_keys_equal k (x # xs) = (sm_key x = k \<and> all_keys_equal k xs)"

definition is_s3_file :: "'s s3_api \<Rightarrow> s3_object \<Rightarrow> ('s, bool) py" where
  "is_s3_file s3 ob = (\<lambda>w.
     let listing =
       (case s3_wrap (s3_list s3 w (s3_bucket ob) (s3_key ob)) of
          Inl e \<Rightarrow> Inl e
        | Inr [] \<Rightarrow> Inl S3Error
        | Inr xs \<Rightarrow> Inr (all_keys_equal (s3_key ob) xs))
     in (case s3_head s3 w ob of
           Inr (content_length, _) \<Rightarrow> if content_length > 0 then Inr True else listing
         | Inl e \<Rightarrow> if is_client_error e then listing else Inl e, w))"

fun sum_sizes :: "s3_summary list \<Rightarrow> content_size_info \<Rightarrow> content_size_info" where
  "sum_sizes [] i = i"
| "sum_sizes (x # xs) i =
     (if sm_size x = 0 then sum_sizes xs i
      else sum_sizes xs \<lparr>total_size = total_size i + sm_size x, file_count = file_count i + 1,
             max_size = max (max_size i) (sm_size x)\<rparr>)"

definition s3_estimate_size :: "'s s3_api \<Rightarrow> string \<Rightarrow> 's \<Rightarrow> content_size_info res" where
  "s3_estimate_size s3 url w =
     res_bind (s3_parse url) (\<lambda>ob.
       let listing = res_bind (s3_wrap (s3_list s3 w (s3_bucket ob) (s3_key ob))) (\<lambda>xs.
             Inr (sum_sizes xs \<lparr>total_size = 0, file_count = 0, max_size = 0\<rparr>))
       in case s3_head s3 w ob of
            Inr (n, _) \<Rightarrow> if n > 0 then Inr \<lparr>total_size = n, file_count = 1, max_size = n\<rparr> else listing
          | Inl e \<Rightarrow> if is_client_error e then listing else Inl e)"

section \<open>Estimating the size of a download\<close>

definition estimate_once :: "(string \<Rightarrow> curl_outcome) \<Rightarrow> 's s3_api \<Rightarrow> string \<Rightarrow> 's \<Rightarrow> content_size_info res" where
  "estimate_once curl s3 url w =
     res_bind (urlparse url) (\<lambda>parsed.
       if scheme parsed = ''http'' \<or> scheme parsed = ''https'' then http_estimate_size curl url
       else if scheme parsed = ''s3'' then s3_estimate_size s3 url w
       else Inl (UnknownSchemeException (''Unknown scheme '' @ [CHR 0x27] @ scheme parsed @ [CHR 0x27] @
              '' in '' @ [CHR 0x27] @ url @ [CHR 0x27])))"

definition MAX_ATTEMPTS :: nat where "MAX_ATTEMPTS = 3"

section \<open>Digests\<close>

text \<open>
  Reading a file in chunks until an empty read.  A hash object is the data it has seen, and its
  digest is the parameter \<open>md5\<close> of it.
\<close>

function file_chunks :: "nat \<Rightarrow> string \<Rightarrow> string list" where
  "file_chunks n data = (if data = [] \<or> n = 0 then [] else take n data # file_chunks n (drop n data))"
  by auto
termination
  by (relation "measure (\<lambda>(n, d). length d)") auto

declare file_chunks.simps [simp del]

record digest_state =
  ds_global :: string
  ds_md5s :: "string list"
  ds_first :: bool

definition digest_chunk :: "(string \<Rightarrow> string) \<Rightarrow> string \<Rightarrow> digest_state \<Rightarrow> digest_state" where
  "digest_chunk md5f data st =
     (let g = ds_global st @ data
      in if ds_first st then \<lparr>ds_global = g, ds_md5s = ds_md5s st @ [md5f g], ds_first = False\<rparr>
         else \<lparr>ds_global = g, ds_md5s = ds_md5s st @ [md5f data], ds_first = False\<rparr>)"

definition hex_digit :: "nat \<Rightarrow> char" where
  "hex_digit n = ''0123456789abcdef'' ! n"

definition hexdigest :: "string \<Rightarrow> string" where
  "hexdigest d = concat (map (\<lambda>c. [hex_digit (of_char c div 16), hex_digit (of_char c mod 16)]) d)"

record digest_pair =
  dp_md5 :: string
  dp_s3_etag :: string

definition calculate_md5_and_etag :: "(string \<Rightarrow> string) \<Rightarrow> nat \<Rightarrow> string \<Rightarrow> digest_pair" where
  "calculate_md5_and_etag md5f chunk_size data =
     (let st = fold (digest_chunk md5f) (file_chunks chunk_size data)
                 \<lparr>ds_global = [], ds_md5s = [], ds_first = True\<rparr>;
          joining_etag_hash = md5f (concat (ds_md5s st));
          global_md5 = hexdigest (md5f (ds_global st))
      in \<lparr>dp_md5 = global_md5,
          dp_s3_etag = (if length (ds_md5s st) > 1
            then hexdigest joining_etag_hash @ ''-'' @ show_nat (length (ds_md5s st)) else global_md5)\<rparr>)"

definition S3_MAX_CHUNK_BYTES :: nat where "S3_MAX_CHUNK_BYTES = 8 * 1024 * 1024"

section \<open>The transfer\<close>

definition transfer_to_s3 ::
  "'s s3_api \<Rightarrow> (string \<Rightarrow> string) \<Rightarrow> (string \<Rightarrow> ('s, string) py) \<Rightarrow> string \<Rightarrow> string \<Rightarrow> string option \<Rightarrow> ('s, unit) py" where
  "transfer_to_s3 s3 md5f download from to digest =
     py_bind (py_lift (s3_parse to)) (\<lambda>s3dst.
     py_bind (if truthy_str digest then check_s3_for_md5 s3 s3dst (the digest) else py_return False) (\<lambda>found.
       if found then py_return ()
       else py_bind (download from) (\<lambda>data.
         (let hash_pair = calculate_md5_and_etag md5f S3_MAX_CHUNK_BYTES data
          in if truthy_str digest \<and> dp_md5 hash_pair \<noteq> the digest then py_raise InvalidDigestError
             else py_bind (check_s3_for_etag s3 s3dst (dp_s3_etag hash_pair)) (\<lambda>same.
                  py_then (if same then py_return () else upload_to_s3 s3 data s3dst)
                    (update_s3_hash_tagging s3 s3dst (dp_md5 hash_pair)))))))"

definition s3_check_etag :: "'s s3_api \<Rightarrow> s3_object \<Rightarrow> (string res) \<Rightarrow> s3_object \<Rightarrow> ('s, unit) py" where
  "s3_check_etag s3 from src_etag to = (\<lambda>w.
     let new_obj_etag = (case s3_head s3 w to of Inr (_, e) \<Rightarrow> Inr (Some e)
           | Inl e \<Rightarrow> if is_client_error e then Inr None else Inl e)
     in case new_obj_etag of
          Inl e \<Rightarrow> (Inl e, w)
        | Inr n \<Rightarrow>
            (case src_etag of
               Inl e \<Rightarrow> (Inl e, w)
             | Inr t \<Rightarrow> if Some t = n then (Inr (), w) else s3_copy s3 from to w))"

definition s3_to_s3_single :: "'s s3_api \<Rightarrow> s3_object \<Rightarrow> s3_object \<Rightarrow> ('s, unit) py" where
  "s3_to_s3_single s3 from to = (\<lambda>w. s3_check_etag s3 from (res_bind (s3_head s3 w from) (\<lambda>(_, t). Inr t)) to w)"

text \<open>\<open>str.replace\<close>: every occurrence, from the left; the empty string occurs around each character.\<close>

function str_replace :: "string \<Rightarrow> string \<Rightarrow> string \<Rightarrow> string" where
  "str_replace s old new =
     (if old = [] then new @ concat (map (\<lambda>c. c # new) s)
      else if s = [] then []
      else if startswith s old then new @ str_replace (drop (length old) s) old new
      else hd s # str_replace (tl s) old new)"
  by auto
termination
  by (relation "measure (\<lambda>(s, _, _). length s)") auto

declare str_replace.simps [simp del]

definition s3_to_s3_deep :: "'s s3_api \<Rightarrow> s3_object \<Rightarrow> s3_object \<Rightarrow> ('s, unit) py" where
  "s3_to_s3_deep s3 from to = (\<lambda>w.
     case s3_list s3 w (s3_bucket from) (s3_key from) of
       Inl e \<Rightarrow> (Inl e, w)
     | Inr obs \<Rightarrow>
         py_for obs (\<lambda>x. s3_check_etag s3 \<lparr>s3_bucket = s3_bucket from, s3_key = sm_key x\<rparr> (Inr (sm_etag x))
           \<lparr>s3_bucket = s3_bucket to, s3_key = str_replace (sm_key x) (s3_key from) (s3_key to)\<rparr>) w)"

definition s3_to_s3 ::
  "'s s3_api \<Rightarrow> (string \<Rightarrow> string) \<Rightarrow> string \<Rightarrow> string \<Rightarrow> string option \<Rightarrow> ('s, fetched_type) py" where
  "s3_to_s3 s3 md5f from to digest =
     py_bind (py_lift (s3_parse from)) (\<lambda>s3src.
     py_bind (py_lift (s3_parse to)) (\<lambda>s3dst.
     py_bind (is_s3_file s3 s3src) (\<lambda>f.
       if f then
         py_then (if truthy_str digest then transfer_to_s3 s3 md5f (download_from_s3 s3) from to digest
                  else s3_to_s3_single s3 s3src s3dst)
           (py_return FT_FILE)
       else py_then (s3_to_s3_deep s3 s3src s3dst) (py_return FT_DIRECTORY))))"

section \<open>The job\<close>

record job_config =
  jc_src :: string
  jc_dst :: string
  jc_md5 :: "string option"
  jc_zk_node_path :: "string option"
  jc_max_attempts :: nat

text \<open>A source with another scheme falls off the end of \<open>_fetch\<close>, which then returns \<open>None\<close>.\<close>

definition job_fetch ::
  "(string \<Rightarrow> curl_outcome) \<Rightarrow> 's s3_api \<Rightarrow> (string \<Rightarrow> string) \<Rightarrow> job_config \<Rightarrow> ('s, fetched_type option) py" where
  "job_fetch curl s3 md5f cfg =
     py_bind (py_lift (urlparse (jc_src cfg))) (\<lambda>u.
       if scheme u = ''http'' \<or> scheme u = ''https'' then
         py_then (transfer_to_s3 s3 md5f (\<lambda>url. py_lift (http_download curl url)) (jc_src cfg) (jc_dst cfg) (jc_md5 cfg))
           (py_return (Some FT_FILE))
       else if scheme u = ''s3'' then
         py_bind (s3_to_s3 s3 md5f (jc_src cfg) (jc_dst cfg) (jc_md5 cfg)) (\<lambda>t. py_return (Some t))
       else py_return None)"

text \<open>The results written to the ZooKeeper node, next to the state of S3.\<close>

record 's job_world =
  jw_s3 :: 's
  jw_results :: "fetcher_result list"

definition on_s3 :: "('s, 'a) py \<Rightarrow> ('s job_world, 'a) py" where
  "on_s3 m = (\<lambda>w. case m (jw_s3 w) of (r, s) \<Rightarrow> (r, w\<lparr>jw_s3 := s\<rparr>))"

definition job_update_zk_node :: "job_config \<Rightarrow> fetcher_result \<Rightarrow> ('s job_world, unit) py" where
  "job_update_zk_node cfg r =
     (if truthy_str (jc_zk_node_path cfg) then py_modify (\<lambda>w. w\<lparr>jw_results := jw_results w @ [r]\<rparr>)
      else py_return ())"

type_synonym ('w, 'a) retry_fun = "(pyexc \<Rightarrow> bool) \<Rightarrow> nat \<Rightarrow> ('w, 'a) py \<Rightarrow> ('w, 'a) py"

definition retrying_fetch ::
  "('s job_world, fetched_type option) retry_fun \<Rightarrow> (pyexc \<Rightarrow> string) \<Rightarrow>
   ('s job_world, fetched_type option) py \<Rightarrow> job_config \<Rightarrow> ('s job_world, unit) py" where
  "retrying_fetch retry exc_str fetch cfg = (\<lambda>w.
     case retry retryable (jc_max_attempts cfg) fetch w of
       (Inl e, w') \<Rightarrow>
         if retryable e \<or> unretryable e
         then job_update_zk_node cfg \<lparr>fr_status = FS_FAILED, fr_type = None, fr_message = Some (exc_str e)\<rparr> w'
         else (Inl e, w')
     | (Inr t, w') \<Rightarrow>
         job_update_zk_node cfg \<lparr>fr_status = FS_DONE, fr_type = t, fr_message = Some ''Success''\<rparr> w')"

definition estimate_fetch_size ::
  "('s, content_size_info) retry_fun \<Rightarrow> (string \<Rightarrow> curl_outcome) \<Rightarrow> 's s3_api \<Rightarrow> string \<Rightarrow> ('s, content_size_info) py" where
  "estimate_fetch_size retry curl s3 url = retry retryable MAX_ATTEMPTS (\<lambda>w. (estimate_once curl s3 url w, w))"

section \<open>The retry decorator\<close>

text \<open>
  With \<open>stop_max_attempt_number = n\<close> the wrapped function is called at most \<open>n\<close> times, again only
  after an exception that \<open>retry_on_exception\<close> accepts, and the last outcome is the result.
\<close>

text \<open>The first \<open>n\<close> attempts, from \<open>ws 0\<close> to \<open>ws n\<close>, raise an exception worth another attempt.\<close>

definition fails_until :: "(pyexc \<Rightarrow> bool) \<Rightarrow> ('w, 'a) py \<Rightarrow> (nat \<Rightarrow> 'w) \<Rightarrow> nat \<Rightarrow> bool" where
  "fails_until p m ws n \<longleftrightarrow> (\<forall>k < n. \<exists>e. m (ws k) = (Inl e, ws (Suc k)) \<and> p e)"

locale retrying =
  fixes retry :: "('w, 'a) retry_fun"
  assumes last_attempt: "retry p 1 m w = m w"
    and returns: "m w = (Inr x, w') \<Longrightarrow> retry p (Suc n) m w = (Inr x, w')"
    and gives_up: "m w = (Inl e, w') \<Longrightarrow> \<not> p e \<Longrightarrow> retry p (Suc n) m w = (Inl e, w')"
    and again: "m w = (Inl e, w') \<Longrightarrow> p e \<Longrightarrow> retry p (Suc (Suc n)) m w = retry p (Suc n) m w'"
begin

lemma retry_after:
  assumes "fails_until p m ws n"
  shows "retry p (n + Suc j) m (ws 0) = retry p (Suc j) m (ws n)"
  using assms
proof (induction n arbitrary: ws)
  case 0
  then show ?case by simp
next
  case (Suc n)
  from Suc.prems obtain e where "m (ws 0) = (Inl e, ws 1)" "p e" by (auto simp: fails_until_def)
  then have "retry p (Suc n + Suc j) m (ws 0) = retry p (n + Suc j) m (ws 1)"
    using again [of m "ws 0" e "ws 1" p "n + j"] by simp
  also have "\<dots> = retry p (Suc j) m (ws (Suc n))"
    using Suc.IH [of "\<lambda>k. ws (Suc k)"] Suc.prems by (simp add: fails_until_def)
  finally show ?case .
qed

lemma succeeds_at:
  assumes "fails_until p m ws n"
    and "m (ws n) = (Inr x, w')" "n < mx"
  shows "retry p mx m (ws 0) = (Inr x, w')"
proof -
  obtain j where "mx = n + Suc j" using assms(3) less_iff_Suc_add [of n mx] by auto
  with retry_after [OF assms(1), of j] returns [of m "ws n" x w' p j] assms(2) show ?thesis by simp
qed

lemma exhausted:
  assumes "fails_until p m ws n"
    and "m (ws n) = (Inl e, w')"
  shows "retry p (Suc n) m (ws 0) = (Inl e, w')"
  using retry_after [OF assms(1), of 0] last_attempt [of p m "ws n"] assms(2) by simp

end

fun retry_loop :: "('w, 'a) retry_fun" where
  "retry_loop p 0 m w = m w"
| "retry_loop p (Suc n) m w =
     (case m w of
        (Inl e, w') \<Rightarrow> if p e \<and> n \<noteq> 0 then retry_loop p n m w' else (Inl e, w')
      | r \<Rightarrow> r)"

interpretation retryloop: retrying retry_loop
  by unfold_locales (auto split: prod.splits sum.splits)

section \<open>Properties\<close>

lemma file_chunks_Nil [simp]: "file_chunks n [] = []"
  by (simp add: file_chunks.simps [of n "[]"])

lemma file_chunks_step:
  "data \<noteq> [] \<Longrightarrow> 0 < n \<Longrightarrow> file_chunks n data = take n data # file_chunks n (drop n data)"
  by (simp add: file_chunks.simps [of n data])

lemma concat_file_chunks: "0 < n \<Longrightarrow> concat (file_chunks n data) = data"
proof (induction data rule: length_induct)
  case (1 data)
  show ?case
  proof (cases "data = []")
    case False
    then have "length (drop n data) < length data" using \<open>0 < n\<close> by simp
    with 1 have "concat (file_chunks n (drop n data)) = drop n data" by blast
    then show ?thesis by (simp only: file_chunks_step [OF False \<open>0 < n\<close>] concat.simps append_take_drop_id)
  qed simp
qed

lemma length_file_chunks: "0 < n \<Longrightarrow> length (file_chunks n data) = (length data + n - 1) div n"
proof (induction data rule: length_induct)
  case (1 data)
  show ?case
  proof (cases "data = []")
    case True
    then show ?thesis using \<open>0 < n\<close> by simp
  next
    case False
    then have pos: "0 < length data" by simp
    have "length (drop n data) < length data" using False \<open>0 < n\<close> by simp
    with 1 have ih: "length (file_chunks n (drop n data)) = (length (drop n data) + n - 1) div n" by blast
    have "(length (drop n data) + n - 1) div n = (length data - 1) div n"
    proof (cases "n \<le> length data")
      case True
      then have "length (drop n data) + n - 1 = length data - 1" by simp
      then show ?thesis by (rule arg_cong)
    next
      case F: False
      then have "(n - 1) div n = 0" "(length data - 1) div n = 0" using pos by simp_all
      with F show ?thesis by simp
    qed
    moreover have "(length data + n - 1) div n = Suc ((length data - 1) div n)"
    proof -
      have "n \<le> length data + n - 1" "length data + n - 1 - n = length data - 1" using pos by linarith+
      then show ?thesis using le_div_geq [OF \<open>0 < n\<close>, of "length data + n - 1"] by simp
    qed
    ultimately show ?thesis by (simp only: file_chunks_step [OF False \<open>0 < n\<close>] list.size(4) ih)
  qed
qed

lemma digest_fold_rest:
  "ds_first st = False \<Longrightarrow> fold (digest_chunk md5f) cs st =
     \<lparr>ds_global = ds_global st @ concat cs, ds_md5s = ds_md5s st @ map md5f cs, ds_first = False\<rparr>"
  by (induction cs arbitrary: st) (auto simp: digest_chunk_def Let_def)

lemma digest_fold:
  "fold (digest_chunk md5f) cs \<lparr>ds_global = [], ds_md5s = [], ds_first = True\<rparr> =
     \<lparr>ds_global = concat cs, ds_md5s = map md5f cs, ds_first = (cs = [])\<rparr>"
  by (cases cs) (simp_all add: digest_chunk_def Let_def digest_fold_rest)

text \<open>
  (C34) One pass over the file computes what S3 documents: the MD5 is that of the whole content, and
  the entity tag is the same for a file of one chunk and otherwise the MD5 of the chunks' MD5s,
  followed by their number, which is the file size over the chunk size, rounded up.
\<close>

theorem digests_correct:
  assumes "0 < n"
  shows "calculate_md5_and_etag md5f n data =
    \<lparr>dp_md5 = hexdigest (md5f data),
     dp_s3_etag = (if length data \<le> n then hexdigest (md5f data)
       else hexdigest (md5f (concat (map md5f (file_chunks n data)))) @ ''-'' @
            show_nat ((length data + n - 1) div n))\<rparr>"
proof -
  have "2 \<le> (length data + n - 1) div n \<longleftrightarrow> 2 * n \<le> length data + n - 1"
    by (rule less_eq_div_iff_mult_less_eq [OF assms])
  also have "\<dots> \<longleftrightarrow> \<not> length data \<le> n" using assms by linarith
  finally have "1 < (length data + n - 1) div n \<longleftrightarrow> \<not> length data \<le> n" by linarith
  then show ?thesis
    by (simp add: calculate_md5_and_etag_def digest_fold Let_def concat_file_chunks [OF assms]
      length_file_chunks [OF assms])
qed

theorem digests_correct_witness:
  "calculate_md5_and_etag (\<lambda>d. take 1 d) 2 ''abcde'' = \<lparr>dp_md5 = ''61'', dp_s3_etag = ''61-3''\<rparr>"
proof -
  have "hexdigest ''a'' = ''61''" "hexdigest (take 1 (concat (map (take 1) (file_chunks 2 ''abcde'')))) = ''61''"
    "show_nat ((length ''abcde'' + 2 - 1) div 2) = ''3''"
    by code_simp+
  then show ?thesis using digests_correct [of 2 "\<lambda>d. take 1 d" "''abcde''"] by simp
qed

text \<open>
  A download whose MD5 differs from the requested one never reaches S3: the transfer raises
  \<open>InvalidDigestError\<close> and leaves S3 as it was.
\<close>

theorem wrong_digest_not_uploaded:
  assumes "s3_parse to = Inr ob" "digest \<noteq> []" "check_s3_for_md5 s3 ob digest w = (Inr False, w)"
    and "download from w = (Inr data, w)" "hexdigest (md5f data) \<noteq> digest"
  shows "transfer_to_s3 s3 md5f download from to (Some digest) w = (Inl InvalidDigestError, w)"
proof -
  have "dp_md5 (calculate_md5_and_etag md5f S3_MAX_CHUNK_BYTES data) = hexdigest (md5f data)"
    by (simp add: calculate_md5_and_etag_def digest_fold Let_def concat_file_chunks S3_MAX_CHUNK_BYTES_def)
  with assms show ?thesis
    by (simp add: transfer_to_s3_def py_bind_def py_lift_def py_raise_def Let_def)
qed

text \<open>An S3 whose objects are a list of keys and contents, without tags.\<close>

definition tiny_s3 :: "(string \<times> string) list s3_api" where
  "tiny_s3 = \<lparr>s3_head = (\<lambda>s ob. case map_of s (s3_key ob) of None \<Rightarrow> Inl (ClientError ''404'')
       | Some d \<Rightarrow> Inr (int (length d), d)),
     s3_list = (\<lambda>s b p. Inr (map (\<lambda>(k, d). \<lparr>sm_key = k, sm_size = int (length d), sm_etag = d\<rparr>)
       (filter (\<lambda>(k, _). startswith k p) s))),
     s3_tags = (\<lambda>s ob. Inl (ClientError ''404'')),
     s3_if_match = (\<lambda>s ob t. if map_of s (s3_key ob) = Some t then Inr () else Inl (ClientError ''412'')),
     s3_read = (\<lambda>s ob. case map_of s (s3_key ob) of None \<Rightarrow> Inl (ClientError ''404'') | Some d \<Rightarrow> Inr d),
     s3_upload = (\<lambda>ob d s. (Inr (), s @ [(s3_key ob, d)])),
     s3_put_tags = (\<lambda>ob t s. (Inr (), s)),
     s3_copy = (\<lambda>from to s. case map_of s (s3_key from) of None \<Rightarrow> (Inl (ClientError ''404''), s)
       | Some d \<Rightarrow> (Inr (), s @ [(s3_key to, d)]))\<rparr>"

theorem wrong_digest_not_uploaded_witness:
  "transfer_to_s3 tiny_s3 (\<lambda>d. d) (\<lambda>_. py_return ''data'') ''http://h/f'' ''s3://b/k'' (Some ''ff'') [] =
     (Inl InvalidDigestError, [])"
proof -
  have "s3_parse ''s3://b/k'' = Inr \<lparr>s3_bucket = ''b'', s3_key = ''k''\<rparr>" by code_simp
  then show ?thesis
    by (rule wrong_digest_not_uploaded [where data = "''data''"])
      (simp_all add: check_s3_for_md5_def tiny_s3_def hexdigest_def hex_digit_def)
qed


text \<open>One attempt fails with a server error, the second one fetches a file.\<close>

definition flaky_fetch :: "(nat job_world, fetched_type option) py" where
  "flaky_fetch w = (if jw_s3 w = 0 then (Inl HttpServerError, w\<lparr>jw_s3 := 1\<rparr>) else (Inr (Some FT_FILE), w))"

definition demo_job :: job_config where
  "demo_job = \<lparr>jc_src = ''ftp://h/f'', jc_dst = ''s3://b/k'', jc_md5 = None, jc_zk_node_path = Some ''/n'',
     jc_max_attempts = 5\<rparr>"


text \<open>
  A source that is neither HTTP nor S3 is reported as downloaded: the job writes \<open>DONE\<close> to the
  node although it transferred nothing.
\<close>

theorem unknown_scheme_reported_done:
  assumes retry: "retrying retry" and zk: "truthy_str (jc_zk_node_path cfg)" and n: "0 < jc_max_attempts cfg"
    and u: "urlparse (jc_src cfg) = Inr u" "scheme u \<notin> {''http'', ''https'', ''s3''}"
  shows "retrying_fetch retry exc_str (on_s3 (job_fetch curl s3 md5f cfg)) cfg w =
    (Inr (), w\<lparr>jw_results := jw_results w @ [\<lparr>fr_status = FS_DONE, fr_type = None, fr_message = Some ''Success''\<rparr>]\<rparr>)"
proof -
  have once: "on_s3 (job_fetch curl s3 md5f cfg) w = (Inr None, w)"
    using u by (simp add: on_s3_def job_fetch_def py_bind_def py_lift_def py_return_def)
  obtain k where "jc_max_attempts cfg = Suc k" using n gr0_conv_Suc by auto
  then have "retry retryable (jc_max_attempts cfg) (on_s3 (job_fetch curl s3 md5f cfg)) w = (Inr None, w)"
    using retrying.returns [OF retry, of "on_s3 (job_fetch curl s3 md5f cfg)", OF once] by simp
  with zk show ?thesis by (simp add: retrying_fetch_def job_update_zk_node_def py_modify_def)
qed

theorem unknown_scheme_reported_done_witness:
  "retrying_fetch retry_loop (\<lambda>_. ''error'') (on_s3 (job_fetch (\<lambda>_. CurlFailed) tiny_s3 (\<lambda>d. d) demo_job)) demo_job
     \<lparr>jw_s3 = [], jw_results = []\<rparr> =
   (Inr (), \<lparr>jw_s3 = [], jw_results = [\<lparr>fr_status = FS_DONE, fr_type = None, fr_message = Some ''Success''\<rparr>]\<rparr>)"
proof -
  have "urlparse (jc_src demo_job) = Inr \<lparr>scheme = ''ftp'', netloc = ''h'', url_path = ''/f''\<rparr>" by code_simp
  from unknown_scheme_reported_done [OF retryloop.retrying_axioms _ _ this,
      of "\<lambda>_. ''error''" "\<lambda>_. CurlFailed" tiny_s3 "\<lambda>d. d" "\<lparr>jw_s3 = [], jw_results = []\<rparr>"]
  show ?thesis by (simp add: demo_job_def)
qed

lemma sum_sizes_acc:
  assumes "\<forall>x \<in> set xs. 0 \<le> sm_size x" "0 \<le> max_size i" "max_size i \<le> total_size i"
    "total_size i \<le> file_count i * max_size i" "0 \<le> file_count i"
  shows "total_size (sum_sizes xs i) = total_size i + sum_list (map sm_size xs) \<and>
    file_count (sum_sizes xs i) = file_count i + int (length (filter (\<lambda>x. sm_size x \<noteq> 0) xs)) \<and>
    max_size (sum_sizes xs i) \<le> total_size (sum_sizes xs i) \<and>
    total_size (sum_sizes xs i) \<le> file_count (sum_sizes xs i) * max_size (sum_sizes xs i)"
  using assms
proof (induction xs arbitrary: i)
  case Nil
  then show ?case by simp
next
  case (Cons x xs)
  show ?case
  proof (cases "sm_size x = 0")
    case True
    then have "sum_sizes (x # xs) i = sum_sizes xs i" by simp
    moreover have "\<forall>x \<in> set xs. 0 \<le> sm_size x" using Cons.prems(1) by simp
    ultimately show ?thesis using Cons.IH [of i] Cons.prems(2-) True by clarsimp
  next
    case False
    let ?m = "max (max_size i) (sm_size x)"
    let ?i = "\<lparr>total_size = total_size i + sm_size x, file_count = file_count i + 1, max_size = ?m\<rparr>"
    have "file_count i * max_size i \<le> file_count i * ?m" using Cons.prems by (intro mult_left_mono) auto
    then have "total_size ?i \<le> file_count ?i * max_size ?i" using Cons.prems by (simp add: algebra_simps)
    moreover have "\<forall>x \<in> set xs. 0 \<le> sm_size x" "0 \<le> max_size ?i" "max_size ?i \<le> total_size ?i" "0 \<le> file_count ?i"
      using Cons.prems by auto
    ultimately have ih: "total_size (sum_sizes xs ?i) = total_size ?i + sum_list (map sm_size xs)"
      "file_count (sum_sizes xs ?i) = file_count ?i + int (length (filter (\<lambda>x. sm_size x \<noteq> 0) xs))"
      "max_size (sum_sizes xs ?i) \<le> total_size (sum_sizes xs ?i)"
      "total_size (sum_sizes xs ?i) \<le> file_count (sum_sizes xs ?i) * max_size (sum_sizes xs ?i)"
      using Cons.IH [of ?i] by blast+
    have eq: "sum_sizes (x # xs) i = sum_sizes xs ?i" using False by simp
    have "total_size (sum_sizes xs ?i) = total_size i + sum_list (map sm_size (x # xs))"
      "file_count (sum_sizes xs ?i) = file_count i + int (length (filter (\<lambda>x. sm_size x \<noteq> 0) (x # xs)))"
      using ih(1,2) False by simp_all
    then show ?thesis unfolding eq using ih(3,4) by blast
  qed
qed

text \<open>
  An estimate over a listing adds up: the objects without bytes are skipped, the total is the sum
  of the sizes and the largest file is at most the total, which is at most the number of files
  times the largest.
\<close>

theorem s3_estimate_adds_up:
  assumes "s3_parse url = Inr ob" "s3_head s3 w ob = Inl (ClientError m)"
    and "s3_list s3 w (s3_bucket ob) (s3_key ob) = Inr xs" "\<forall>x \<in> set xs. 0 \<le> sm_size x"
  shows "\<exists>i. s3_estimate_size s3 url w = Inr i \<and> total_size i = sum_list (map sm_size xs) \<and>
    file_count i = int (length (filter (\<lambda>x. sm_size x \<noteq> 0) xs)) \<and>
    max_size i \<le> total_size i \<and> total_size i \<le> file_count i * max_size i"
  using assms sum_sizes_acc [OF assms(4), of "\<lparr>total_size = 0, file_count = 0, max_size = 0\<rparr>"]
  by (clarsimp simp: s3_estimate_size_def s3_wrap_def)

theorem s3_estimate_adds_up_witness:
  "\<exists>i. s3_estimate_size tiny_s3 ''s3://b/d/'' [(''d/x'', ''abc''), (''d/e'', []), (''d/y'', ''ab'')] = Inr i \<and>
    total_size i = 5 \<and> file_count i = 2 \<and> max_size i \<le> 5"
proof -
  have "s3_parse ''s3://b/d/'' = Inr \<lparr>s3_bucket = ''b'', s3_key = ''d/''\<rparr>" by code_simp
  from s3_estimate_adds_up [OF this, of tiny_s3 "[(''d/x'', ''abc''), (''d/e'', []), (''d/y'', ''ab'')]" "''404''"
      "[\<lparr>sm_key = ''d/x'', sm_size = 3, sm_etag = ''abc''\<rparr>, \<lparr>sm_key = ''d/e'', sm_size = 0, sm_etag = []\<rparr>,
        \<lparr>sm_key = ''d/y'', sm_size = 2, sm_etag = ''ab''\<rparr>]"]
  show ?thesis by (auto simp: tiny_s3_def startswith_def)
qed

lemma str_replace_prefix:
  assumes "old \<noteq> []"
  shows "str_replace (old @ rest) old new = new @ str_replace rest old new"
  using assms by (simp add: str_replace.simps [of "old @ rest"])

lemma str_replace_absent: "old \<noteq> [] \<Longrightarrow> \<not> str_contains s old \<Longrightarrow> str_replace s old new = s"
proof (induction s)
  case Nil
  then show ?case by (simp add: str_replace.simps [of "[]"])
next
  case (Cons c s)
  then have "\<not> startswith (c # s) old" "\<not> str_contains s old"
    by (auto simp: str_contains_def split: if_splits)
  with Cons show ?case by (simp add: str_replace.simps [of "c # s"])
qed

text \<open>
  Copying a directory moves the objects below the source key to below the target key as long as
  the source key does not occur again in the rest of their names.
\<close>

theorem deep_copy_target_key:
  assumes "s3_key from \<noteq> []" "\<not> str_contains rest (s3_key from)"
    and "s3_list s3 w (s3_bucket from) (s3_key from) = Inr [\<lparr>sm_key = s3_key from @ rest, sm_size = n, sm_etag = t\<rparr>]"
    and "s3_head s3 w \<lparr>s3_bucket = s3_bucket to, s3_key = s3_key to @ rest\<rparr> = Inl (ClientError m)"
  shows "s3_to_s3_deep s3 from to w =
    s3_copy s3 \<lparr>s3_bucket = s3_bucket from, s3_key = s3_key from @ rest\<rparr>
      \<lparr>s3_bucket = s3_bucket to, s3_key = s3_key to @ rest\<rparr> w"
proof -
  have "str_replace (s3_key from @ rest) (s3_key from) (s3_key to) = s3_key to @ rest"
    using assms(1,2) by (simp add: str_replace_prefix str_replace_absent)
  with assms(3,4) show ?thesis
    by (auto simp: s3_to_s3_deep_def s3_check_etag_def py_then_def py_bind_def py_return_def
      split: prod.splits sum.splits)
qed

theorem deep_copy_target_key_witness:
  "s3_to_s3_deep tiny_s3 \<lparr>s3_bucket = ''b'', s3_key = ''in''\<rparr> \<lparr>s3_bucket = ''b'', s3_key = ''out''\<rparr> [(''in/x'', ''d'')] =
     (Inr (), [(''in/x'', ''d''), (''out/x'', ''d'')])"
proof -
  have "\<not> str_contains ''/x'' ''in''" by code_simp
  then show ?thesis
    using deep_copy_target_key [of "\<lparr>s3_bucket = ''b'', s3_key = ''in''\<rparr>" "''/x''" tiny_s3 "[(''in/x'', ''d'')]" 1
        "''d''" "\<lparr>s3_bucket = ''b'', s3_key = ''out''\<rparr>" "''404''"]
    by (simp add: tiny_s3_def startswith_def)
qed

text \<open>
  When the source key occurs again further on in a name, that occurrence is replaced as well:
  with source key \<open>a\<close>, \<open>a/data\<close> is copied to a garbled key.
\<close>

theorem deep_copy_garbles_key:
  "s3_to_s3_deep tiny_s3 \<lparr>s3_bucket = ''b'', s3_key = ''a''\<rparr> \<lparr>s3_bucket = ''b'', s3_key = ''out''\<rparr> [(''a/data'', ''d'')] =
     (Inr (), [(''a/data'', ''d''), (''out/douttout'', ''d'')])"
  by code_simp

text \<open>
  The printed form of an S3 object parses back to it, for bucket names without delimiters and keys
  without query or fragment marks.
\<close>

theorem s3_object_roundtrip:
  assumes "plain_bucket (s3_bucket ob)" "plain_key (s3_key ob)"
  shows "s3_parse (s3_str ob) = Inr ob"
  using urlparse_s3 [OF assms] by (simp add: s3_parse_def s3_str_def)

theorem s3_object_roundtrip_witness:
  "s3_parse (s3_str \<lparr>s3_bucket = ''b-1'', s3_key = ''x/y z''\<rparr>) = Inr \<lparr>s3_bucket = ''b-1'', s3_key = ''x/y z''\<rparr>"
  by (rule s3_object_roundtrip) (simp_all add: plain_bucket_def plain_key_def)

end
