(* ===== verification/Descriptor.thy ===== *)
theory Descriptor
  imports Py_Strings
begin

text \<open>
  The benchmark descriptor: \<open>kafka-utils/src/bai_kafka_utils/executors/descriptor.py\<close> and
  \<open>executors/util/ec2_instance_info.py\<close>.

  \<open>dacite.from_dict\<close>, which reads a dictionary into the data classes and reports missing values and
  wrong types, is a parameter: it gives the fields as the user wrote them, with the defaults filled
  in.  What the classes do with the fields, \<open>__post_init__\<close> of the hardware and of the descriptor
  and the checks of \<open>from_dict\<close>, is defined here.  The validity of cron expressions (package
  \<open>crontab\<close>) and the table of instance types are parameters as well.
\<close>

section \<open>Data classes\<close>

datatype distributed_strategy = SINGLE_NODE | HOROVOD | INFERENCE

fun strategy_str :: "distributed_strategy \<Rightarrow> string" where
  "strategy_str SINGLE_NODE = ''DistributedStrategy.SINGLE_NODE''"
| "strategy_str HOROVOD = ''DistributedStrategy.HOROVOD''"
| "strategy_str INFERENCE = ''DistributedStrategy.INFERENCE''"

fun strategy_value :: "distributed_strategy \<Rightarrow> string" where
  "strategy_value SINGLE_NODE = ''single_node''"
| "strategy_value HOROVOD = ''horovod''"
| "strategy_value INFERENCE = ''inference''"

datatype http_probe_scheme = PROBE_HTTP | PROBE_HTTPS

fun probe_scheme_value :: "http_probe_scheme \<Rightarrow> string" where
  "probe_scheme_value PROBE_HTTP = ''http''"
| "probe_scheme_value PROBE_HTTPS = ''https''"

datatype execution_engine_id = ENGINE_DEFAULT | ENGINE_SAGEMAKER

datatype ml_framework = TENSORFLOW | MXNET | NO_FRAMEWORK

fun framework_value :: "ml_framework \<Rightarrow> string" where
  "framework_value TENSORFLOW = ''tensorflow''"
| "framework_value MXNET = ''mxnet''"
| "framework_value NO_FRAMEWORK = []"

fun framework_str :: "ml_framework \<Rightarrow> string" where
  "framework_str TENSORFLOW = ''MLFramework.TENSORFLOW''"
| "framework_str MXNET = ''MLFramework.MXNET''"
| "framework_str NO_FRAMEWORK = ''MLFramework.NONE''"

definition SINGLE_RUN_SCHEDULING :: string where "SINGLE_RUN_SCHEDULING = ''single_run''"

definition ONE_PER_GPU :: string where "ONE_PER_GPU = ''gpus''"

record info_descriptor =
  description :: string
  task_name :: "string option"
  execution_engine :: "execution_engine_id option"
  scheduling :: "string option"
  info_labels :: "string dict option"

record ml_descriptor =
  framework :: ml_framework
  benchmark_code :: "string option"
  ml_args :: "string option"
  framework_version :: "string option"
  ml_script :: "string option"

record custom_params_descriptor =
  python_version :: "string option"
  sagemaker_job_name :: "string option"
  dashboard :: "string option"
  region :: "string option"
  merge :: "bool option"
  hyper_params :: "pyval dict option"

record http_probe_descriptor =
  probe_path :: string
  probe_port :: "int option"
  probe_scheme :: "http_probe_scheme option"
  initial_delay_seconds :: "int option"
  period_seconds :: "int option"
  timeout_seconds :: "int option"
  success_threshold :: "int option"
  failure_threshold :: "int option"

record metric_descriptor =
  metric_name :: string
  metric_units :: string
  metric_pattern :: string

record content_descriptor =
  cd_src :: string
  cd_path :: string
  cd_id :: "string option"
  cd_md5 :: "string option"

record hardware_descriptor =
  instance_type :: string
  gpus_per_instance :: int
  aws_zone_id :: "string option"
  availability_zone :: "string option"

record distributed_hardware =
  num_instances :: int
  dh_processes_per_instance :: string

record benchmark_hardware = hardware_descriptor +
  strategy :: distributed_strategy
  distributed :: "distributed_hardware option"
  processes_per_instance :: "int option"

record server_env =
  se_docker_image :: string
  se_ports :: "int list"
  se_start_command :: string
  se_privileged :: bool
  se_extended_shm :: bool
  se_vars :: "string dict"
  se_readiness_probe :: "http_probe_descriptor option"
  se_start_command_args :: "string option"

record server_descriptor =
  server_hardware :: hardware_descriptor
  server_env :: server_env
  server_models :: "content_descriptor list"
  server_output :: "metric_descriptor list option"

record benchmark_env =
  docker_image :: string
  privileged :: bool
  extended_shm :: bool
  env_vars :: "string dict"

record benchmark_descriptor =
  spec_version :: string
  info :: info_descriptor
  hardware :: benchmark_hardware
  env :: benchmark_env
  output_metrics :: "metric_descriptor list option"
  ml :: "ml_descriptor option"
  data_sources :: "content_descriptor list option"
  custom_params :: "custom_params_descriptor option"
  server :: "server_descriptor option"

section \<open>Instance types\<close>

definition GPU_PREFIXES :: "char list" where "GPU_PREFIXES = ''gp''"

definition get_instance_gpus :: "string dict \<Rightarrow> string \<Rightarrow> int res" where
  "get_instance_gpus gpus_table ty =
     (case dict_get gpus_table ty of
        Some n \<Rightarrow> parse_int n
      | None \<Rightarrow>
          (case ty of
             [] \<Rightarrow> Inl IndexError
           | c # _ \<Rightarrow> if c \<notin> set GPU_PREFIXES then Inr 0
               else Inl (OtherException (''Determining the number of installed GPUs for the instance type '' @ ty @
                      '' is not yet supported''))))"

definition hardware_post_init :: "string dict \<Rightarrow> 'a hardware_descriptor_scheme \<Rightarrow> 'a hardware_descriptor_scheme res" where
  "hardware_post_init tbl h =
     res_bind (get_instance_gpus tbl (instance_type h)) (\<lambda>n. Inr (h\<lparr>gpus_per_instance := n\<rparr>))"

definition benchmark_hardware_post_init :: "string dict \<Rightarrow> benchmark_hardware \<Rightarrow> benchmark_hardware res" where
  "benchmark_hardware_post_init tbl h =
     res_bind (hardware_post_init tbl h) (\<lambda>h.
       case distributed h of
         None \<Rightarrow> Inr h
       | Some d \<Rightarrow>
           if dh_processes_per_instance d = ONE_PER_GPU then
             (if gpus_per_instance h \<noteq> 0 then Inr (h\<lparr>processes_per_instance := Some (gpus_per_instance h)\<rparr>)
              else Inl (DescriptorError ''Requesting per-gpu process assignment on instance without gpus''))
           else res_bind (parse_int (dh_processes_per_instance d)) (\<lambda>n.
                  Inr (h\<lparr>processes_per_instance := Some n\<rparr>)))"

section \<open>Labels\<close>

text \<open>The character class of the middle of a label, and the regular expression as written.\<close>

definition label_char :: "char \<Rightarrow> bool" where
  "label_char c = (is_alnum c \<or> c = CHR ''-'' \<or> c = CHR ''_'' \<or> c = CHR ''.'')"

definition label_fullmatch :: "string \<Rightarrow> bool" where
  "label_fullmatch s =
     (1 \<le> length s \<and> length s \<le> 63 \<and>
      (case s of
         [c] \<Rightarrow> is_alnum c
       | _ \<Rightarrow> is_alnum (hd s) \<and> list_all label_char (butlast (tl s)) \<and> is_alnum (last s)))"

definition INVALID_LABEL_MESSAGE :: string where
  "INVALID_LABEL_MESSAGE =
     ''(RegExp used for validation is ([A-Za-z0-9][-A-Za-z0-9_.]*)?[A-Za-z0-9] '' @
     ''Please use Kubernetes label syntax: '' @
     ''https://kubernetes.io/docs/concepts/overview/working-with-objects/labels''"

fun check_labels :: "string dict \<Rightarrow> unit res" where
  "check_labels [] = Inr ()"
| "check_labels ((l, v) # ls) =
     (if \<not> label_fullmatch l then
        Inl (DescriptorError (''Invalid custom label key: '' @ l @ ''. '' @ INVALID_LABEL_MESSAGE))
      else if v \<noteq> [] \<and> \<not> label_fullmatch v then
        Inl (DescriptorError (''Invalid value for label '' @ l @ '': '' @ v @ '' '' @ INVALID_LABEL_MESSAGE))
      else check_labels ls)"

section \<open>The descriptor\<close>

definition descriptor_post_init :: "(string option \<Rightarrow> bool) \<Rightarrow> benchmark_descriptor \<Rightarrow> unit res" where
  "descriptor_post_init cron_valid d =
     (if strategy (hardware d) = INFERENCE \<and> server d = None then
        Inl (DescriptorError ''Missing server definition'')
      else if strategy (hardware d) = HOROVOD \<and> distributed (hardware d) = None then
        Inl (DescriptorError ''Missing distributed hardware definition'')
      else res_bind
        (case distributed (hardware d) of
           None \<Rightarrow> Inr ()
         | Some x \<Rightarrow> if num_instances x \<le> 1
             then Inl (DescriptorError (''Invalid number of instances '' @ show_int (num_instances x)))
             else Inr ()) (\<lambda>_.
      if scheduling (info d) \<noteq> Some SINGLE_RUN_SCHEDULING \<and> \<not> cron_valid (scheduling (info d)) then
        Inl (DescriptorError (''Invalid cron expression in scheduling field: '' @
          (case scheduling (info d) of None \<Rightarrow> ''None'' | Some s \<Rightarrow> s) @
          ''. Please use Kubernetes cron job syntax or \"single_run\" for non-periodic runs''))
      else res_bind
        (case info_labels (info d) of
           None \<Rightarrow> Inl (AttributeError ''items'')
         | Some ls \<Rightarrow> check_labels ls) (\<lambda>_.
      case ml d of
        None \<Rightarrow> Inr ()
      | Some m \<Rightarrow>
          if truthy_str (framework_version m) \<and> framework m = NO_FRAMEWORK then
            Inl (DescriptorError ''Framework version is present, but not framework'')
          else if ml_script m \<noteq> None \<and> \<not> endswith (the (ml_script m)) ''.tar'' then
            Inl (DescriptorError (''Script mode section is present, but script file: '' @ the (ml_script m) @
              '' is not a tar file''))
          else Inr ())))"

record descriptor_config =
  valid_strategies :: "string list"
  valid_frameworks :: "string list"

record descriptor_env =
  de_dacite :: "pyval dict \<Rightarrow> benchmark_descriptor res"
  de_gpus_table :: "string dict"
  de_cron_valid :: "string option \<Rightarrow> bool"
  de_exc_str :: "pyexc \<Rightarrow> string"

text \<open>
  The construction by \<open>dacite\<close>: the hardware of the benchmark, then that of the server, then the
  descriptor.  Its \<open>MissingValueError\<close> and \<open>WrongTypeError\<close> are a \<open>ValueError\<close> of the parameter; any
  other exception of it, such as that for an unexpected key, is not one.
\<close>

definition build_descriptor :: "descriptor_env \<Rightarrow> pyval dict \<Rightarrow> benchmark_descriptor res" where
  "build_descriptor E dd =
     res_bind (de_dacite E dd) (\<lambda>d.
     res_bind (benchmark_hardware_post_init (de_gpus_table E) (hardware d)) (\<lambda>h.
     res_bind (case server d of
         None \<Rightarrow> Inr None
       | Some s \<Rightarrow> res_bind (hardware_post_init (de_gpus_table E) (server_hardware s)) (\<lambda>sh.
           Inr (Some (s\<lparr>server_hardware := sh\<rparr>)))) (\<lambda>sv.
       let d' = d\<lparr>hardware := h, server := sv\<rparr>
       in res_bind (descriptor_post_init (de_cron_valid E) d') (\<lambda>_. Inr d'))))"

definition check_config :: "descriptor_config option \<Rightarrow> benchmark_descriptor \<Rightarrow> benchmark_descriptor res" where
  "check_config config d =
     (case config of
        None \<Rightarrow> Inr d
      | Some c \<Rightarrow>
          if strategy_value (strategy (hardware d)) \<notin> set (valid_strategies c) then
            Inl (DescriptorError (''Invalid strategy: '' @ strategy_str (strategy (hardware d)) @
              '' (must be one of '' @ py_repr_list (valid_strategies c) @ '')''))
          else (case ml d of
                  None \<Rightarrow> Inl (AttributeError ''framework'')
                | Some m \<Rightarrow>
                    if framework_value (framework m) \<notin> set (valid_frameworks c) then
                      Inl (DescriptorError (''Invalid framework  '' @ framework_str (framework m) @
                        '' (must be one of '' @ py_repr_list (valid_frameworks c)))
                    else Inr d))"

fun parse_failure :: "pyexc \<Rightarrow> bool" where
  "parse_failure (ValueError _) = True"
| "parse_failure _ = False"

definition descriptor_from_dict ::
  "descriptor_env \<Rightarrow> pyval dict \<Rightarrow> descriptor_config option \<Rightarrow> benchmark_descriptor res" where
  "descriptor_from_dict E dd config =
     (case res_bind (build_descriptor E dd) (check_config config) of
        Inl e \<Rightarrow> Inl (if parse_failure e then DescriptorError (''Error parsing descriptor: '' @ de_exc_str E e) else e)
      | Inr d \<Rightarrow> Inr d)"

definition is_inference_strategy :: "benchmark_descriptor \<Rightarrow> bool" where
  "is_inference_strategy d = (strategy (hardware d) = INFERENCE)"

section \<open>Properties\<close>

lemma res_bind_InrE:
  assumes "res_bind m f = Inr y"
  obtains x where "m = Inr x" "f x = Inr y"
  using assms by (cases m) auto

lemma check_labels_ok:
  "check_labels ls = Inr () \<longleftrightarrow> (\<forall>(l, v) \<in> set ls. label_fullmatch l \<and> (v = [] \<or> label_fullmatch v))"
  by (induction ls rule: check_labels.induct) auto

text \<open>What a descriptor that passed its checks satisfies.\<close>

definition descriptor_ok :: "(string option \<Rightarrow> bool) \<Rightarrow> benchmark_descriptor \<Rightarrow> bool" where
  "descriptor_ok cron_valid d \<longleftrightarrow>
     (strategy (hardware d) = INFERENCE \<longrightarrow> server d \<noteq> None) \<and>
     (strategy (hardware d) = HOROVOD \<longrightarrow> distributed (hardware d) \<noteq> None) \<and>
     (\<forall>x. distributed (hardware d) = Some x \<longrightarrow> 1 < num_instances x \<and>
        (\<exists>n. processes_per_instance (hardware d) = Some n \<and>
           (dh_processes_per_instance x = ONE_PER_GPU \<longrightarrow> n = gpus_per_instance (hardware d) \<and> n \<noteq> 0))) \<and>
     (scheduling (info d) = Some SINGLE_RUN_SCHEDULING \<or> cron_valid (scheduling (info d))) \<and>
     (\<exists>ls. info_labels (info d) = Some ls \<and> (\<forall>(l, v) \<in> set ls. label_fullmatch l \<and> (v = [] \<or> label_fullmatch v))) \<and>
     (\<forall>m. ml d = Some m \<longrightarrow> (truthy_str (framework_version m) \<longrightarrow> framework m \<noteq> NO_FRAMEWORK) \<and>
        (\<forall>s. ml_script m = Some s \<longrightarrow> endswith s ''.tar''))"

lemma hardware_post_init_ok:
  assumes "benchmark_hardware_post_init tbl h0 = Inr h"
  shows "distributed h = distributed h0 \<and> strategy h = strategy h0 \<and>
    (\<forall>x. distributed h = Some x \<longrightarrow> (\<exists>n. processes_per_instance h = Some n \<and>
       (dh_processes_per_instance x = ONE_PER_GPU \<longrightarrow> n = gpus_per_instance h \<and> n \<noteq> 0)))"
proof (cases "distributed h0")
  case None
  with assms show ?thesis
    by (auto simp: benchmark_hardware_post_init_def hardware_post_init_def elim!: res_bind_InrE)
next
  case (Some x)
  obtain n where "get_instance_gpus tbl (instance_type h0) = Inr n"
    using assms by (auto simp: benchmark_hardware_post_init_def hardware_post_init_def elim!: res_bind_InrE)
  with assms Some show ?thesis
    by (cases "dh_processes_per_instance x = ONE_PER_GPU"; cases "parse_int (dh_processes_per_instance x)")
      (auto simp: benchmark_hardware_post_init_def hardware_post_init_def split: if_splits)
qed

lemma descriptor_post_init_ok:
  assumes "descriptor_post_init cron_valid d = Inr ()"
  shows "(strategy (hardware d) = INFERENCE \<longrightarrow> server d \<noteq> None) \<and>
     (strategy (hardware d) = HOROVOD \<longrightarrow> distributed (hardware d) \<noteq> None) \<and>
     (\<forall>x. distributed (hardware d) = Some x \<longrightarrow> 1 < num_instances x) \<and>
     (scheduling (info d) = Some SINGLE_RUN_SCHEDULING \<or> cron_valid (scheduling (info d))) \<and>
     (\<exists>ls. info_labels (info d) = Some ls \<and> (\<forall>(l, v) \<in> set ls. label_fullmatch l \<and> (v = [] \<or> label_fullmatch v))) \<and>
     (\<forall>m. ml d = Some m \<longrightarrow> (truthy_str (framework_version m) \<longrightarrow> framework m \<noteq> NO_FRAMEWORK) \<and>
        (\<forall>s. ml_script m = Some s \<longrightarrow> endswith s ''.tar''))"
  using assms
  by (auto simp: descriptor_post_init_def check_labels_ok split: option.splits if_splits elim!: res_bind_InrE)

lemma build_descriptor_ok:
  assumes "build_descriptor E dd = Inr d"
  shows "descriptor_ok (de_cron_valid E) d"
proof -
  from assms obtain d0 h sv where h: "benchmark_hardware_post_init (de_gpus_table E) (hardware d0) = Inr h"
    and d: "d = d0\<lparr>hardware := h, server := sv\<rparr>" "descriptor_post_init (de_cron_valid E) d = Inr ()"
    by (auto simp: build_descriptor_def Let_def elim!: res_bind_InrE)
  have "hardware d = h" using d(1) by simp
  with hardware_post_init_ok [OF h] descriptor_post_init_ok [OF d(2)] show ?thesis
    unfolding descriptor_ok_def by blast
qed

lemma check_config_same: "check_config c d = Inr d' \<Longrightarrow> d' = d"
  by (auto simp: check_config_def split: option.splits if_splits)

text \<open>
  (C37) A descriptor that \<open>from_dict\<close> accepts is well formed: an inference benchmark has a server, more
  than one instance is asked for wherever a distributed section is, with a number of processes per
  instance that is the positive number of GPUs when one per GPU is asked for, the schedule is valid,
  all labels have Kubernetes' syntax, a framework version comes with a framework, and a script is a
  tar file; under a configuration its strategy and framework are listed there.
\<close>

theorem accepted_descriptor_ok:
  assumes "descriptor_from_dict E dd config = Inr d"
  shows "descriptor_ok (de_cron_valid E) d \<and>
    (\<forall>c. config = Some c \<longrightarrow> strategy_value (strategy (hardware d)) \<in> set (valid_strategies c) \<and>
       (\<exists>m. ml d = Some m \<and> framework_value (framework m) \<in> set (valid_frameworks c)))"
proof -
  from assms obtain d0 where b: "build_descriptor E dd = Inr d0" and c: "check_config config d0 = Inr d"
    by (auto simp: descriptor_from_dict_def split: sum.splits elim!: res_bind_InrE)
  from check_config_same [OF c] b have "build_descriptor E dd = Inr d" by simp
  from build_descriptor_ok [OF this] c check_config_same [OF c] show ?thesis
    by (auto simp: check_config_def split: if_splits option.splits)
qed

definition demo_descriptor :: benchmark_descriptor where
  "demo_descriptor = \<lparr>spec_version = ''0.1.0'',
     info = \<lparr>description = ''d'', task_name = None, execution_engine = Some ENGINE_DEFAULT,
       scheduling = Some SINGLE_RUN_SCHEDULING, info_labels = Some [(''team'', ''a-b'')]\<rparr>,
     hardware = \<lparr>instance_type = ''p3.8xlarge'', gpus_per_instance = 0, aws_zone_id = None,
       availability_zone = None, strategy = HOROVOD,
       distributed = Some \<lparr>num_instances = 3, dh_processes_per_instance = ONE_PER_GPU\<rparr>,
       processes_per_instance = None\<rparr>,
     env = \<lparr>docker_image = ''img'', privileged = False, extended_shm = True, env_vars = []\<rparr>,
     output_metrics = None, ml = None, data_sources = None, custom_params = None, server = None\<rparr>"

definition demo_env :: descriptor_env where
  "demo_env = \<lparr>de_dacite = (\<lambda>_. Inr demo_descriptor), de_gpus_table = [(''p3.8xlarge'', ''4'')],
     de_cron_valid = (\<lambda>_. False), de_exc_str = (\<lambda>_. ''error'')\<rparr>"

definition demo_built :: benchmark_descriptor where
  "demo_built = demo_descriptor\<lparr>hardware := (hardware demo_descriptor)\<lparr>gpus_per_instance := 4,
     processes_per_instance := Some 4\<rparr>\<rparr>"

theorem accepted_descriptor_ok_witness: "descriptor_ok (\<lambda>_. False) demo_built"
proof -
  have "descriptor_from_dict demo_env [] None = Inr demo_built" by code_simp
  from accepted_descriptor_ok [OF this] show ?thesis by (simp add: demo_env_def)
qed

text \<open>
  A descriptor without a section \<open>ml\<close> is refused under a configuration that lists its strategy,
  but with an \<open>AttributeError\<close> instead of a \<open>DescriptorError\<close>.
\<close>

theorem missing_ml_attribute_error:
  assumes "build_descriptor E dd = Inr d" "ml d = None"
    "strategy_value (strategy (hardware d)) \<in> set (valid_strategies c)"
  shows "descriptor_from_dict E dd (Some c) = Inl (AttributeError ''framework'')"
  using assms by (simp add: descriptor_from_dict_def check_config_def)

theorem missing_ml_attribute_error_witness:
  "descriptor_from_dict demo_env [] (Some \<lparr>valid_strategies = [''horovod''], valid_frameworks = []\<rparr>) =
     Inl (AttributeError ''framework'')"
proof -
  have "build_descriptor demo_env [] = Inr demo_built" by code_simp
  then show ?thesis
    by (rule missing_ml_attribute_error) (simp_all add: demo_built_def demo_descriptor_def)
qed

end
