(* ===== verification/Watcher.thy ===== *)
theory Watcher
  imports Kafka_Service Descriptor
begin

text \<open>
  The watcher (\<open>watcher/src/bai_watcher\<close>): how the state of a Kubernetes or SageMaker job becomes the
  status of a benchmark, the loop of a watching thread, and the handler that starts one per job.

  Kubernetes and SageMaker are parameters: what the watcher reads from them in one round is an
  argument.  A loop runs over the list of what its rounds read; it is still watching when the list
  is used up.  Python keeps the containers of one state in a \<open>set\<close>, whose order is not defined:
  \<open>pick\<close> is the element that comes first, and the properties hold for every choice.
\<close>

section \<open>Statuses\<close>

datatype benchmark_job_status =
    JS_SUCCEEDED | JS_FAILED | NO_POD_SCHEDULED | JOB_NOT_FOUND
  | FAILED_AT_BENCHMARK_CONTAINER | FAILED_AT_SIDECAR_CONTAINER | FAILED_AT_INIT_CONTAINERS
  | PENDING_AT_BENCHMARK_CONTAINER | PENDING_AT_SIDECAR_CONTAINER | PENDING_AT_INIT_CONTAINERS
  | PENDING_NODE_SCALING | RUNNING_AT_INIT_CONTAINERS | RUNNING_AT_MAIN_CONTAINERS
  | SM_STOPPED | SM_INTERRUPTED | SM_FAILED_MAX_RUNTIME_EXCEEDED | SM_FAILED_MAX_WAITTIME_EXCEEDED
  | SM_IN_PROGRESS_STARTING | SM_IN_PROGRESS_LAUNCHING_ML_INSTANCES | SM_IN_PROGRESS_PREP_TRAINING_STACK
  | SM_IN_PROGRESS_DOWNLOADING | SM_IN_PROGRESS_DOWNLOADING_TRAINING_IMG | SM_IN_PROGRESS_TRAINING
  | SM_IN_PROGRESS_UPLOADING | SM_UNKNOWN | SM_STOPPING

definition is_final :: "benchmark_job_status \<Rightarrow> bool" where
  "is_final s = (s \<in> {JS_SUCCEEDED, FAILED_AT_INIT_CONTAINERS, FAILED_AT_BENCHMARK_CONTAINER,
     FAILED_AT_SIDECAR_CONTAINER, JOB_NOT_FOUND, JS_FAILED, SM_STOPPED, SM_FAILED_MAX_RUNTIME_EXCEEDED,
     SM_FAILED_MAX_WAITTIME_EXCEEDED, SM_INTERRUPTED, SM_UNKNOWN})"

definition is_running :: "benchmark_job_status \<Rightarrow> bool" where
  "is_running s = (s \<in> {RUNNING_AT_INIT_CONTAINERS, RUNNING_AT_MAIN_CONTAINERS, SM_IN_PROGRESS_DOWNLOADING,
     SM_IN_PROGRESS_STARTING, SM_IN_PROGRESS_LAUNCHING_ML_INSTANCES, SM_IN_PROGRESS_PREP_TRAINING_STACK,
     SM_IN_PROGRESS_DOWNLOADING_TRAINING_IMG, SM_IN_PROGRESS_TRAINING, SM_IN_PROGRESS_UPLOADING, SM_STOPPING})"

fun choose_status_from_benchmark_status :: "benchmark_job_status \<Rightarrow> status \<times> string" where
  "choose_status_from_benchmark_status FAILED_AT_SIDECAR_CONTAINER = (ST_FAILED, ''Benchmark failed'')"
| "choose_status_from_benchmark_status FAILED_AT_INIT_CONTAINERS = (ST_FAILED, ''Benchmark failed'')"
| "choose_status_from_benchmark_status FAILED_AT_BENCHMARK_CONTAINER =
     (ST_FAILED, ''Benchmark container failed - Please check your container'')"
| "choose_status_from_benchmark_status JS_FAILED = (ST_FAILED, ''Benchmark failed for an unknown reason'')"
| "choose_status_from_benchmark_status JS_SUCCEEDED = (ST_SUCCEEDED, ''Benchmark finished successfully'')"
| "choose_status_from_benchmark_status NO_POD_SCHEDULED =
     (ST_FAILED, ''Benchmark was unable to run on the cluster'')"
| "choose_status_from_benchmark_status JOB_NOT_FOUND = (ST_CANCELED, ''Benchmark cancelled - watch ended'')"
| "choose_status_from_benchmark_status PENDING_AT_INIT_CONTAINERS =
     (ST_PENDING, ''Benchmark pending pod initialization'')"
| "choose_status_from_benchmark_status PENDING_AT_BENCHMARK_CONTAINER =
     (ST_PENDING, ''Benchmark pending pod initialization'')"
| "choose_status_from_benchmark_status PENDING_AT_SIDECAR_CONTAINER =
     (ST_PENDING, ''Benchmark pending pod initialization'')"
| "choose_status_from_benchmark_status RUNNING_AT_INIT_CONTAINERS =
     (ST_PENDING, ''Benchmark pending pod initialization'')"
| "choose_status_from_benchmark_status PENDING_NODE_SCALING = (ST_PENDING, ''Benchmark pending node autoscaling'')"
| "choose_status_from_benchmark_status RUNNING_AT_MAIN_CONTAINERS = (ST_RUNNING, ''Benchmark running'')"
| "choose_status_from_benchmark_status SM_IN_PROGRESS_STARTING = (ST_PENDING, ''Benchmark starting'')"
| "choose_status_from_benchmark_status SM_IN_PROGRESS_LAUNCHING_ML_INSTANCES =
     (ST_PENDING, ''Launching ML instances'')"
| "choose_status_from_benchmark_status SM_IN_PROGRESS_PREP_TRAINING_STACK =
     (ST_PENDING, ''Preparing training stack'')"
| "choose_status_from_benchmark_status SM_IN_PROGRESS_DOWNLOADING = (ST_PENDING, ''Downloading data'')"
| "choose_status_from_benchmark_status SM_IN_PROGRESS_DOWNLOADING_TRAINING_IMG =
     (ST_PENDING, ''Downloading benchmark image'')"
| "choose_status_from_benchmark_status SM_IN_PROGRESS_TRAINING = (ST_PENDING, ''Benchmark running'')"
| "choose_status_from_benchmark_status SM_IN_PROGRESS_UPLOADING = (ST_PENDING, ''Uploading data'')"
| "choose_status_from_benchmark_status SM_STOPPING = (ST_PENDING, ''Benchmark stopping'')"
| "choose_status_from_benchmark_status SM_STOPPED = (ST_FAILED, ''Benchmark stopped'')"
| "choose_status_from_benchmark_status SM_FAILED_MAX_RUNTIME_EXCEEDED =
     (ST_FAILED, ''Benchmark failed - Max runtime exceeded'')"
| "choose_status_from_benchmark_status SM_FAILED_MAX_WAITTIME_EXCEEDED =
     (ST_FAILED, ''Benchmark failed - Max wait time exceeded'')"
| "choose_status_from_benchmark_status SM_INTERRUPTED = (ST_FAILED, ''Benchmark interrupted'')"
| "choose_status_from_benchmark_status SM_UNKNOWN =
     (ST_FAILED, ''Benchmark reached unknown state - Please contact your system administrator'')"

section \<open>The status of a Kubernetes job\<close>

datatype container_state = CS_FAILED | CS_PENDING | CS_RUNNING

text \<open>A container status as read from Kubernetes: exit code if terminated, whether waiting or running.\<close>

record container_status =
  cs_name :: string
  cs_terminated :: "int option"
  cs_waiting :: bool
  cs_running :: bool

record k8s_job_status =
  js_succeeded :: "int option"
  js_conditions :: "string list"

record pod_status =
  ps_phase :: string
  ps_conditions :: "(string \<times> string) list"
  ps_init_statuses :: "container_status list"
  ps_statuses :: "container_status list option"

text \<open>
  The dictionary of states in the order in which the states are first met, with the names of their
  containers.
\<close>

definition add_state :: "container_state \<Rightarrow> string \<Rightarrow> (container_state \<times> string list) list \<Rightarrow>
    (container_state \<times> string list) list" where
  "add_state st n d = dict_set d st ((case dict_get d st of None \<Rightarrow> [] | Some ns \<Rightarrow> ns) @ [n])"

fun collect_container_states ::
  "container_status list \<Rightarrow> (container_state \<times> string list) list \<Rightarrow> (container_state \<times> string list) list" where
  "collect_container_states [] d = d"
| "collect_container_states (s # ss) d =
     (let d1 = (case cs_terminated s of
                  Some code \<Rightarrow> if code \<noteq> 0 then add_state CS_FAILED (cs_name s) d else d
                | None \<Rightarrow> d);
          d2 = (if cs_waiting s then add_state CS_PENDING (cs_name s) d1 else d1);
          d3 = (if cs_running s then add_state CS_RUNNING (cs_name s) d2 else d2)
      in collect_container_states ss d3)"

definition infer_status_from_job :: "k8s_job_status \<Rightarrow> benchmark_job_status option" where
  "infer_status_from_job j =
     (if (case js_succeeded j of None \<Rightarrow> False | Some n \<Rightarrow> n > 0) then Some JS_SUCCEEDED
      else if filter (\<lambda>r. r \<in> {''BackoffLimitExceeded''}) (js_conditions j) \<noteq> [] then Some JS_FAILED
      else None)"

definition infer_status_from_pod :: "pod_status list \<Rightarrow> benchmark_job_status option" where
  "infer_status_from_pod pods =
     (case pods of
        [] \<Rightarrow> Some NO_POD_SCHEDULED
      | p # _ \<Rightarrow>
          if ps_phase p = ''Running'' then Some RUNNING_AT_MAIN_CONTAINERS
          else if ps_phase p = ''Pending'' \<and> ps_conditions p \<noteq> [] \<and>
                  hd (ps_conditions p) = (''PodScheduled'', ''Unschedulable'') then Some PENDING_NODE_SCALING
          else None)"

fun infer_init :: "(container_state \<times> string list) list \<Rightarrow> benchmark_job_status option" where
  "infer_init [] = None"
| "infer_init ((CS_PENDING, _) # _) = Some PENDING_AT_INIT_CONTAINERS"
| "infer_init ((CS_RUNNING, _) # _) = Some RUNNING_AT_INIT_CONTAINERS"
| "infer_init ((CS_FAILED, _) # _) = Some FAILED_AT_INIT_CONTAINERS"

definition BENCHMARK_CONTAINER_NAME :: string where "BENCHMARK_CONTAINER_NAME = ''benchmark''"

fun infer_main :: "(string list \<Rightarrow> string) \<Rightarrow> (container_state \<times> string list) list \<Rightarrow> benchmark_job_status option" where
  "infer_main pick [] = None"
| "infer_main pick ((CS_PENDING, ns) # _) =
     Some (if pick ns = BENCHMARK_CONTAINER_NAME then PENDING_AT_BENCHMARK_CONTAINER else PENDING_AT_SIDECAR_CONTAINER)"
| "infer_main pick ((CS_FAILED, ns) # _) =
     Some (if pick ns = BENCHMARK_CONTAINER_NAME then FAILED_AT_BENCHMARK_CONTAINER else FAILED_AT_SIDECAR_CONTAINER)"
| "infer_main pick ((CS_RUNNING, ns) # d) = infer_main pick d"

text \<open>\<open>container_statuses\<close> that are \<open>None\<close> cannot be iterated over.\<close>

definition infer_status_from_containers ::
  "(string list \<Rightarrow> string) \<Rightarrow> pod_status list \<Rightarrow> benchmark_job_status option res" where
  "infer_status_from_containers pick pods =
     (case pods of
        [] \<Rightarrow> Inl IndexError
      | p # _ \<Rightarrow>
          (case infer_init (collect_container_states (ps_init_statuses p) []) of
             Some s \<Rightarrow> Inr (Some s)
           | None \<Rightarrow>
               (case ps_statuses p of
                  None \<Rightarrow> Inl (TypeError ''NoneType object is not iterable'')
                | Some ss \<Rightarrow> Inr (infer_main pick (collect_container_states ss [])))))"

definition infer_status ::
  "(string list \<Rightarrow> string) \<Rightarrow> k8s_job_status \<Rightarrow> pod_status list \<Rightarrow> benchmark_job_status res" where
  "infer_status pick j pods =
     (case infer_status_from_job j of
        Some s \<Rightarrow> Inr s
      | None \<Rightarrow>
          (case infer_status_from_pod pods of
             Some s \<Rightarrow> Inr s
           | None \<Rightarrow>
               res_bind (infer_status_from_containers pick pods) (\<lambda>r.
                 case r of
                   Some s \<Rightarrow> Inr s
                 | None \<Rightarrow> Inl (ValueError (''Can'' @ [CHR 0x27] @ ''t determine what is the job status'')))))"

text \<open>One round of the Kubernetes watcher: the job or the error of the API, and the pods.\<close>

definition kubernetes_get_status ::
  "(string list \<Rightarrow> string) \<Rightarrow> k8s_job_status res \<Rightarrow> pod_status list res \<Rightarrow> benchmark_job_status res" where
  "kubernetes_get_status pick jb pods =
     (case jb of
        Inl e \<Rightarrow> if e = ApiException 404 then Inr JOB_NOT_FOUND else Inl e
      | Inr j \<Rightarrow> res_bind pods (infer_status pick j))"

section \<open>The status of a SageMaker job\<close>

definition is_not_found_error :: "string option \<Rightarrow> bool" where
  "is_not_found_error message =
     (case str_find (str_lower (case message of None \<Rightarrow> [] | Some m \<Rightarrow> m)) ''not found'' of
        Some i \<Rightarrow> i > 0
      | None \<Rightarrow> False)"

definition sm_secondary :: "benchmark_job_status dict" where
  "sm_secondary =
     [(''Starting'', SM_IN_PROGRESS_STARTING), (''LaunchingMLInstances'', SM_IN_PROGRESS_LAUNCHING_ML_INSTANCES),
      (''PreparingTrainingStack'', SM_IN_PROGRESS_PREP_TRAINING_STACK), (''Downloading'', SM_IN_PROGRESS_DOWNLOADING),
      (''DownloadingTrainingImage'', SM_IN_PROGRESS_DOWNLOADING_TRAINING_IMG), (''Training'', SM_IN_PROGRESS_TRAINING),
      (''Stopped'', SM_STOPPED), (''Stopping'', SM_STOPPING), (''MaxRuntimeExceeded'', SM_FAILED_MAX_RUNTIME_EXCEEDED),
      (''MaxWaitTimeExceeded'', SM_FAILED_MAX_WAITTIME_EXCEEDED), (''Uploading'', SM_IN_PROGRESS_UPLOADING),
      (''Interrupted'', SM_INTERRUPTED), (''Completed'', JS_SUCCEEDED), (''Failed'', JS_FAILED)]"

definition sm_primary :: "benchmark_job_status dict" where
  "sm_primary = [(''Failed'', JS_FAILED), (''Completed'', JS_SUCCEEDED), (''Stopped'', SM_STOPPED), (''Stopping'', SM_STOPPED)]"

definition get_benchmark_status :: "string \<Rightarrow> string \<Rightarrow> benchmark_job_status" where
  "get_benchmark_status primary_status secondary_status =
     (case dict_get sm_secondary secondary_status of
        Some s \<Rightarrow> s
      | None \<Rightarrow> (case dict_get sm_primary primary_status of Some s \<Rightarrow> s | None \<Rightarrow> SM_UNKNOWN))"

text \<open>The description of a training job, or the message of a client error.\<close>

definition sagemaker_get_status :: "(string option) + (string \<times> string) \<Rightarrow> benchmark_job_status res" where
  "sagemaker_get_status r =
     (case r of
        Inr (p, s) \<Rightarrow> Inr (get_benchmark_status p s)
      | Inl m \<Rightarrow> if is_not_found_error m then Inr JOB_NOT_FOUND
          else Inl (ClientError (case m of None \<Rightarrow> [] | Some x \<Rightarrow> x)))"

section \<open>The watching thread\<close>

datatype watcher_kind = KubernetesWatcher | SageMakerWatcher

text \<open>
  The watchers of the handler, and per job the variable \<open>job_start_time\<close> that its callback shares
  between its calls.
\<close>

record watch_world = kworld +
  ww_watchers :: "watcher_kind dict"
  ww_start_time :: "int option dict"

record watch_config =
  wc_emitter :: emitter
  wc_results_url :: "string \<Rightarrow> string \<Rightarrow> int option \<Rightarrow> int \<Rightarrow> string"
  wc_descriptor_env :: descriptor_env

definition metrics_available_message ::
  "watch_config \<Rightarrow> benchmark_event \<Rightarrow> int option \<Rightarrow> int option \<Rightarrow> string res" where
  "metrics_available_message cfg ev start end_time =
     res_bind (case (end_time, start) of
         (Some e, _) \<Rightarrow> Inr e
       | (None, Some s) \<Rightarrow> Inr (s + 60 * 60 * 1000)
       | (None, None) \<Rightarrow> Inl (TypeError ''unsupported operand type(s)'')) (\<lambda>e.
       Inr (''Metrics available for job '' @ action_id ev @ '' at '' @
         wc_results_url cfg (client_id ev) (action_id ev) start e))"

definition wstatus :: "watch_config \<Rightarrow> benchmark_event \<Rightarrow> status \<Rightarrow> string \<Rightarrow> (watch_world, unit) py" where
  "wstatus cfg ev st msg = send_status_message_event (wc_emitter cfg) ev st msg None"

definition start_time :: "string \<Rightarrow> watch_world \<Rightarrow> int option" where
  "start_time i w = (case dict_get (ww_start_time w) i of Some t \<Rightarrow> t | None \<Rightarrow> None)"

definition no_start_time :: "string \<Rightarrow> watch_world \<Rightarrow> bool" where
  "no_start_time i w = (case start_time i w of None \<Rightarrow> True | Some t \<Rightarrow> t = 0)"

definition send_metrics_message ::
  "watch_config \<Rightarrow> benchmark_event \<Rightarrow> string \<Rightarrow> int option \<Rightarrow> (watch_world, unit) py" where
  "send_metrics_message cfg ev i end_time = (\<lambda>w.
     case metrics_available_message cfg ev (start_time i w) end_time of
       Inl e \<Rightarrow> (Inl e, w)
     | Inr msg \<Rightarrow> wstatus cfg ev ST_METRICS_AVAILABLE msg w)"

text \<open>The two messages about metrics: when the job is first seen running, and when it succeeded.\<close>

definition metrics_on_start ::
  "watch_config \<Rightarrow> benchmark_event \<Rightarrow> string \<Rightarrow> benchmark_job_status \<Rightarrow> (watch_world, unit) py" where
  "metrics_on_start cfg ev i s = (\<lambda>w.
     if is_running s \<and> no_start_time i w then
       py_bind now_milliseconds (\<lambda>t.
         py_then (py_modify (\<lambda>w. w\<lparr>ww_start_time := dict_set (ww_start_time w) i (Some t)\<rparr>))
           (send_metrics_message cfg ev i None)) w
     else (Inr (), w))"

definition metrics_on_success ::
  "watch_config \<Rightarrow> benchmark_event \<Rightarrow> string \<Rightarrow> benchmark_job_status \<Rightarrow> (watch_world, unit) py" where
  "metrics_on_success cfg ev i s =
     (if s = JS_SUCCEEDED then py_bind now_milliseconds (\<lambda>t. send_metrics_message cfg ev i (Some t))
      else py_return ())"

definition forget_watcher :: "string \<Rightarrow> (watch_world, unit) py" where
  "forget_watcher i = (\<lambda>w.
     if dict_has (ww_watchers w) i then (Inr (), w\<lparr>ww_watchers := dict_del (ww_watchers w) i\<rparr>)
     else (Inl (KeyError i), w))"

definition status_callback ::
  "watch_config \<Rightarrow> benchmark_event \<Rightarrow> bool \<Rightarrow> string \<Rightarrow> benchmark_job_status \<Rightarrow> (watch_world, bool) py" where
  "status_callback cfg ev is_k8s_job i s =
     (let (st, message) = choose_status_from_benchmark_status s in
      py_then (wstatus cfg ev st message)
      (py_then
        (if is_k8s_job then py_then (metrics_on_start cfg ev i s) (metrics_on_success cfg ev i s)
         else py_return ())
      (if is_final s then
         py_then (forget_watcher i)
         (py_then (wstatus cfg ev st ''No longer watching benchmark'') (py_return True))
       else py_return False)))"

datatype watch_outcome = StillWatching | WatchDone | WatchFailed pyexc

text \<open>\<open>JobWatcher._thread_run_loop\<close> over what its rounds read; the exceptions end the thread.\<close>

fun thread_run_loop ::
  "(benchmark_job_status \<Rightarrow> ('w, bool) py) \<Rightarrow> benchmark_job_status res list \<Rightarrow> 'w \<Rightarrow> watch_outcome \<times> 'w" where
  "thread_run_loop callback [] w = (StillWatching, w)"
| "thread_run_loop callback (r # rs) w =
     (case r of
        Inl e \<Rightarrow> (WatchFailed e, w)
      | Inr s \<Rightarrow>
          (case callback s w of
             (Inl e, w') \<Rightarrow> (WatchFailed e, w')
           | (Inr stop_watching, w') \<Rightarrow>
               if stop_watching then (WatchDone, w') else thread_run_loop callback rs w'))"

section \<open>The handler\<close>

definition is_sage_maker_job :: "pyval dict \<Rightarrow> bool" where
  "is_sage_maker_job toml_contents =
     (case dict_get toml_contents ''info'' of
        Some (PDict inf_d) \<Rightarrow> dict_get inf_d ''execution_engine'' = Some (PStr ''aws.sagemaker'')
      | _ \<Rightarrow> False)"

definition watch_handle_event :: "watch_config \<Rightarrow> benchmark_event \<Rightarrow> executor_payload \<Rightarrow> (watch_world, unit) py" where
  "watch_handle_event cfg ev p = (\<lambda>w.
     let i = job_id (job p); tc = contents (toml p) in
     if dict_has (ww_watchers w) i then (Inr (), w)
     else case descriptor_from_dict (wc_descriptor_env cfg) tc None of
       Inl e \<Rightarrow> (Inl e, w)
     | Inr d \<Rightarrow>
         if strategy (hardware d) \<notin> {SINGLE_NODE, INFERENCE} then
           wstatus cfg ev ST_PENDING ([CHR 0x27] @ strategy_value (strategy (hardware d)) @ [CHR 0x27] @
             '' strategy is not currently supported.'') w
         else
           py_then
             (wstatus cfg ev ST_PENDING
               (if is_sage_maker_job tc then ''Watching SageMaker benchmark'' else ''Watching Kubernetes benchmark''))
             (py_modify (\<lambda>w. w\<lparr>ww_watchers := dict_set (ww_watchers w) i
                  (if is_sage_maker_job tc then SageMakerWatcher else KubernetesWatcher),
                ww_start_time := dict_set (ww_start_time w) i None\<rparr>)) w)"

definition watch_callback :: "watch_config \<Rightarrow> nat \<Rightarrow> benchmark_event \<Rightarrow> (watch_world, unit) py" where
  "watch_callback cfg cb ev =
     (case payload ev of
        ExecutorPayload p \<Rightarrow> watch_handle_event cfg ev p
      | _ \<Rightarrow> py_raise (AttributeError ''job''))"

section \<open>Facts about the inferred status\<close>

text \<open>What a state of the collected dictionary stands for.\<close>

definition has_state :: "container_state \<Rightarrow> container_status \<Rightarrow> bool" where
  "has_state st c = (case st of
      CS_FAILED \<Rightarrow> (\<exists>n. cs_terminated c = Some n \<and> n \<noteq> 0)
    | CS_PENDING \<Rightarrow> cs_waiting c
    | CS_RUNNING \<Rightarrow> cs_running c)"

definition states_ok :: "container_status list \<Rightarrow> (container_state \<times> string list) list \<Rightarrow> bool" where
  "states_ok cs d \<longleftrightarrow> (\<forall>(st, ns) \<in> set d. ns \<noteq> [] \<and> (\<forall>n \<in> set ns. \<exists>c \<in> set cs. cs_name c = n \<and> has_state st c))"

lemma set_dict_set: "(k, x) \<in> set (dict_set d a v) \<Longrightarrow> (k, x) = (a, v) \<or> (k, x) \<in> set d"
  by (induction d a v rule: dict_set.induct) (auto split: if_splits)

lemma states_ok_add:
  assumes d: "states_ok cs d" and c: "c \<in> set cs" "has_state st c"
  shows "states_ok cs (add_state st (cs_name c) d)"
  unfolding states_ok_def
proof (intro ballI, clarify)
  fix k ns
  assume "(k, ns) \<in> set (add_state st (cs_name c) d)"
  then consider "(k, ns) \<in> set d"
    | "k = st" "ns = (case dict_get d st of None \<Rightarrow> [] | Some ns \<Rightarrow> ns) @ [cs_name c]"
    unfolding add_state_def by (auto dest: set_dict_set)
  then show "ns \<noteq> [] \<and> (\<forall>n \<in> set ns. \<exists>c \<in> set cs. cs_name c = n \<and> has_state k c)"
  proof cases
    case 1
    then show ?thesis using d unfolding states_ok_def by blast
  next
    case 2
    then show ?thesis
      using d c dict_get_SomeD [of d st] unfolding states_ok_def by (cases "dict_get d st") fastforce+
  qed
qed

lemma states_ok_collect:
  "states_ok cs d \<Longrightarrow> set ss \<subseteq> set cs \<Longrightarrow> states_ok cs (collect_container_states ss d)"
proof (induction ss arbitrary: d)
  case Nil
  then show ?case by simp
next
  case (Cons s ss)
  define d1 where "d1 = (case cs_terminated s of
    Some code \<Rightarrow> if code \<noteq> 0 then add_state CS_FAILED (cs_name s) d else d | None \<Rightarrow> d)"
  define d2 where "d2 = (if cs_waiting s then add_state CS_PENDING (cs_name s) d1 else d1)"
  define d3 where "d3 = (if cs_running s then add_state CS_RUNNING (cs_name s) d2 else d2)"
  have s: "s \<in> set cs" using Cons.prems by simp
  have "states_ok cs d1" unfolding d1_def
    using Cons.prems(1) states_ok_add [OF Cons.prems(1) s, of CS_FAILED] by (auto simp: has_state_def split: option.splits)
  then have "states_ok cs d2" unfolding d2_def using states_ok_add [OF _ s, of d1 CS_PENDING] by (simp add: has_state_def)
  then have "states_ok cs d3" unfolding d3_def using states_ok_add [OF _ s, of d2 CS_RUNNING] by (simp add: has_state_def)
  moreover have "collect_container_states (s # ss) d = collect_container_states ss d3"
    unfolding d3_def d2_def d1_def by (simp only: collect_container_states.simps Let_def)
  ultimately show ?case using Cons.IH [of d3] Cons.prems(2) by simp
qed

lemma states_ok_start: "states_ok cs (collect_container_states cs [])"
  by (rule states_ok_collect) (simp_all add: states_ok_def)

lemma infer_init_justified:
  "infer_init d = Some s \<Longrightarrow> states_ok cs d \<Longrightarrow>
    s \<in> {PENDING_AT_INIT_CONTAINERS, RUNNING_AT_INIT_CONTAINERS, FAILED_AT_INIT_CONTAINERS} \<and>
    (s = FAILED_AT_INIT_CONTAINERS \<longrightarrow> (\<exists>c \<in> set cs. has_state CS_FAILED c))"
  by (induction d rule: infer_init.induct) (fastforce simp: states_ok_def neq_Nil_conv)+

lemma infer_main_justified:
  assumes pick: "\<And>ns. ns \<noteq> [] \<Longrightarrow> pick ns \<in> set ns"
  shows "infer_main pick d = Some s \<Longrightarrow> states_ok cs d \<Longrightarrow>
    s \<in> {PENDING_AT_BENCHMARK_CONTAINER, PENDING_AT_SIDECAR_CONTAINER, FAILED_AT_BENCHMARK_CONTAINER,
      FAILED_AT_SIDECAR_CONTAINER} \<and>
    (s = FAILED_AT_BENCHMARK_CONTAINER \<longrightarrow>
      (\<exists>c \<in> set cs. cs_name c = BENCHMARK_CONTAINER_NAME \<and> has_state CS_FAILED c)) \<and>
    (s = FAILED_AT_SIDECAR_CONTAINER \<longrightarrow>
      (\<exists>c \<in> set cs. cs_name c \<noteq> BENCHMARK_CONTAINER_NAME \<and> has_state CS_FAILED c))"
proof (induction d)
  case Nil
  then show ?case by simp
next
  case (Cons x d)
  obtain st ns where x: "x = (st, ns)" by (cases x)
  from Cons.prems x have ns: "ns \<noteq> []" and named: "\<And>n. n \<in> set ns \<Longrightarrow> \<exists>c \<in> set cs. cs_name c = n \<and> has_state st c"
    and d: "states_ok cs d" by (auto simp: states_ok_def)
  from named [OF pick [OF ns]] obtain c where c: "c \<in> set cs" "cs_name c = pick ns" "has_state st c" by blast
  show ?case
  proof (cases st)
    case CS_FAILED
    with Cons.prems(1) x c show ?thesis by (auto split: if_splits intro!: bexI [of _ c])
  next
    case CS_PENDING
    with Cons.prems(1) x show ?thesis by (auto split: if_splits)
  next
    case CS_RUNNING
    with Cons x d show ?thesis by simp
  qed
qed

section \<open>Facts about the watching thread\<close>

lemma keeps_wstatus [intro]: "keeps emits (wstatus cfg ev st msg)"
  by (simp add: wstatus_def)

lemma keeps_watch_handle_event: "keeps emits (watch_handle_event cfg ev p)"
proof -
  have "keeps emits (py_modify (\<lambda>w. w\<lparr>ww_watchers := f w, ww_start_time := g w\<rparr>))" for f g
    by (auto simp: keeps_def py_modify_def intro: emits_same_log)
  then have "keeps emits (py_then (wstatus cfg ev st m) (py_modify (\<lambda>w. w\<lparr>ww_watchers := f w, ww_start_time := g w\<rparr>)))"
    for st m f g by (intro klog.keeps_then keeps_wstatus)
  moreover have "keeps emits (wstatus cfg ev st m)" for st m by (rule keeps_wstatus)
  ultimately show ?thesis
    by (auto simp: watch_handle_event_def keeps_def Let_def klog.refl split: sum.splits)
qed

interpretation watcher_service: kafka_callbacks "watch_callback cfg" "\<lambda>_. py_return ()"
proof
  fix cb e
  show "keeps emits (watch_callback cfg cb e)"
    by (cases "payload e") (auto simp: watch_callback_def intro: keeps_watch_handle_event klog.keeps_raise)
  show "keeps emits (py_return () :: (watch_world, unit) py)" by (rule klog.keeps_return)
qed

definition status_of :: "kmessage \<Rightarrow> status option" where
  "status_of m = (case payload (km_value m) of StatusMessagePayload _ s _ \<Rightarrow> Some s | _ \<Rightarrow> None)"

definition reports :: "watch_config \<Rightarrow> bool" where
  "reports cfg = truthy_str (em_status_topic (wc_emitter cfg))"

lemma wstatus_run:
  assumes "reports cfg"
  shows "\<exists>w' m. wstatus cfg ev st msg w = (Inr (), w') \<and> sent w' = sent w @ [m] \<and> status_of m = Some st \<and>
    ww_watchers w' = ww_watchers w \<and> ww_start_time w' = ww_start_time w"
  using assms by (auto simp: reports_def wstatus_def send_status_message_event_run send_event_run status_of_def)

text \<open>\<open>extends w m\<close>: \<open>m\<close> returns, only appends to the log, and leaves the watchers alone.\<close>

definition extends :: "watch_world \<Rightarrow> (watch_world, unit) py \<Rightarrow> bool" where
  "extends w m \<longleftrightarrow> (\<exists>w' ms. m w = (Inr (), w') \<and> sent w' = sent w @ ms \<and> ww_watchers w' = ww_watchers w)"

lemma extends_then:
  assumes "extends w m" "\<And>w. extends w n"
  shows "extends w (py_then m n)"
proof -
  obtain w1 a where m: "m w = (Inr (), w1)" "sent w1 = sent w @ a" "ww_watchers w1 = ww_watchers w"
    using assms(1) unfolding extends_def by blast
  obtain w2 b where "n w1 = (Inr (), w2)" "sent w2 = sent w1 @ b" "ww_watchers w2 = ww_watchers w1"
    using assms(2) unfolding extends_def by blast
  with m show ?thesis by (simp add: extends_def py_then_def py_bind_def)
qed

lemma extends_return: "extends w (py_return ())"
  by (simp add: extends_def py_return_def)

lemma extends_metrics_message:
  assumes "reports cfg" "e \<noteq> None \<or> start_time i w \<noteq> None"
  shows "extends w (send_metrics_message cfg ev i e)"
  using assms(2) wstatus_run [OF assms(1), of ev ST_METRICS_AVAILABLE]
  by (fastforce simp: extends_def send_metrics_message_def metrics_available_message_def split: option.splits)

lemma extends_metrics_on_start:
  assumes "reports cfg"
  shows "extends w (metrics_on_start cfg ev i s)"
proof (cases "is_running s \<and> no_start_time i w")
  case True
  let ?w = "w\<lparr>clock_reads := Suc (clock_reads w),
    ww_start_time := dict_set (ww_start_time w) i (Some (clock w (clock_reads w)))\<rparr>"
  have "extends ?w (send_metrics_message cfg ev i None)"
    by (rule extends_metrics_message [OF assms]) (simp add: start_time_def)
  with True show ?thesis
    by (simp add: extends_def metrics_on_start_def now_milliseconds_def py_bind_def py_then_def py_modify_def)
next
  case False
  then show ?thesis by (auto simp: extends_def metrics_on_start_def)
qed

lemma extends_metrics_on_success:
  assumes "reports cfg"
  shows "extends w (metrics_on_success cfg ev i s)"
proof (cases "s = JS_SUCCEEDED")
  case True
  have "extends (w\<lparr>clock_reads := Suc (clock_reads w)\<rparr>)
      (send_metrics_message cfg ev i (Some (clock w (clock_reads w))))"
    by (rule extends_metrics_message [OF assms]) simp
  with True show ?thesis by (simp add: extends_def metrics_on_success_def now_milliseconds_def py_bind_def)
qed (simp add: metrics_on_success_def extends_return)

text \<open>One round: the status is sent first, and last as well if it is final.\<close>

lemma status_callback_run:
  assumes st: "reports cfg" and here: "dict_has (ww_watchers w) i"
  shows "\<exists>w' ms. status_callback cfg ev k8s i s w = (Inr (is_final s), w') \<and> sent w' = sent w @ ms \<and>
    ms \<noteq> [] \<and> status_of (hd ms) = Some (fst (choose_status_from_benchmark_status s)) \<and>
    (is_final s \<longrightarrow> status_of (last ms) = Some (fst (choose_status_from_benchmark_status s))) \<and>
    ww_watchers w' = (if is_final s then dict_del (ww_watchers w) i else ww_watchers w)"
proof -
  obtain s0 m0 where c: "choose_status_from_benchmark_status s = (s0, m0)"
    by (cases "choose_status_from_benchmark_status s")
  obtain w1 a where w1: "wstatus cfg ev s0 m0 w = (Inr (), w1)" "sent w1 = sent w @ [a]" "status_of a = Some s0"
    "ww_watchers w1 = ww_watchers w" using wstatus_run [OF st] by blast
  have "extends w1 (if k8s then py_then (metrics_on_start cfg ev i s) (metrics_on_success cfg ev i s) else py_return ())"
    by (simp add: extends_then extends_metrics_on_start [OF st] extends_metrics_on_success [OF st] extends_return)
  then obtain w2 b where w2: "(if k8s then py_then (metrics_on_start cfg ev i s) (metrics_on_success cfg ev i s)
      else py_return ()) w1 = (Inr (), w2)" "sent w2 = sent w1 @ b" "ww_watchers w2 = ww_watchers w1"
    unfolding extends_def by blast
  show ?thesis
  proof (cases "is_final s")
    case False
    with w1 w2 c show ?thesis by (simp add: status_callback_def py_then_def py_bind_def py_return_def)
  next
    case True
    let ?w3 = "w2\<lparr>ww_watchers := dict_del (ww_watchers w2) i\<rparr>"
    obtain w4 z where "wstatus cfg ev s0 ''No longer watching benchmark'' ?w3 = (Inr (), w4)"
      "sent w4 = sent ?w3 @ [z]" "status_of z = Some s0" "ww_watchers w4 = ww_watchers ?w3"
      using wstatus_run [OF st] by blast
    with w1 w2 c True here show ?thesis
      by (intro exI [of _ w4] exI [of _ "a # b @ [z]"])
        (simp add: status_callback_def forget_watcher_def py_then_def py_bind_def py_return_def)
  qed
qed

lemma thread_prefix:
  assumes st: "reports cfg"
  shows "dict_has (ww_watchers w) i \<Longrightarrow> \<forall>s \<in> set ss. \<not> is_final s \<Longrightarrow>
    \<exists>w' ms. thread_run_loop (status_callback cfg ev k8s i) (map Inr ss @ rs) w =
        thread_run_loop (status_callback cfg ev k8s i) rs w' \<and>
      sent w' = sent w @ ms \<and> length ss \<le> length ms \<and> ww_watchers w' = ww_watchers w"
proof (induction ss arbitrary: w)
  case Nil
  then show ?case by auto
next
  case (Cons s ss)
  from status_callback_run [OF st Cons.prems(1), of ev k8s s] Cons.prems(2) obtain w1 a where
    w1: "status_callback cfg ev k8s i s w = (Inr False, w1)" "sent w1 = sent w @ a" "a \<noteq> []"
      "ww_watchers w1 = ww_watchers w" by auto
  from Cons.IH [of w1] Cons.prems w1(4) obtain w2 b where
    "thread_run_loop (status_callback cfg ev k8s i) (map Inr ss @ rs) w1 =
        thread_run_loop (status_callback cfg ev k8s i) rs w2"
    "sent w2 = sent w1 @ b" "length ss \<le> length b" "ww_watchers w2 = ww_watchers w1" by auto
  with w1 show ?case
    by (intro exI [of _ w2] exI [of _ "a @ b"]) (auto simp: neq_Nil_conv)
qed

section \<open>Properties\<close>



text \<open>
  (C33) A watching thread reports every round and ends at the first final status: it has then sent at
  least one message per round, the last one with that status, and the handler no longer lists the
  job, while the watchers of other jobs are untouched.
\<close>

theorem watch_loop_ends:
  assumes st: "reports cfg" and here: "dict_has (ww_watchers w) i"
    and ss: "\<forall>s \<in> set ss. \<not> is_final s" and fin: "is_final s"
  shows "\<exists>w' ms. thread_run_loop (status_callback cfg ev k8s i) (map Inr ss @ Inr s # rs) w = (WatchDone, w') \<and>
    sent w' = sent w @ ms \<and> length ss < length ms \<and>
    status_of (last ms) = Some (fst (choose_status_from_benchmark_status s)) \<and>
    ww_watchers w' = dict_del (ww_watchers w) i"
proof -
  from thread_prefix [OF st here ss] obtain w1 a where
    w1: "thread_run_loop (status_callback cfg ev k8s i) (map Inr ss @ Inr s # rs) w =
        thread_run_loop (status_callback cfg ev k8s i) (Inr s # rs) w1"
      "sent w1 = sent w @ a" "length ss \<le> length a" "ww_watchers w1 = ww_watchers w" by blast
  from status_callback_run [OF st, of w1 i ev k8s s] here w1(4) fin obtain w2 b where
    "status_callback cfg ev k8s i s w1 = (Inr True, w2)" "sent w2 = sent w1 @ b" "b \<noteq> []"
    "status_of (last b) = Some (fst (choose_status_from_benchmark_status s))"
    "ww_watchers w2 = dict_del (ww_watchers w1) i" by auto
  with w1 show ?thesis
    by (intro exI [of _ w2] exI [of _ "a @ b"]) (auto simp: neq_Nil_conv)
qed

text \<open>
  A watching thread that meets an error of the API ends without a message, and the handler still
  lists the job, so that a later event for the job is ignored.
\<close>

theorem watch_failure_keeps_watcher:
  assumes st: "reports cfg" and here: "dict_has (ww_watchers w) (job_id (job p))"
    and ss: "\<forall>s \<in> set ss. \<not> is_final s"
  shows "\<exists>w'. thread_run_loop (status_callback cfg ev k8s (job_id (job p))) (map Inr ss @ Inl e # rs) w = (WatchFailed e, w') \<and>
    ww_watchers w' = ww_watchers w \<and> watch_handle_event cfg ev' p w' = (Inr (), w')"
proof -
  from thread_prefix [OF st here ss] obtain w1 where
    "thread_run_loop (status_callback cfg ev k8s (job_id (job p))) (map Inr ss @ Inl e # rs) w =
        thread_run_loop (status_callback cfg ev k8s (job_id (job p))) (Inl e # rs) w1" "ww_watchers w1 = ww_watchers w"
    by blast
  with here show ?thesis by (auto simp: watch_handle_event_def Let_def)
qed

text \<open>
  The statuses that end a watch are those reported as succeeded, failed or cancelled, except that
  a job without a pod is reported as failed although it is still watched.
\<close>

theorem final_status_reported:
  "is_final s \<longleftrightarrow> fst (choose_status_from_benchmark_status s) \<in> {ST_SUCCEEDED, ST_FAILED, ST_CANCELED} \<and>
     s \<noteq> NO_POD_SCHEDULED"
  by (cases s) (simp_all add: is_final_def)

definition demo_watch :: watch_config where
  "demo_watch = \<lparr>wc_emitter = sample_emitter, wc_results_url = (\<lambda>c a _ _. ''http://g/'' @ a), wc_descriptor_env = demo_env\<rparr>"

definition demo_watching :: watch_world where
  "demo_watching = kworld.extend (idle_world [])
     \<lparr>ww_watchers = [(''j'', KubernetesWatcher)], ww_start_time = [(''j'', None)]\<rparr>"

theorem watch_loop_ends_witness:
  "\<exists>w' ms. thread_run_loop (status_callback demo_watch (sample_event ''a'' (AnyPayload PNone)) True ''j'')
      (map Inr [PENDING_NODE_SCALING, RUNNING_AT_MAIN_CONTAINERS] @ Inr JS_SUCCEEDED # []) demo_watching = (WatchDone, w') \<and>
    sent w' = sent demo_watching @ ms \<and> length [PENDING_NODE_SCALING, RUNNING_AT_MAIN_CONTAINERS] < length ms \<and>
    status_of (last ms) = Some (fst (choose_status_from_benchmark_status JS_SUCCEEDED)) \<and>
    ww_watchers w' = dict_del (ww_watchers demo_watching) ''j''"
  by (rule watch_loop_ends)
    (simp_all add: reports_def demo_watch_def sample_emitter_def demo_watching_def kworld.extend_def dict_has_def is_final_def)

definition demo_job_payload :: executor_payload where
  "demo_job_payload = \<lparr>toml = \<lparr>contents = [], doc = [], sha1 = [], descriptor_filename = None, verified = True\<rparr>,
     datasets = [], models = [], scripts = [], job = \<lparr>job_id = ''j'', job_output = None, job_extras = []\<rparr>\<rparr>"

theorem watch_failure_keeps_watcher_witness:
  "\<exists>w'. thread_run_loop (status_callback demo_watch (sample_event ''a'' (AnyPayload PNone)) True (job_id (job demo_job_payload)))
      (map Inr [RUNNING_AT_MAIN_CONTAINERS] @ Inl (ApiException 500) # []) demo_watching = (WatchFailed (ApiException 500), w') \<and>
    ww_watchers w' = ww_watchers demo_watching \<and>
    watch_handle_event demo_watch (sample_event ''a'' (AnyPayload PNone)) demo_job_payload w' = (Inr (), w')"
  by (rule watch_failure_keeps_watcher)
    (simp_all add: reports_def demo_watch_def sample_emitter_def demo_watching_def kworld.extend_def dict_has_def
      is_final_def demo_job_payload_def)

end
