(* ===== verification/Cmd_Callback.thy ===== *)
theory Cmd_Callback
  imports Kafka_Service
begin

text \<open>
  \<open>kafka-utils/src/bai_kafka_utils/cmd_callback.py\<close>: a command request calls the method of that name
  of a command object, with arguments from the request and from the event, and is answered with the
  outcome.

  A method is its parameter list, with the parameters that have a default marked, and its body as a
  function of the bound arguments.  The call follows Python's rules for methods without variadic or
  keyword-only parameters; a call that does not bind raises \<open>TypeError\<close> before the body runs.
\<close>

section \<open>Methods and arguments\<close>

datatype cmd_value =
    CV pyval
  | CVEvent benchmark_event
  | CVService
  | CVField string

record 'w cmd_method =
  cm_params :: "(string \<times> bool) list"
  cm_body :: "cmd_value dict \<Rightarrow> ('w, pyval) py"

datatype 'w cmd_member = CmdMethod "'w cmd_method" | CmdAttribute

text \<open>\<open>vars(event)\<close>; the fields that hold objects are kept by name.\<close>

definition event_vars :: "benchmark_event \<Rightarrow> cmd_value dict" where
  "event_vars e =
     [(''action_id'', CV (PStr (action_id e))),
      (''parent_action_id'', CV (case parent_action_id e of None \<Rightarrow> PNone | Some p \<Rightarrow> PStr p)),
      (''message_id'', CV (PStr (message_id e))), (''client_id'', CV (PStr (client_id e))),
      (''client_version'', CV (PStr (client_version e))), (''client_username'', CV (PStr (client_username e))),
      (''authenticated'', CV (PBool (authenticated e))), (''tstamp'', CV (PInt (tstamp e))),
      (''visited'', CVField ''visited''), (''type'', CV (PStr (ev_type e))), (''payload'', CVField ''payload'')]"

definition request_pos :: "cmd_args \<Rightarrow> cmd_value list" where
  "request_pos args = (case args of PosArgs xs \<Rightarrow> map CV xs | _ \<Rightarrow> [])"

definition request_kw :: "cmd_args \<Rightarrow> cmd_value dict" where
  "request_kw args = (case args of KwArgs d \<Rightarrow> map (\<lambda>(k, v). (k, CV v)) d | _ \<Rightarrow> [])"

definition command_kwargs :: "benchmark_event \<Rightarrow> string list \<Rightarrow> cmd_args \<Rightarrow> cmd_value dict" where
  "command_kwargs e names args =
     (let kw = request_kw args;
          kw = (if ''event'' \<in> set names then dict_set kw ''event'' (CVEvent e) else kw);
          kw = (if ''kafka_service'' \<in> set names then dict_set kw ''kafka_service'' CVService else kw);
          params = filter (\<lambda>p. \<not> dict_has kw p) (drop (min (length (request_pos args)) (length names)) names)
      in dict_update kw (filter (\<lambda>(k, _). k \<in> set params) (event_vars e)))"

text \<open>Python's binding of a call.\<close>

definition call_binds :: "(string \<times> bool) list \<Rightarrow> cmd_value list \<Rightarrow> cmd_value dict \<Rightarrow> bool" where
  "call_binds ps pos kw \<longleftrightarrow>
     length pos \<le> length ps \<and>
     list_all (\<lambda>(k, _). k \<in> set (map fst (drop (length pos) ps))) kw \<and>
     list_all (\<lambda>(p, dflt). dflt \<or> dict_has kw p) (drop (length pos) ps)"

definition call_method :: "'w cmd_method \<Rightarrow> cmd_value list \<Rightarrow> cmd_value dict \<Rightarrow> ('w, pyval) py" where
  "call_method m pos kw =
     (if call_binds (cm_params m) pos kw then cm_body m (zip (map fst (cm_params m)) pos @ kw)
      else py_raise (TypeError ''arguments do not match the signature''))"

section \<open>The callback\<close>

definition CODE_SUCCESS :: int where "CODE_SUCCESS = 0"

definition CODE_COMMAND_ERROR :: int where "CODE_COMMAND_ERROR = 1"

definition CODE_CLIENT_ERROR :: int where "CODE_CLIENT_ERROR = 2"

definition capitalize :: "string \<Rightarrow> string" where
  "capitalize s = (case s of [] \<Rightarrow> [] | c # cs \<Rightarrow> upper_char c # str_lower cs)"

fun is_type_error :: "pyexc \<Rightarrow> bool" where
  "is_type_error (TypeError _) = True"
| "is_type_error _ = False"

record 'w cmd_callback =
  cc_members :: "'w cmd_member dict"
  cc_return_topic :: string
  cc_emitter :: emitter
  cc_exc_str :: "pyexc \<Rightarrow> string"

text \<open>Code, message and result of the response.\<close>

definition cmd_outcome :: "(pyexc \<Rightarrow> string) \<Rightarrow> string \<Rightarrow> pyval res \<Rightarrow> int \<times> string \<times> pyval" where
  "cmd_outcome exc_str command r =
     (case r of
        Inr v \<Rightarrow> (CODE_SUCCESS, capitalize command @ '' command processed successfully'', v)
      | Inl e \<Rightarrow>
          if is_type_error e
          then (CODE_CLIENT_ERROR, capitalize command @ '' command failed: Invalid args '' @ exc_str e, PNone)
          else (CODE_COMMAND_ERROR, capitalize command @ '' command failed: '' @ exc_str e, PNone))"

definition cmd_handle_event ::
  "'a kworld_scheme cmd_callback \<Rightarrow> benchmark_event \<Rightarrow> ('a kworld_scheme, unit) py" where
  "cmd_handle_event C e =
     (case payload e of
        CommandRequestPayload command args \<Rightarrow>
          (case dict_get (cc_members C) command of
             Some (CmdMethod m) \<Rightarrow> (\<lambda>w.
               case call_method m (request_pos args) (command_kwargs e (map fst (cm_params m)) args) w of
                 (r, w') \<Rightarrow>
                   (let (code, msg, result) = cmd_outcome (cc_exc_str C) command r
                    in send_event (cc_emitter C) (command_response_event e code msg result) (cc_return_topic C) w'))
           | _ \<Rightarrow> py_return ())
      | _ \<Rightarrow> py_return ())"

section \<open>Properties\<close>

lemma keeps_cmd_handle_event:
  assumes "\<And>n m b. dict_get (cc_members C) n = Some (CmdMethod m) \<Longrightarrow> keeps emits (cm_body m b)"
  shows "keeps emits (cmd_handle_event C e)"
proof -
  have "emits w (snd (cmd_handle_event C e w))" for w
  proof (cases "\<exists>command args m. payload e = CommandRequestPayload command args \<and>
      dict_get (cc_members C) command = Some (CmdMethod m)")
    case False
    then show ?thesis by (auto simp: cmd_handle_event_def klog.refl py_return_def split: payload.splits option.splits cmd_member.splits)
  next
    case True
    then obtain command args m where p: "payload e = CommandRequestPayload command args"
      and m: "dict_get (cc_members C) command = Some (CmdMethod m)" by blast
    let ?call = "call_method m (request_pos args) (command_kwargs e (map fst (cm_params m)) args)"
    have "keeps emits ?call" using assms [OF m] by (simp add: call_method_def klog.keeps_raise)
    then have "emits w (snd (?call w))" by (simp add: keeps_def)
    moreover have "emits v (snd (send_event em ev t v))" for em ev t and v :: "'a kworld_scheme"
      using keeps_send_event [of em ev t] unfolding keeps_def by blast
    ultimately show ?thesis
      using p m by (auto simp: cmd_handle_event_def split: prod.splits intro: klog.trans)
  qed
  then show ?thesis by (simp add: keeps_def)
qed

text \<open>
  (C36) A request for a method is answered exactly once, whatever the method does: the response goes to
  the return topic, refers to the request, and has code 0 with the result, 2 after a \<open>TypeError\<close> and
  1 after any other exception.  Requests for anything else are left to other services.
\<close>

theorem command_answered_once:
  assumes p: "payload e = CommandRequestPayload command args"
    and m: "dict_get (cc_members C) command = Some (CmdMethod m)"
  shows "\<exists>r w1 code msg result resp.
    call_method m (request_pos args) (command_kwargs e (map fst (cm_params m)) args) w = (r, w1) \<and>
    fst (cmd_handle_event C e w) = Inr () \<and>
    sent (snd (cmd_handle_event C e w)) = sent w1 @ [resp] \<and> km_topic resp = cc_return_topic C \<and>
    payload (km_value resp) = CommandResponsePayload code msg e result \<and>
    code = (case r of Inr _ \<Rightarrow> 0 | Inl x \<Rightarrow> if is_type_error x then 2 else 1) \<and>
    result = (case r of Inr v \<Rightarrow> v | Inl _ \<Rightarrow> PNone)"
proof -
  obtain r w1 where c: "call_method m (request_pos args) (command_kwargs e (map fst (cm_params m)) args) w = (r, w1)"
    by (cases "call_method m (request_pos args) (command_kwargs e (map fst (cm_params m)) args) w")
  with p m show ?thesis
    by (cases r) (auto simp: cmd_handle_event_def cmd_outcome_def send_event_run CODE_SUCCESS_def
      CODE_COMMAND_ERROR_def CODE_CLIENT_ERROR_def)
qed

text \<open>The signature of \<open>cancel\<close> in the fetcher and the executor.\<close>

definition cancel_params :: "(string \<times> bool) list" where
  "cancel_params = [(''kafka_service'', False), (''event'', False), (''client_id'', False),
     (''target_action_id'', False), (''cascade'', True)]"

definition echo_client :: "kworld cmd_callback" where
  "echo_client = \<lparr>cc_members = [(''cancel'', CmdMethod \<lparr>cm_params = cancel_params,
       cm_body = (\<lambda>b. py_return (case dict_get b ''client_id'' of Some (CV v) \<Rightarrow> v | _ \<Rightarrow> PNone))\<rparr>)],
     cc_return_topic = ''CMD_RETURN'', cc_emitter = sample_emitter, cc_exc_str = (\<lambda>_. ''error'')\<rparr>"

definition cancel_request :: "pyval dict \<Rightarrow> benchmark_event" where
  "cancel_request args = sample_event ''a'' (CommandRequestPayload ''cancel'' (KwArgs args))"

theorem command_answered_once_witness:
  "\<exists>resp. sent (snd (cmd_handle_event echo_client (cancel_request [(''target_action_id'', PStr ''t'')]) (idle_world []))) = [resp] \<and>
    km_topic resp = ''CMD_RETURN''"
proof -
  have p: "payload (cancel_request [(''target_action_id'', PStr ''t'')]) =
      CommandRequestPayload ''cancel'' (KwArgs [(''target_action_id'', PStr ''t'')])"
    by (simp add: cancel_request_def sample_event_def)
  have m: "dict_get (cc_members echo_client) ''cancel'' = Some (CmdMethod \<lparr>cm_params = cancel_params,
      cm_body = (\<lambda>b. py_return (case dict_get b ''client_id'' of Some (CV v) \<Rightarrow> v | _ \<Rightarrow> PNone))\<rparr>)"
    by (simp add: echo_client_def)
  from command_answered_once [OF p m, of "idle_world []"] show ?thesis
    by (auto simp: call_method_def py_return_def py_raise_def idle_world_def echo_client_def split: if_splits)
qed

lemma dict_get_filter: "dict_get (filter (\<lambda>(k, _). k \<in> K) d) a = (if a \<in> K then dict_get d a else None)"
  by (induction d) auto

lemma dict_wf_filter: "dict_wf d \<Longrightarrow> dict_wf (filter (\<lambda>(k, _). k \<in> K) d)"
  by (induction d) (auto simp: dict_wf_def)

lemma event_vars_client: "dict_get (event_vars e) ''client_id'' = Some (CV (PStr (client_id e)))"
  by (simp add: event_vars_def)

lemma request_kw_get: "dict_get (request_kw (KwArgs d)) k = map_option CV (dict_get d k)"
  by (induction d) (auto simp: request_kw_def)

text \<open>
  The client on whose behalf a command runs is the client of the event only if the request does
  not name one: a request with an argument \<open>client_id\<close> is run for the client it names.
\<close>

theorem command_client_id:
  assumes n: "''client_id'' \<in> set names"
  shows "dict_get (command_kwargs e names (KwArgs d)) ''client_id'' =
    Some (CV (case dict_get d ''client_id'' of None \<Rightarrow> PStr (client_id e) | Some v \<Rightarrow> v))"
proof -
  define kw where "kw = (let kw = request_kw (KwArgs d);
      kw = (if ''event'' \<in> set names then dict_set kw ''event'' (CVEvent e) else kw)
    in if ''kafka_service'' \<in> set names then dict_set kw ''kafka_service'' CVService else kw)"
  have g: "dict_get kw ''client_id'' = map_option CV (dict_get d ''client_id'')"
    by (simp add: kw_def Let_def request_kw_get)
  have c: "command_kwargs e names (KwArgs d) =
      dict_update kw (filter (\<lambda>(k, _). k \<in> set (filter (\<lambda>p. \<not> dict_has kw p) names)) (event_vars e))"
    by (simp add: command_kwargs_def kw_def Let_def request_pos_def)
  have wf: "dict_wf (filter (\<lambda>(k, _). k \<in> set (filter (\<lambda>p. \<not> dict_has kw p) names)) (event_vars e))"
    by (rule dict_wf_filter) (simp add: event_vars_def dict_wf_def)
  have u: "dict_get (command_kwargs e names (KwArgs d)) ''client_id'' =
      (if \<not> dict_has kw ''client_id'' then Some (CV (PStr (client_id e))) else dict_get kw ''client_id'')"
    unfolding c dict_get_update [OF wf] dict_get_filter using n by (simp add: event_vars_client)
  show ?thesis by (cases "dict_get d ''client_id''") (simp_all add: u g dict_has_iff)
qed

theorem command_client_id_witness:
  "dict_get (command_kwargs (cancel_request []) (map fst cancel_params)
     (KwArgs [(''client_id'', PStr ''victim''), (''target_action_id'', PStr ''t'')])) ''client_id'' = Some (CV (PStr ''victim''))"
  by (subst command_client_id) (simp_all add: cancel_params_def)

end
