(* ===== verification/Py_Text.thy ===== *)
theory Py_Text
  imports Py_Strings
begin

text \<open>
  Text functions of Python's standard library that the transpiler and the metrics sidecars use:
  \<open>repr\<close> and \<open>str\<close> of plain data, \<open>str.format\<close> with named fields, \<open>shlex.split\<close>,
  \<open>json.dumps\<close>, UTF-8 and \<open>base64\<close>.

  Characters are the code points below 256, so UTF-8 has one or two bytes per character.  A field
  of a format string is a dotted name, which is all that the templates contain; conversions,
  subscripts and format specifications are outside the model and raise \<open>OtherException\<close>.
\<close>

section \<open>\<open>repr\<close> and \<open>str\<close>\<close>

fun py_repr :: "pyval \<Rightarrow> string" where
  "py_repr PNone = ''None''"
| "py_repr (PBool b) = (if b then ''True'' else ''False'')"
| "py_repr (PInt i) = show_int i"
| "py_repr (PStr s) = py_repr_str s"
| "py_repr (PList xs) = ''['' @ str_join '', '' (map py_repr xs) @ '']''"
| "py_repr (PDict d) =
     ''{'' @ str_join '', '' (map (\<lambda>(k, v). py_repr_str k @ '': '' @ py_repr v) d) @ ''}''"

fun py_str :: "pyval \<Rightarrow> string" where
  "py_str (PStr s) = s"
| "py_str v = py_repr v"

section \<open>\<open>str.format\<close>\<close>

text \<open>An object that a template reads attributes of, or a plain value.\<close>

datatype tobj = TVal pyval | TObj "(string \<times> tobj) list"

fun tobj_attr :: "tobj \<Rightarrow> string list \<Rightarrow> tobj res" where
  "tobj_attr t [] = Inr t"
| "tobj_attr (TVal v) (a # as) = Inl (AttributeError a)"
| "tobj_attr (TObj fs) (a # as) =
     (case dict_get fs a of
        Some t \<Rightarrow> tobj_attr t as
      | None \<Rightarrow> Inl (AttributeError a))"

definition format_field :: "(string \<times> tobj) list \<Rightarrow> string \<Rightarrow> string res" where
  "format_field vars f =
     (if \<exists>c \<in> set f. c \<in> set ''!:['' then Inl (OtherException f)
      else case split_on (CHR ''.'') f of
        [] \<Rightarrow> Inl (OtherException f)
      | x # as \<Rightarrow>
          (case dict_get vars x of
             None \<Rightarrow> Inl (KeyError x)
           | Some t \<Rightarrow> res_bind (tobj_attr t as) (\<lambda>r.
               case r of TVal v \<Rightarrow> Inr (py_str v) | TObj _ \<Rightarrow> Inl (OtherException f))))"

text \<open>The scanner: outside of a field, and inside of one with the name read so far.\<close>

fun str_format :: "(string \<times> tobj) list \<Rightarrow> string option \<Rightarrow> string \<Rightarrow> string res" where
  "str_format vars None [] = Inr []"
| "str_format vars (Some f) [] = Inl (ValueError ''expected '}' before end of string'')"
| "str_format vars None (c # s) =
     (if c = CHR ''{'' then
        (case s of
           [] \<Rightarrow> Inl (ValueError ''Single '{' encountered in format string'')
         | d # t \<Rightarrow>
             if d = CHR ''{'' then res_bind (str_format vars None t) (\<lambda>r. Inr (CHR ''{'' # r))
             else str_format vars (Some []) s)
      else if c = CHR ''}'' then
        (case s of
           [] \<Rightarrow> Inl (ValueError ''Single '}' encountered in format string'')
         | d # t \<Rightarrow>
             if d = CHR ''}'' then res_bind (str_format vars None t) (\<lambda>r. Inr (CHR ''}'' # r))
             else Inl (ValueError ''Single '}' encountered in format string''))
      else res_bind (str_format vars None s) (\<lambda>r. Inr (c # r)))"
| "str_format vars (Some f) (c # s) =
     (if c = CHR ''}'' then
        res_bind (format_field vars f) (\<lambda>v.
          res_bind (str_format vars None s) (\<lambda>r. Inr (v @ r)))
      else if c = CHR ''{'' then Inl (ValueError ''unexpected '{' in field name'')
      else str_format vars (Some (f @ [c])) s)"

section \<open>\<open>shlex.split\<close>\<close>

text \<open>
  The tokenizer in POSIX mode, split at whitespace, without comments.  Its state is the one of
  \<open>shlex.read_token\<close>: between words, in a word, in quotes, or after a backslash with the state to
  go back to.
\<close>

datatype sh_state = ShSpace | ShWord | ShQuote char | ShEscape "char option"

definition sh_blank :: "char \<Rightarrow> bool" where
  "sh_blank c = (c \<in> {CHR '' '', CHR 0x09, CHR 0x0A, CHR 0x0D})"

definition sh_quote :: "char \<Rightarrow> bool" where
  "sh_quote c = (c = CHR 0x27 \<or> c = CHR 0x22)"

text \<open>A word ends: it is returned if it has characters or was quoted.\<close>

definition sh_emit :: "string \<Rightarrow> bool \<Rightarrow> string list res \<Rightarrow> string list res" where
  "sh_emit tok quoted rest = (if tok = [] \<and> \<not> quoted then rest else res_bind rest (\<lambda>ws. Inr (tok # ws)))"

fun read_tokens :: "sh_state \<Rightarrow> string \<Rightarrow> bool \<Rightarrow> string \<Rightarrow> string list res" where
  "read_tokens (ShQuote q) tok quoted [] = Inl (ValueError ''No closing quotation'')"
| "read_tokens (ShEscape b) tok quoted [] = Inl (ValueError ''No escaped character'')"
| "read_tokens st tok quoted [] = sh_emit tok quoted (Inr [])"
| "read_tokens (ShQuote q) tok quoted (c # s) =
     (if c = q then read_tokens ShWord tok True s
      else if c = CHR 0x5C \<and> q = CHR 0x22 then read_tokens (ShEscape (Some q)) tok True s
      else read_tokens (ShQuote q) (tok @ [c]) True s)"
| "read_tokens (ShEscape None) tok quoted (c # s) = read_tokens ShWord (tok @ [c]) quoted s"
| "read_tokens (ShEscape (Some q)) tok quoted (c # s) =
     read_tokens (ShQuote q) (if c \<noteq> CHR 0x5C \<and> c \<noteq> q then tok @ [CHR 0x5C, c] else tok @ [c]) quoted s"
| "read_tokens st tok quoted (c # s) =
     (if sh_blank c then sh_emit tok quoted (read_tokens ShSpace [] False s)
      else if c = CHR 0x5C then read_tokens (ShEscape None) tok quoted s
      else if sh_quote c then read_tokens (ShQuote c) tok quoted s
      else read_tokens ShWord (tok @ [c]) quoted s)"

definition shlex_split :: "string \<Rightarrow> string list res" where
  "shlex_split s = read_tokens ShSpace [] False s"

definition plain_word :: "string \<Rightarrow> bool" where
  "plain_word w = (w \<noteq> [] \<and> (\<forall>c \<in> set w. \<not> sh_blank c \<and> \<not> sh_quote c \<and> c \<noteq> CHR 0x5C))"

lemma read_tokens_plain:
  assumes "\<forall>c \<in> set w. \<not> sh_blank c \<and> \<not> sh_quote c \<and> c \<noteq> CHR 0x5C"
    and "w \<noteq> [] \<or> st = ShWord" and "st = ShSpace \<or> st = ShWord"
  shows "read_tokens st tok quoted (w @ s) = read_tokens ShWord (tok @ w) quoted s"
  using assms
proof (induction w arbitrary: st tok)
  case Nil
  then show ?case by simp
next
  case (Cons c w)
  then have "read_tokens st tok quoted ((c # w) @ s) = read_tokens ShWord (tok @ [c]) quoted (w @ s)"
    by auto
  also have "\<dots> = read_tokens ShWord ((tok @ [c]) @ w) quoted s"
    using Cons by simp
  finally show ?case by simp
qed

lemma sh_emit_word [simp]: "w \<noteq> [] \<Longrightarrow> sh_emit w q r = res_bind r (\<lambda>ws. Inr (w # ws))"
  by (simp add: sh_emit_def)

text \<open>Words without blanks, quotes and backslashes are split as they were joined.\<close>

lemma shlex_split_join:
  "\<forall>w \<in> set ws. plain_word w \<Longrightarrow> shlex_split (str_join '' '' ws) = Inr ws"
proof (induction ws rule: induct_list012)
  case 1
  then show ?case by (simp add: shlex_split_def sh_emit_def)
next
  case (2 p)
  then have "read_tokens ShSpace [] False (p @ []) = Inr [p]"
    by (subst read_tokens_plain) (auto simp: plain_word_def)
  then show ?case by (simp add: shlex_split_def)
next
  case (3 p q ps)
  then have "read_tokens ShSpace [] False (p @ '' '' @ str_join '' '' (q # ps)) =
      read_tokens ShWord p False (CHR '' '' # str_join '' '' (q # ps))"
    by (subst read_tokens_plain) (auto simp: plain_word_def)
  with 3 show ?case by (auto simp: shlex_split_def plain_word_def sh_blank_def)
qed

end
