(* ===== verification/Py_Codec.thy ===== *)
theory Py_Codec
  imports Py_Text
begin

text \<open>
  The codecs of Python's standard library through which the transpiler hands the metric
  definitions to the metrics extractor: UTF-8, \<open>base64\<close> and \<open>json\<close>.

  Bytes are natural numbers below 256.  The JSON values are those of \<open>pyval\<close>, which has no
  floating point numbers: reading one raises \<open>OtherException\<close>, as does a code point above 255.
  The reader takes fuel for the depth of its recursion; \<open>json_loads\<close> gives it the length of the
  text, and the round trip shows that this is enough for every text that \<open>json_dumps\<close> writes.
\<close>

section \<open>UTF-8\<close>

definition utf8_char :: "char \<Rightarrow> nat list" where
  "utf8_char c =
     (let n = of_char c in if n < 128 then [n] else [192 + n div 64, 128 + n mod 64])"

definition utf8_encode :: "string \<Rightarrow> nat list" where
  "utf8_encode s = concat (map utf8_char s)"

fun utf8_decode :: "nat list \<Rightarrow> string res" where
  "utf8_decode [] = Inr []"
| "utf8_decode (b # bs) =
     (if b < 128 then res_bind (utf8_decode bs) (\<lambda>s. Inr (char_of b # s))
      else if b \<in> {194, 195} then
        (case bs of
           [] \<Rightarrow> Inl (ValueError ''unexpected end of data'')
         | b' # bs' \<Rightarrow>
             if 128 \<le> b' \<and> b' < 192
             then res_bind (utf8_decode bs') (\<lambda>s. Inr (char_of ((b - 192) * 64 + (b' - 128)) # s))
             else Inl (ValueError ''invalid continuation byte''))
      else if 196 \<le> b \<and> b < 245 then Inl (OtherException ''code point above 255'')
      else Inl (ValueError ''invalid start byte''))"

lemma of_char_less: "(of_char c :: nat) < 256"
  by (metis mod_less_divisor of_char_mod_256 zero_less_numeral)

lemma utf8_decode_char: "utf8_decode (utf8_char c @ bs) = res_bind (utf8_decode bs) (\<lambda>s. Inr (c # s))"
proof -
  define n :: nat where "n = of_char c"
  have n: "n < 256" "char_of n = c" unfolding n_def by (simp_all add: of_char_less)
  show ?thesis
  proof (cases "n < 128")
    case True
    with n show ?thesis by (simp add: utf8_char_def n_def)
  next
    case False
    have "n div 64 = 2 \<or> n div 64 = 3" using n False by arith
    moreover have "(192 + n div 64 - 192) * 64 + (128 + n mod 64 - 128) = n" by simp
    ultimately show ?thesis
      using n False by (auto simp: utf8_char_def Let_def simp flip: n_def)
  qed
qed

lemma utf8_roundtrip [simp]: "utf8_decode (utf8_encode s) = Inr s"
  by (induction s) (simp_all add: utf8_encode_def utf8_decode_char)

lemma utf8_bytes: "b \<in> set (utf8_encode s) \<Longrightarrow> b < 256"
proof -
  have "b < 256" if "b \<in> set (utf8_char c)" for c
  proof -
    have "(of_char c :: nat) < 256" by (rule of_char_less)
    then have "(of_char c :: nat) div 64 < 4" by (simp add: div_less_iff_less_mult)
    with that show ?thesis by (auto simp: utf8_char_def Let_def split: if_splits)
  qed
  then show "b \<in> set (utf8_encode s) \<Longrightarrow> b < 256" by (auto simp: utf8_encode_def)
qed

section \<open>Base 64\<close>

definition b64_alphabet :: string where
  "b64_alphabet = ''ABCDEFGHIJKLMNOPQRSTUVWXYZabcdefghijklmnopqrstuvwxyz0123456789+/''"

definition b64_char :: "nat \<Rightarrow> char" where
  "b64_char n = b64_alphabet ! n"

fun b64encode :: "nat list \<Rightarrow> string" where
  "b64encode [] = []"
| "b64encode [a] = [b64_char (a div 4), b64_char (a mod 4 * 16), CHR ''='', CHR ''='']"
| "b64encode [a, b] =
     [b64_char (a div 4), b64_char (a mod 4 * 16 + b div 16), b64_char (b mod 16 * 4), CHR ''='']"
| "b64encode (a # b # c # bs) =
     [b64_char (a div 4), b64_char (a mod 4 * 16 + b div 16), b64_char (b mod 16 * 4 + c div 64),
      b64_char (c mod 64)] @ b64encode bs"

fun index_of :: "char \<Rightarrow> string \<Rightarrow> nat option" where
  "index_of c [] = None"
| "index_of c (x # xs) = (if x = c then Some 0 else map_option Suc (index_of c xs))"

definition b64_val :: "char \<Rightarrow> nat option" where
  "b64_val c = index_of c b64_alphabet"

text \<open>
  The loop of \<open>binascii.a2b_base64\<close>: the position in the group of four, the bits not yet written
  and their number.  Characters outside of the alphabet are skipped; a pad ends the input unless it
  comes too early in its group.
\<close>

definition b64_next :: "string \<Rightarrow> char option" where
  "b64_next s = (case dropWhile (\<lambda>c. b64_val c = None \<and> c \<noteq> CHR ''='') s of [] \<Rightarrow> None | c # _ \<Rightarrow> Some c)"

fun a2b_base64 :: "nat \<Rightarrow> nat \<Rightarrow> nat \<Rightarrow> string \<Rightarrow> nat list res" where
  "a2b_base64 quad left bits [] =
     (if bits \<noteq> 0 then Inl (ValueError ''Incorrect padding'') else Inr [])"
| "a2b_base64 quad left bits (c # s) =
     (if c = CHR ''='' then
        (if quad < 2 \<or> (quad = 2 \<and> b64_next s \<noteq> Some (CHR ''='')) then a2b_base64 quad left bits s
         else Inr [])
      else case b64_val c of
        None \<Rightarrow> a2b_base64 quad left bits s
      | Some v \<Rightarrow>
          let left = left * 64 + v; bits = bits + 6; quad = (quad + 1) mod 4 in
          if 8 \<le> bits then
            res_bind (a2b_base64 quad (left mod 2 ^ (bits - 8)) (bits - 8) s) (\<lambda>bs.
              Inr (left div 2 ^ (bits - 8) mod 256 # bs))
          else a2b_base64 quad left bits s)"

definition b64decode :: "string \<Rightarrow> nat list res" where
  "b64decode s = a2b_base64 0 0 0 s"

lemma index_of_nth: "distinct xs \<Longrightarrow> i < length xs \<Longrightarrow> index_of (xs ! i) xs = Some i"
proof (induction xs arbitrary: i)
  case Nil
  then show ?case by simp
next
  case (Cons x xs)
  then show ?case by (cases i) (auto simp: nth_mem)
qed

lemma length_b64_alphabet: "length b64_alphabet = 64"
  by code_simp

lemma distinct_b64_alphabet: "distinct b64_alphabet"
  by code_simp

lemma b64_val_char [simp]: "n < 64 \<Longrightarrow> b64_val (b64_char n) = Some n"
  by (simp add: b64_val_def b64_char_def index_of_nth length_b64_alphabet distinct_b64_alphabet)

lemma b64_char_not_pad [simp]: "n < 64 \<Longrightarrow> b64_char n \<noteq> CHR ''=''"
proof
  assume "n < 64" and "b64_char n = CHR ''=''"
  then have "CHR ''='' \<in> set b64_alphabet"
    unfolding b64_char_def by (metis length_b64_alphabet nth_mem)
  then show False by (simp add: b64_alphabet_def)
qed

text \<open>One character in each of the four positions of a group.\<close>

lemma a2b_base64_steps:
  assumes "n < 64"
  shows "a2b_base64 0 0 0 (b64_char n # s) = a2b_base64 1 n 6 s"
    and "a2b_base64 1 m 6 (b64_char n # s) =
      res_bind (a2b_base64 2 ((m * 64 + n) mod 16) 4 s) (\<lambda>bs. Inr ((m * 64 + n) div 16 mod 256 # bs))"
    and "a2b_base64 2 m 4 (b64_char n # s) =
      res_bind (a2b_base64 3 ((m * 64 + n) mod 4) 2 s) (\<lambda>bs. Inr ((m * 64 + n) div 4 mod 256 # bs))"
    and "a2b_base64 3 m 2 (b64_char n # s) =
      res_bind (a2b_base64 0 0 0 s) (\<lambda>bs. Inr ((m * 64 + n) mod 256 # bs))"
  using assms by (simp_all add: Let_def flip: numeral_2_eq_2)

lemma a2b_base64_ends:
  "a2b_base64 0 0 0 [] = Inr []"
  "a2b_base64 2 m 4 [CHR ''='', CHR ''=''] = Inr []"
  "a2b_base64 3 m 2 [CHR ''=''] = Inr []"
  by (simp_all add: b64_next_def)

declare a2b_base64.simps [simp del]

lemma quad_bounds:
  fixes a b c :: nat
  assumes "a < 256" "b < 256" "c < 256"
  shows "a div 4 < 64" "a mod 4 * 16 < 64" "a mod 4 * 16 + b div 16 < 64"
    "b mod 16 * 4 < 64" "b mod 16 * 4 + c div 64 < 64" "c mod 64 < 64"
    "(a div 4 * 64 + (a mod 4 * 16 + b div 16)) div 16 = a"
    "(a div 4 * 64 + (a mod 4 * 16 + b div 16)) mod 16 = b div 16"
    "(a div 4 * 64 + a mod 4 * 16) div 16 = a"
    "(a div 4 * 64 + a mod 4 * 16) mod 16 = 0"
    "(b div 16 * 64 + (b mod 16 * 4 + c div 64)) div 4 = b"
    "(b div 16 * 64 + (b mod 16 * 4 + c div 64)) mod 4 = c div 64"
    "(b div 16 * 64 + b mod 16 * 4) div 4 = b"
    "(b div 16 * 64 + b mod 16 * 4) mod 4 = 0"
    "c div 64 * 64 + c mod 64 = c"
proof -
  have b16: "b div 16 < 16" and c64: "c div 64 < 4"
    using assms by (simp_all add: div_less_iff_less_mult)
  have a4: "a div 4 < 64" using assms by (simp add: div_less_iff_less_mult)
  have am: "a mod 4 < 4" and bm: "b mod 16 < 16" by simp_all
  show "a div 4 < 64" by (rule a4)
  show "a mod 4 * 16 < 64" using am by simp
  show "a mod 4 * 16 + b div 16 < 64" using am b16 by linarith
  show "b mod 16 * 4 < 64" using bm by simp
  show "b mod 16 * 4 + c div 64 < 64" using bm c64 by linarith
  show "c mod 64 < 64" by simp
  have x: "a div 4 * 64 + a mod 4 * 16 = a * 16"
    using div_mult_mod_eq [of a 4] by linarith
  have y: "b div 16 * 64 + b mod 16 * 4 = b * 4"
    using div_mult_mod_eq [of b 16] by linarith
  have "a div 4 * 64 + (a mod 4 * 16 + b div 16) = b div 16 + a * 16" using x by linarith
  then show "(a div 4 * 64 + (a mod 4 * 16 + b div 16)) div 16 = a"
    "(a div 4 * 64 + (a mod 4 * 16 + b div 16)) mod 16 = b div 16"
    using b16 by (simp_all only: div_mult_self1 mod_mult_self1) simp_all
  show "(a div 4 * 64 + a mod 4 * 16) div 16 = a" "(a div 4 * 64 + a mod 4 * 16) mod 16 = 0"
    using x by simp_all
  have "b div 16 * 64 + (b mod 16 * 4 + c div 64) = c div 64 + b * 4" using y by linarith
  then show "(b div 16 * 64 + (b mod 16 * 4 + c div 64)) div 4 = b"
    "(b div 16 * 64 + (b mod 16 * 4 + c div 64)) mod 4 = c div 64"
    using c64 by (simp_all only: div_mult_self1 mod_mult_self1) simp_all
  show "(b div 16 * 64 + b mod 16 * 4) div 4 = b" "(b div 16 * 64 + b mod 16 * 4) mod 4 = 0"
    using y by simp_all
  show "c div 64 * 64 + c mod 64 = c" by simp
qed

lemma b64_roundtrip: "\<forall>b \<in> set bs. b < 256 \<Longrightarrow> b64decode (b64encode bs) = Inr bs"
  unfolding b64decode_def
proof (induction bs rule: b64encode.induct)
  case 1
  then show ?case by (simp add: a2b_base64_ends)
next
  case (2 a)
  then have "a < 256" by simp
  note q = quad_bounds [OF this, of 0 0]
  show ?case using \<open>a < 256\<close> q(1,2,9,10) by (simp add: a2b_base64_steps a2b_base64_ends del: One_nat_def)
next
  case (3 a b)
  then have ab: "a < 256" "b < 256" by simp_all
  note q = quad_bounds [OF ab, of 0]
  show ?case using ab q(1,3,4,7,8,13,14)
    by (simp add: a2b_base64_steps a2b_base64_ends del: One_nat_def)
next
  case (4 a b c bs)
  then have abc: "a < 256" "b < 256" "c < 256" by simp_all
  note q = quad_bounds [OF abc]
  show ?case using abc 4 q(1,3,5,6,7,8,11,12,15)
    by (simp add: a2b_base64_steps del: One_nat_def)
qed

section \<open>JSON\<close>

definition json_escape :: "char \<Rightarrow> string" where
  "json_escape c =
     (if c = CHR 0x22 then [CHR 0x5C, CHR 0x22]
      else if c = CHR 0x5C then [CHR 0x5C, CHR 0x5C]
      else if c = CHR 0x0A then [CHR 0x5C, CHR ''n'']
      else if c = CHR 0x0D then [CHR 0x5C, CHR ''r'']
      else if c = CHR 0x09 then [CHR 0x5C, CHR ''t'']
      else if c = CHR 0x0C then [CHR 0x5C, CHR ''f'']
      else if c = CHR 0x08 then [CHR 0x5C, CHR ''b'']
      else if 32 \<le> (of_char c :: nat) \<and> (of_char c :: nat) < 127 then [c]
      else [CHR 0x5C, CHR ''u'', CHR ''0'', CHR ''0'', hex_char (of_char c div 16), hex_char (of_char c mod 16)])"

definition json_str :: "string \<Rightarrow> string" where
  "json_str s = CHR 0x22 # concat (map json_escape s) @ [CHR 0x22]"

fun json_dumps :: "pyval \<Rightarrow> string" where
  "json_dumps PNone = ''null''"
| "json_dumps (PBool b) = (if b then ''true'' else ''false'')"
| "json_dumps (PInt i) = show_int i"
| "json_dumps (PStr s) = json_str s"
| "json_dumps (PList xs) = ''['' @ str_join '', '' (map json_dumps xs) @ '']''"
| "json_dumps (PDict d) =
     ''{'' @ str_join '', '' (map (\<lambda>(k, v). json_str k @ '': '' @ json_dumps v) d) @ ''}''"

definition hex_val :: "char \<Rightarrow> nat option" where
  "hex_val c = index_of (lower_char c) ''0123456789abcdef''"

fun json_string :: "string \<Rightarrow> (string \<times> string) res" where
  "json_string [] = Inl (ValueError ''Unterminated string'')"
| "json_string (c # s) =
     (if c = CHR 0x22 then Inr ([], s)
      else if c = CHR 0x5C then
        (case s of
           [] \<Rightarrow> Inl (ValueError ''Unterminated string'')
         | e # t \<Rightarrow>
             if e = CHR ''u'' then
               (case t of
                  h1 # h2 # h3 # h4 # r \<Rightarrow>
                    (case (hex_val h1, hex_val h2, hex_val h3, hex_val h4) of
                       (Some a, Some b, Some x, Some y) \<Rightarrow>
                         if a = 0 \<and> b = 0
                         then res_bind (json_string r) (\<lambda>(u, r'). Inr (char_of (x * 16 + y) # u, r'))
                         else Inl (OtherException ''code point above 255'')
                     | _ \<Rightarrow> Inl (ValueError ''Invalid escape''))
                | _ \<Rightarrow> Inl (ValueError ''Invalid escape''))
             else
               (case dict_get [(CHR 0x22, CHR 0x22), (CHR 0x5C, CHR 0x5C), (CHR ''/'', CHR ''/''),
                   (CHR ''b'', CHR 0x08), (CHR ''f'', CHR 0x0C), (CHR ''n'', CHR 0x0A),
                   (CHR ''r'', CHR 0x0D), (CHR ''t'', CHR 0x09)] e of
                  Some x \<Rightarrow> res_bind (json_string t) (\<lambda>(u, r'). Inr (x # u, r'))
                | None \<Rightarrow> Inl (ValueError ''Invalid escape'')))
      else if (of_char c :: nat) < 32 then Inl (ValueError ''Invalid control character'')
      else res_bind (json_string s) (\<lambda>(u, r). Inr (c # u, r)))"

definition json_blank :: "char \<Rightarrow> bool" where
  "json_blank c = (c \<in> {CHR '' '', CHR 0x09, CHR 0x0A, CHR 0x0D})"

definition skip_blanks :: "string \<Rightarrow> string" where
  "skip_blanks s = dropWhile json_blank s"

text \<open>An integer without leading zeros; a fraction or an exponent makes it a floating point number.\<close>

definition json_number :: "string \<Rightarrow> (pyval \<times> string) res" where
  "json_number s =
     (let neg = startswith s ''-'';
          t = (if neg then tl s else s);
          ds = (if startswith t ''0'' then ''0'' else takeWhile is_digit t);
          r = drop (length ds) t
      in if ds = [] then Inl (ValueError ''Expecting value'')
         else if r \<noteq> [] \<and> hd r \<in> set ''.eE'' then Inl (OtherException ''floating point number'')
         else case parse_digits False 0 ds of
           Some n \<Rightarrow> Inr (PInt (if neg then - int n else int n), r)
         | None \<Rightarrow> Inl (ValueError ''Expecting value''))"

fun json_value :: "nat \<Rightarrow> string \<Rightarrow> (pyval \<times> string) res"
  and json_items :: "nat \<Rightarrow> string \<Rightarrow> (pyval list \<times> string) res"
  and json_members :: "nat \<Rightarrow> string \<Rightarrow> (pyval dict \<times> string) res"
where
  "json_value 0 s = Inl (OtherException ''maximum recursion depth exceeded'')"
| "json_value (Suc n) s =
     (case s of
        [] \<Rightarrow> Inl (ValueError ''Expecting value'')
      | c # t \<Rightarrow>
          if c = CHR 0x22 then res_bind (json_string t) (\<lambda>(x, r). Inr (PStr x, r))
          else if c = CHR ''['' then
            (let t = skip_blanks t in
             if t \<noteq> [] \<and> hd t = CHR '']'' then Inr (PList [], tl t)
             else res_bind (json_items n t) (\<lambda>(xs, r). Inr (PList xs, r)))
          else if c = CHR ''{'' then
            (let t = skip_blanks t in
             if t \<noteq> [] \<and> hd t = CHR ''}'' then Inr (PDict [], tl t)
             else res_bind (json_members n t) (\<lambda>(kvs, r). Inr (PDict (dict_update [] kvs), r)))
          else if startswith s ''null'' then Inr (PNone, drop 4 s)
          else if startswith s ''true'' then Inr (PBool True, drop 4 s)
          else if startswith s ''false'' then Inr (PBool False, drop 5 s)
          else json_number s)"
| "json_items 0 s = Inl (OtherException ''maximum recursion depth exceeded'')"
| "json_items (Suc n) s =
     res_bind (json_value n s) (\<lambda>(v, r).
       let r = skip_blanks r in
       if r \<noteq> [] \<and> hd r = CHR '']'' then Inr ([v], tl r)
       else if r \<noteq> [] \<and> hd r = CHR '','' then
         res_bind (json_items n (skip_blanks (tl r))) (\<lambda>(vs, r). Inr (v # vs, r))
       else Inl (ValueError ''Expecting ',' delimiter''))"
| "json_members 0 s = Inl (OtherException ''maximum recursion depth exceeded'')"
| "json_members (Suc n) s =
     (if s = [] \<or> hd s \<noteq> CHR 0x22 then Inl (ValueError ''Expecting property name enclosed in double quotes'')
      else res_bind (json_string (tl s)) (\<lambda>(k, r).
        let r = skip_blanks r in
        if r = [] \<or> hd r \<noteq> CHR '':'' then Inl (ValueError ''Expecting ':' delimiter'')
        else res_bind (json_value n (skip_blanks (tl r))) (\<lambda>(v, r).
          let r = skip_blanks r in
          if r \<noteq> [] \<and> hd r = CHR ''}'' then Inr ([(k, v)], tl r)
          else if r \<noteq> [] \<and> hd r = CHR '','' then
            res_bind (json_members n (skip_blanks (tl r))) (\<lambda>(kvs, r). Inr ((k, v) # kvs, r))
          else Inl (ValueError ''Expecting ',' delimiter''))))"

definition json_loads :: "string \<Rightarrow> pyval res" where
  "json_loads s =
     res_bind (json_value (Suc (length s)) (skip_blanks s)) (\<lambda>(v, r).
       if skip_blanks r = [] then Inr v else Inl (ValueError ''Extra data''))"

subsection \<open>Reading back what was written\<close>

lemma hex_val_char [simp]: "n < 16 \<Longrightarrow> hex_val (hex_char n) = Some n"
proof -
  have "\<forall>n \<in> set [0..<16]. hex_val (hex_char n) = Some n" by code_simp
  then show "n < 16 \<Longrightarrow> hex_val (hex_char n) = Some n" by simp
qed

lemma hex_val_zero [simp]: "hex_val (CHR ''0'') = Some 0"
  by code_simp

lemma json_string_escape:
  "json_string (json_escape c @ t) = res_bind (json_string t) (\<lambda>(u, r). Inr (c # u, r))"
proof -
  have "(of_char c :: nat) < 256" by (rule of_char_less)
  then have "(of_char c :: nat) div 16 < 16" by (simp add: div_less_iff_less_mult)
  then show ?thesis by (auto simp: json_escape_def)
qed

lemma json_string_dumps [simp]:
  "json_string (concat (map json_escape s) @ CHR 0x22 # r) = Inr (s, r)"
  by (induction s) (simp_all add: json_string_escape)

definition json_stop :: "string \<Rightarrow> bool" where
  "json_stop r = (r = [] \<or> \<not> is_digit (hd r) \<and> hd r \<notin> set ''.eE'')"

lemma digit_char_0: "digit_char 0 = CHR ''0''"
  by code_simp

lemma show_nat_zero: "startswith (show_nat n) ''0'' \<longleftrightarrow> n = 0"
proof (induction n rule: show_nat.induct)
  case (1 n)
  show ?case
  proof (cases "n < 10")
    case True
    have "n = 0" if "digit_char n = CHR ''0''"
      using arg_cong [OF that, of "of_char :: char \<Rightarrow> nat"] True by simp
    moreover have "digit_char 0 = CHR ''0''" by (rule digit_char_0)
    ultimately have "digit_char n = CHR ''0'' \<longleftrightarrow> n = 0" by blast
    with True show ?thesis by (simp add: show_nat.simps [of n] startswith_def)
  next
    case False
    have "show_nat (n div 10) \<noteq> []" by simp
    then have "startswith (show_nat n) ''0'' \<longleftrightarrow> startswith (show_nat (n div 10)) ''0''"
      using False by (cases "show_nat (n div 10)") (simp_all add: show_nat.simps [of n] startswith_def)
    with 1 False show ?thesis by simp
  qed
qed

lemma takeWhile_show_nat: "json_stop r \<Longrightarrow> takeWhile is_digit (show_nat n @ r) = show_nat n"
proof -
  assume "json_stop r"
  then have "takeWhile is_digit r = []" by (cases r) (auto simp: json_stop_def)
  then show ?thesis using show_nat_digits [of _ n] by (simp add: takeWhile_append2)
qed

lemma json_number_nat:
  assumes "json_stop r"
  shows "json_number (show_nat n @ r) = Inr (PInt (int n), r)"
    and "json_number (CHR ''-'' # show_nat n @ r) = Inr (PInt (- int n), r)"
proof -
  have r: "\<not> (r \<noteq> [] \<and> hd r \<in> set ''.eE'')" using assms by (auto simp: json_stop_def)
  have z: "startswith (show_nat n @ r) ''0'' \<longleftrightarrow> n = 0"
    using show_nat_zero [of n] by (cases "show_nat n") (simp_all add: startswith_def)
  have m: "\<not> startswith (show_nat n @ r) ''-''"
    using show_nat_digits [of "hd (show_nat n)" n]
    by (cases "show_nat n") (auto simp: startswith_def is_digit_def)
  have 0: "show_nat 0 = ''0''" by (simp add: show_nat.simps digit_char_0)
  have len: "drop (length (show_nat n)) (show_nat n @ r) = r" by simp
  have ds: "(if startswith (show_nat n @ r) ''0'' then ''0'' else takeWhile is_digit (show_nat n @ r)) = show_nat n"
    using z 0 assms by (simp add: takeWhile_show_nat)
  show "json_number (show_nat n @ r) = Inr (PInt (int n), r)"
    using r unfolding json_number_def Let_def by (simp only: m ds len if_False parse_digits_show_nat) simp
  have "startswith (CHR ''-'' # show_nat n @ r) ''-''" by (simp add: startswith_def)
  then show "json_number (CHR ''-'' # show_nat n @ r) = Inr (PInt (- int n), r)"
    using r unfolding json_number_def Let_def
    by (simp only: if_True list.sel ds len parse_digits_show_nat) simp
qed

fun json_wf :: "pyval \<Rightarrow> bool" where
  "json_wf (PList xs) = (\<forall>x \<in> set xs. json_wf x)"
| "json_wf (PDict d) = (dict_wf d \<and> (\<forall>(k, v) \<in> set d. json_wf v))"
| "json_wf _ = True"

lemma json_wf_PDictD: "json_wf (PDict d) \<Longrightarrow> (k, v) \<in> set d \<Longrightarrow> json_wf v"
  by auto

definition reads_back :: "pyval \<Rightarrow> bool" where
  "reads_back v = (\<forall>n r. length (json_dumps v) < n \<longrightarrow> json_stop r \<longrightarrow>
     json_value n (json_dumps v @ r) = Inr (v, r))"

lemma reads_backD:
  "reads_back v \<Longrightarrow> length (json_dumps v) < n \<Longrightarrow> json_stop r \<Longrightarrow>
   json_value n (json_dumps v @ r) = Inr (v, r)"
  by (simp add: reads_back_def)

lemma json_stop_simps [simp]:
  "json_stop (CHR '','' # r)" "json_stop (CHR '']'' # r)" "json_stop (CHR ''}'' # r)" "json_stop []"
  by (simp_all add: json_stop_def is_digit_def)

lemma skip_blanks_simps [simp]:
  "skip_blanks (CHR '' '' # r) = skip_blanks r"
  "skip_blanks (CHR '','' # r) = CHR '','' # r"
  "skip_blanks (CHR '']'' # r) = CHR '']'' # r"
  "skip_blanks (CHR ''}'' # r) = CHR ''}'' # r"
  "skip_blanks (CHR '':'' # r) = CHR '':'' # r"
  "skip_blanks (CHR 0x22 # r) = CHR 0x22 # r"
  by (simp_all add: skip_blanks_def json_blank_def)

text \<open>The text of a value starts with a character that is neither blank nor a closing bracket.\<close>

lemma json_dumps_hd:
  obtains c t where "json_dumps v = c # t" "\<not> json_blank c" "c \<noteq> CHR '']''" "c \<noteq> CHR ''}''"
proof (cases v)
  case (PBool b)
  then show ?thesis using that by (cases b) (auto simp: json_blank_def)
next
  case (PInt i)
  have dig: "\<exists>c t. show_nat n = c # t \<and> is_digit c" for n
    using show_nat_digits [of "hd (show_nat n)" n] by (cases "show_nat n") auto
  show ?thesis
  proof (cases "i < 0")
    case True
    with PInt show ?thesis using that by (simp add: show_int_def json_blank_def)
  next
    case False
    obtain c t where "show_nat (nat i) = c # t" "is_digit c" using dig by blast
    moreover from this have "\<not> json_blank c" "c \<noteq> CHR '']''" "c \<noteq> CHR ''}''"
      by (auto simp: json_blank_def is_digit_def)
    ultimately show ?thesis using PInt False that by (simp add: show_int_def)
  qed
qed (use that in \<open>auto simp: json_str_def json_blank_def split: if_splits\<close>)

lemma skip_blanks_dumps [simp]: "skip_blanks (json_dumps v @ r) = json_dumps v @ r"
  by (rule json_dumps_hd [of v]) (simp add: skip_blanks_def)

lemma json_items_dumps:
  assumes "\<forall>v \<in> set vs. reads_back v" and "vs \<noteq> []"
    and "Suc (length (str_join '', '' (map json_dumps vs))) < n"
  shows "json_items n (str_join '', '' (map json_dumps vs) @ CHR '']'' # r) = Inr (vs, r)"
  using assms
proof (induction vs arbitrary: n rule: induct_list012)
  case 1
  then show ?case by simp
next
  case (2 v)
  then obtain m where "n = Suc m" by (cases n) auto
  with 2 show ?case by (simp add: reads_backD)
next
  case (3 v w vs)
  then obtain m where n: "n = Suc m" by (cases n) auto
  let ?rest = "str_join '', '' (map json_dumps (w # vs)) @ CHR '']'' # r"
  have "json_value m (json_dumps v @ CHR '','' # CHR '' '' # ?rest) = Inr (v, CHR '','' # CHR '' '' # ?rest)"
    using 3 n by (intro reads_backD) auto
  moreover have "json_items m ?rest = Inr (w # vs, r)"
    using 3 n by (intro "3.IH"(2)) auto
  moreover have "skip_blanks ?rest = ?rest"
    by (cases vs) simp_all
  ultimately show ?case using n by (simp add: Let_def)
qed

lemma json_members_dumps:
  fixes d :: "(string \<times> pyval) list"
  defines "mem \<equiv> \<lambda>(k, v). json_str k @ '': '' @ json_dumps v"
  assumes "\<forall>(k, v) \<in> set d. reads_back v" and "d \<noteq> []"
    and "Suc (length (str_join '', '' (map mem d))) < n"
  shows "json_members n (str_join '', '' (map mem d) @ CHR ''}'' # r) = Inr (d, r)"
  using assms(2-)
proof (induction d arbitrary: n rule: induct_list012)
  case 1
  then show ?case by simp
next
  case (2 kv)
  then obtain m where "n = Suc m" by (cases n) auto
  moreover obtain k v where "kv = (k, v)" by (cases kv)
  ultimately show ?case using 2 by (simp add: mem_def json_str_def reads_backD)
next
  case (3 kv kw d)
  then obtain m where n: "n = Suc m" by (cases n) auto
  obtain k v where kv: "kv = (k, v)" by (cases kv)
  let ?rest = "str_join '', '' (map mem (kw # d)) @ CHR ''}'' # r"
  have "json_value m (json_dumps v @ CHR '','' # CHR '' '' # ?rest) = Inr (v, CHR '','' # CHR '' '' # ?rest)"
    using 3 n kv by (intro reads_backD) (auto simp: mem_def)
  moreover have "json_members m ?rest = Inr (kw # d, r)"
    using 3 n by (intro "3.IH"(2)) (auto simp: mem_def)
  moreover have "skip_blanks ?rest = ?rest"
    by (cases d) (simp_all add: mem_def json_str_def split_beta)
  ultimately show ?case using n kv by (simp add: Let_def mem_def json_str_def)
qed

lemma dict_set_new: "k \<notin> set (map fst d) \<Longrightarrow> dict_set d k v = d @ [(k, v)]"
  by (induction d k v rule: dict_set.induct) auto

lemma dict_update_append:
  "distinct (map fst (d @ e)) \<Longrightarrow> dict_update d e = d @ e"
proof (induction d e rule: dict_update.induct)
  case (2 d k v e)
  then show ?case by (simp add: dict_set_new)
qed simp

lemma reads_back_int: "reads_back (PInt i)"
  unfolding reads_back_def
proof (intro allI impI)
  fix n r
  assume n: "length (json_dumps (PInt i)) < n" and r: "json_stop r"
  then obtain m where m: "n = Suc m" by (cases n) auto
  have dig: "\<exists>c t. show_nat n = c # t \<and> is_digit c" for n
    using show_nat_digits [of "hd (show_nat n)" n] by (cases "show_nat n") auto
  show "json_value n (json_dumps (PInt i) @ r) = Inr (PInt i, r)"
  proof (cases "i < 0")
    case True
    with m show ?thesis
      using json_number_nat(2) [OF r, of "nat (- i)"] by (simp add: show_int_def startswith_def)
  next
    case False
    obtain c t where ct: "show_nat (nat i) = c # t" "is_digit c" using dig by blast
    then have "c \<notin> set ''[{tfn'' \<and> c \<noteq> CHR 0x22" by (auto simp: is_digit_def)
    with m False ct show ?thesis
      using json_number_nat(1) [OF r, of "nat i"] by (simp add: show_int_def startswith_def)
  qed
qed

lemma reads_back_list:
  assumes rb: "\<forall>v \<in> set vs. reads_back v"
  shows "reads_back (PList vs)"
  unfolding reads_back_def [of "PList vs"]
proof (intro allI impI)
  fix n r
  assume n: "length (json_dumps (PList vs)) < n"
  then obtain m where m: "n = Suc m" by (cases n) auto
  show "json_value n (json_dumps (PList vs) @ r) = Inr (PList vs, r)"
  proof (cases vs)
    case Nil
    with m show ?thesis by simp
  next
    case (Cons w ws)
    have "json_items m (str_join '', '' (map json_dumps vs) @ CHR '']'' # r) = Inr (vs, r)"
      using rb n m Cons by (intro json_items_dumps) auto
    moreover obtain c t where "str_join '', '' (map json_dumps vs) @ CHR '']'' # r = c # t"
      "\<not> json_blank c" "c \<noteq> CHR '']''"
      by (rule json_dumps_hd [of w]) (use Cons in \<open>cases ws; auto\<close>)
    ultimately show ?thesis using m by (simp add: Let_def skip_blanks_def)
  qed
qed

lemma reads_back_dict:
  assumes rb: "\<forall>(k, v) \<in> set d. reads_back v" and wf: "dict_wf d"
  shows "reads_back (PDict d)"
  unfolding reads_back_def [of "PDict d"]
proof (intro allI impI)
  fix n r
  assume n: "length (json_dumps (PDict d)) < n"
  then obtain m where m: "n = Suc m" by (cases n) auto
  let ?mem = "\<lambda>(k, v). json_str k @ '': '' @ json_dumps v"
  show "json_value n (json_dumps (PDict d) @ r) = Inr (PDict d, r)"
  proof (cases d)
    case Nil
    with m show ?thesis by simp
  next
    case (Cons w ws)
    have "json_members m (str_join '', '' (map ?mem d) @ CHR ''}'' # r) = Inr (d, r)"
      using rb n m Cons by (intro json_members_dumps) auto
    moreover have "\<exists>t. str_join '', '' (map ?mem d) @ CHR ''}'' # r = CHR 0x22 # t"
      using Cons by (cases ws) (auto simp: json_str_def split_beta)
    moreover have "dict_update [] d = d"
      using wf dict_update_append [of "[]" d] by (simp add: dict_wf_def)
    ultimately show ?thesis using m by (auto simp: Let_def)
  qed
qed

lemma json_reads_back: "json_wf v \<Longrightarrow> reads_back v"
proof (induction v)
  case (PInt i)
  show ?case by (rule reads_back_int)
next
  case (PList vs)
  then show ?case by (intro reads_back_list) simp
next
  case (PDict d)
  then show ?case using json_wf_PDictD [OF PDict.prems] by (intro reads_back_dict) fastforce+
qed (auto simp: reads_back_def json_str_def startswith_def less_eq_Suc_le dest!: Suc_le_D)

lemma json_roundtrip: "json_wf v \<Longrightarrow> json_loads (json_dumps v) = Inr v"
  using reads_backD [OF json_reads_back, of v "Suc (length (json_dumps v))" "[]"]
    skip_blanks_dumps [of v "[]"]
  by (simp add: json_loads_def skip_blanks_def)

section \<open>Codecs\<close>

text \<open>
  What a sender and a receiver rely on: decoding gives back what was encoded.  Then encoding is
  injective and a sequence of messages is received as it was sent.
\<close>

locale codec =
  fixes enc :: "'a \<Rightarrow> 'b"
    and dec :: "'b \<Rightarrow> 'a res"
    and ok :: "'a \<Rightarrow> bool"
  assumes roundtrip: "ok x \<Longrightarrow> dec (enc x) = Inr x"
begin

lemma enc_inj: "ok x \<Longrightarrow> ok y \<Longrightarrow> enc x = enc y \<Longrightarrow> x = y"
  by (metis Inr_inject roundtrip)

lemma received: "\<forall>x \<in> set xs. ok x \<Longrightarrow> res_map dec (map enc xs) = Inr xs"
  by (induction xs) (simp_all add: roundtrip)

end

interpretation json_codec: codec json_dumps json_loads json_wf
  by unfold_locales (rule json_roundtrip)

definition b64_text :: "string \<Rightarrow> string" where
  "b64_text s = b64encode (utf8_encode s)"

definition b64_untext :: "string \<Rightarrow> string res" where
  "b64_untext s = res_bind (b64decode s) utf8_decode"

interpretation b64_codec: codec b64_text b64_untext "\<lambda>_. True"
  by unfold_locales (simp add: b64_text_def b64_untext_def b64_roundtrip utf8_bytes)

end
