(* ===== verification/K8s_Spec.thy ===== *)
theory K8s_Spec
  imports Py_Codec Descriptor "HOL-Library.Multiset"
begin

text \<open>
  \<open>transpiler/kubernetes_spec_logic.py\<close>: the wrapper around the Kubernetes objects that the
  transpiler completes, and the templates they are read from.

  The objects are the dictionaries they are, nested in \<open>pyval\<close>.  The source holds them as
  \<open>addict.Dict\<close>, a dictionary whose items can be written as attributes; \<open>attr\<close> is its documented
  reading of an attribute, which gives an empty dictionary when the key is missing, and
  \<open>set_path\<close> its writing, which creates the missing dictionaries on the way.  The YAML reader and
  writer of \<open>ruamel\<close> are the parameters \<open>load_all\<close> and \<open>dump_all\<close>.

  An operation that raises ends the construction of the object, so operations are functions from
  an object to the changed one or an exception.
\<close>

section \<open>Attributes\<close>

definition attr :: "pyval \<Rightarrow> string \<Rightarrow> pyval res" where
  "attr x k =
     (case x of
        PDict d \<Rightarrow> Inr (case dict_get d k of Some v \<Rightarrow> v | None \<Rightarrow> PDict [])
      | _ \<Rightarrow> Inl (AttributeError k))"

definition set_attr :: "pyval \<Rightarrow> string \<Rightarrow> pyval \<Rightarrow> pyval res" where
  "set_attr x k v =
     (case x of PDict d \<Rightarrow> Inr (PDict (dict_set d k v)) | _ \<Rightarrow> Inl (AttributeError k))"

definition del_attr :: "pyval \<Rightarrow> string \<Rightarrow> pyval res" where
  "del_attr x k =
     (case x of
        PDict d \<Rightarrow> if dict_has d k then Inr (PDict (dict_del d k)) else Inl (KeyError k)
      | _ \<Rightarrow> Inl (AttributeError k))"

text \<open>\<open>x.pop(k, None)\<close>\<close>

definition pop_attr :: "pyval \<Rightarrow> string \<Rightarrow> pyval res" where
  "pop_attr x k = (case x of PDict d \<Rightarrow> Inr (PDict (dict_del d k)) | _ \<Rightarrow> Inl (AttributeError ''pop''))"

fun attr_path :: "pyval \<Rightarrow> string list \<Rightarrow> pyval res" where
  "attr_path x [] = Inr x"
| "attr_path x (k # ks) = res_bind (attr x k) (\<lambda>y. attr_path y ks)"

fun set_path :: "pyval \<Rightarrow> string list \<Rightarrow> pyval \<Rightarrow> pyval res" where
  "set_path x [] v = Inr v"
| "set_path x (k # ks) v =
     res_bind (attr x k) (\<lambda>y. res_bind (set_path y ks v) (\<lambda>y'. set_attr x k y'))"

text \<open>The elements of a \<open>for\<close> loop over a value.\<close>

definition elems :: "pyval \<Rightarrow> pyval list res" where
  "elems x =
     (case x of
        PList xs \<Rightarrow> Inr xs
      | PDict d \<Rightarrow> Inr (map (PStr \<circ> fst) d)
      | PStr s \<Rightarrow> Inr (map (\<lambda>c. PStr [c]) s)
      | _ \<Rightarrow> Inl (TypeError ''not iterable''))"

definition elems_of :: "pyval \<Rightarrow> string \<Rightarrow> pyval list res" where
  "elems_of x k = res_bind (attr x k) elems"

section \<open>The root object\<close>

record k8s_helper =
  kh_root :: "pyval option"
  kh_config_maps :: "pyval list"
  kh_role_bindings :: "pyval list"
  kh_services :: "pyval list"

definition MPI_JOB_LAUNCHER :: string where "MPI_JOB_LAUNCHER = ''Launcher''"

definition MPI_JOB_WORKER :: string where "MPI_JOB_WORKER = ''Worker''"

text \<open>
  Where \<open>get_pod_spec\<close> finds the pod: below a replica of an MPI job, in the template of a job, or in
  the job template of a cron job.
\<close>

definition no_pod_spec :: "pyval \<Rightarrow> pyexc" where
  "no_pod_spec root = KeyError (''Cannot find pod spec. root object is '' @ py_repr root)"

definition pod_spec_path :: "string option \<Rightarrow> pyval \<Rightarrow> string list res" where
  "pod_spec_path replica root =
     (case replica of
        Some ty \<Rightarrow>
          (let p = [''spec'', ''mpiReplicaSpecs'', ty, ''template'', ''spec''] in
           res_bind (attr_path root p) (\<lambda>s.
             if truthy s then Inr p else Inl (no_pod_spec root)))
      | None \<Rightarrow>
          res_bind (attr_path root [''spec'', ''template'']) (\<lambda>t.
            if truthy t then Inr [''spec'', ''template'', ''spec'']
            else res_bind (attr_path root [''spec'', ''jobTemplate'']) (\<lambda>j.
              if truthy j then
                res_bind (attr_path j [''spec'', ''template'']) (\<lambda>t.
                  if truthy t then Inr [''spec'', ''jobTemplate'', ''spec'', ''template'', ''spec'']
                  else Inr [''spec'', ''jobTemplate'', ''spec''])
              else Inl (no_pod_spec root))))"

definition get_pod_spec :: "string option \<Rightarrow> pyval \<Rightarrow> pyval res" where
  "get_pod_spec replica root = res_bind (pod_spec_path replica root) (attr_path root)"

definition update_pod_spec :: "string option \<Rightarrow> (pyval \<Rightarrow> pyval res) \<Rightarrow> pyval \<Rightarrow> pyval res" where
  "update_pod_spec replica f root =
     res_bind (pod_spec_path replica root) (\<lambda>p.
       res_bind (attr_path root p) (\<lambda>ps.
         res_bind (f ps) (set_path root p)))"

definition need_root :: "k8s_helper \<Rightarrow> pyval res" where
  "need_root h = (case kh_root h of Some r \<Rightarrow> Inr r | None \<Rightarrow> Inl (AttributeError ''_root''))"

definition on_pod :: "string option \<Rightarrow> (pyval \<Rightarrow> pyval res) \<Rightarrow> k8s_helper \<Rightarrow> k8s_helper res" where
  "on_pod replica f h =
     res_bind (need_root h) (\<lambda>r.
       res_bind (update_pod_spec replica f r) (\<lambda>r'. Inr (h\<lparr>kh_root := Some r'\<rparr>)))"

section \<open>Loading\<close>

definition validate :: "pyval \<Rightarrow> unit res" where
  "validate root =
     res_bind (attr root ''spec'') (\<lambda>s.
       if \<not> truthy s then Inl (ValueError ''Spec of root object not found at yaml definition of the Kubernetes object'')
       else res_bind (get_pod_spec None root) (\<lambda>ps.
         if \<not> truthy ps then Inl (ValueError ''Pod not found at yaml definition of the Kubernetes object'')
         else res_bind (attr ps ''containers'') (\<lambda>cs.
           if \<not> truthy cs then Inl (ValueError ''A Pod must have at least 1 container on its definition'')
           else Inr ())))"

definition validate_replica :: "string \<Rightarrow> pyval \<Rightarrow> unit res" where
  "validate_replica ty root =
     res_bind (attr_path root [''spec'', ''mpiReplicaSpecs'', ty]) (\<lambda>r.
       if \<not> truthy r then Inl (ValueError (''The replica specs of MPIJob must have '' @ ty))
       else res_bind (get_pod_spec (Some ty) root) (\<lambda>ps.
         if \<not> truthy ps then
           Inl (ValueError (''Pod not found at yaml definition of the '' @ ty @ '' Kubernetes object''))
         else res_bind (attr ps ''containers'') (\<lambda>cs.
           if \<not> truthy cs then
             Inl (ValueError (''A Pod must have at least 1 container on its '' @ ty @ '' replica definition''))
           else Inr ())))"

definition validate_mpi_spec :: "pyval \<Rightarrow> unit res" where
  "validate_mpi_spec root =
     res_bind (attr root ''spec'') (\<lambda>s.
       if \<not> truthy s then Inl (ValueError ''Spec of root object not found at yaml definition of the Kubernetes object'')
       else res_bind (attr s ''mpiReplicaSpecs'') (\<lambda>m.
         if \<not> truthy m then Inl (ValueError ''MPIJob must have mpiReplicaSpecs'')
         else res_bind (validate_replica ''Launcher'' root) (\<lambda>_. validate_replica ''Worker'' root)))"

definition default_list :: "string \<Rightarrow> pyval \<Rightarrow> pyval res" where
  "default_list k x = res_bind (attr x k) (\<lambda>v. if truthy v then Inr x else set_attr x k (PList []))"

definition create_empty_fields :: "pyval \<Rightarrow> pyval res" where
  "create_empty_fields ps =
     res_bind (default_list ''initContainers'' ps) (\<lambda>ps.
       res_bind (default_list ''volumes'' ps) (\<lambda>ps.
         res_bind (elems_of ps ''containers'') (\<lambda>cs.
           res_bind (res_map (default_list ''volumeMounts'') cs) (\<lambda>cs.
             set_attr ps ''containers'' (PList cs)))))"

definition add_doc :: "pyval \<Rightarrow> k8s_helper \<times> pyval option \<Rightarrow> (k8s_helper \<times> pyval option) res" where
  "add_doc d = (\<lambda>(h, _).
     (case d of
        PDict kvs \<Rightarrow>
          (case dict_get kvs ''kind'' of
             None \<Rightarrow> Inl (KeyError ''kind'')
           | Some kind \<Rightarrow>
               if kind = PStr ''ConfigMap'' then
                 Inr (h\<lparr>kh_config_maps := kh_config_maps h @ [d]\<rparr>, Some kind)
               else if kind \<in> PStr ` {''CronJob'', ''Job'', ''MPIJob''} then
                 Inr (h\<lparr>kh_root := Some d\<rparr>, Some kind)
               else if kind = PStr ''RoleBinding'' then
                 Inr (h\<lparr>kh_role_bindings := kh_role_bindings h @ [d]\<rparr>, Some kind)
               else if kind = PStr ''Service'' then
                 Inr (h\<lparr>kh_services := kh_services h @ [d]\<rparr>, Some kind)
               else Inl (ValueError (''Kubernetes yaml object is of an unsupported kind type: '' @ py_str kind)))
      | _ \<Rightarrow> Inl (TypeError ''not subscriptable'')))"

text \<open>The kind that decides on the validation is that of the last document.\<close>

definition load_helper :: "pyval list \<Rightarrow> k8s_helper res" where
  "load_helper docs =
     res_bind (res_fold add_doc docs
       (\<lparr>kh_root = None, kh_config_maps = [], kh_role_bindings = [], kh_services = []\<rparr>, None)) (\<lambda>(h, kind).
       case kind of
         None \<Rightarrow> Inl (OtherException ''UnboundLocalError'')
       | Some k \<Rightarrow>
           if k = PStr ''MPIJob'' then
             res_bind (need_root h) (\<lambda>r.
               res_bind (validate_mpi_spec r) (\<lambda>_.
                 res_bind (on_pod (Some MPI_JOB_LAUNCHER) create_empty_fields h)
                   (on_pod (Some MPI_JOB_WORKER) create_empty_fields)))
           else
             res_bind (need_root h) (\<lambda>r.
               res_bind (validate r) (\<lambda>_. on_pod None create_empty_fields h)))"

section \<open>Containers\<close>

fun find_named :: "string \<Rightarrow> pyval list \<Rightarrow> nat option res" where
  "find_named n [] = Inr None"
| "find_named n (c # cs) =
     res_bind (attr c ''name'') (\<lambda>v.
       if v = PStr n then Inr (Some 0)
       else res_bind (find_named n cs) (\<lambda>i. Inr (map_option Suc i)))"

definition names_of :: "pyval list \<Rightarrow> string res" where
  "names_of cs = res_bind (res_map (\<lambda>c. attr c ''name'') cs) (\<lambda>ns. Inr (py_repr (PList ns)))"

text \<open>The list and the index of a container: the containers come before the init containers.\<close>

definition locate_container :: "string \<Rightarrow> pyval \<Rightarrow> (string \<times> nat) res" where
  "locate_container n ps =
     res_bind (elems_of ps ''containers'') (\<lambda>cs.
       res_bind (elems_of ps ''initContainers'') (\<lambda>ins.
         res_bind (find_named n cs) (\<lambda>i.
           case i of
             Some i \<Rightarrow> Inr (''containers'', i)
           | None \<Rightarrow>
               res_bind (find_named n ins) (\<lambda>i.
                 case i of
                   Some i \<Rightarrow> Inr (''initContainers'', i)
                 | None \<Rightarrow>
                     res_bind (names_of (cs @ ins)) (\<lambda>ns.
                       Inl (ValueError (''Container '' @ n @ '' not found. Available containers are: '' @ ns)))))))"

definition find_container :: "string \<Rightarrow> pyval \<Rightarrow> pyval res" where
  "find_container n ps =
     res_bind (locate_container n ps) (\<lambda>(f, i). res_bind (elems_of ps f) (\<lambda>cs. Inr (cs ! i)))"

text \<open>A change of the container that \<open>find_container\<close> returned.\<close>

definition update_container :: "string \<Rightarrow> (pyval \<Rightarrow> pyval res) \<Rightarrow> pyval \<Rightarrow> pyval res" where
  "update_container n g ps =
     res_bind (locate_container n ps) (\<lambda>(f, i).
       res_bind (elems_of ps f) (\<lambda>cs.
         res_bind (g (cs ! i)) (\<lambda>c. set_attr ps f (PList (cs[i := c])))))"

text \<open>The elements before the one that is removed have other names, so it is the first equal one.\<close>

definition remove_container :: "string \<Rightarrow> pyval \<Rightarrow> pyval res" where
  "remove_container n ps =
     res_bind (locate_container n ps) (\<lambda>(f, i).
       res_bind (elems_of ps f) (\<lambda>cs.
         set_attr ps f (PList (take i cs @ drop (Suc i) cs))))"

definition remove_affinity :: "pyval \<Rightarrow> pyval res" where
  "remove_affinity ps = del_attr ps ''affinity''"

definition set_service_account :: "string \<Rightarrow> pyval \<Rightarrow> pyval res" where
  "set_service_account acc ps = set_attr ps ''serviceAccountName'' (PStr acc)"

definition opt_int :: "int option \<Rightarrow> pyval" where
  "opt_int i = (case i of None \<Rightarrow> PNone | Some n \<Rightarrow> PInt n)"

definition opt_str :: "string option \<Rightarrow> pyval" where
  "opt_str s = (case s of None \<Rightarrow> PNone | Some t \<Rightarrow> PStr t)"

definition add_container_ports_to_container :: "string \<Rightarrow> int list \<Rightarrow> pyval \<Rightarrow> pyval res" where
  "add_container_ports_to_container n ports =
     update_container n (\<lambda>c.
       res_bind (attr c ''ports'') (\<lambda>old.
         let new = map (\<lambda>p. PDict [(''containerPort'', PInt p)]) ports in
         if \<not> truthy old then set_attr c ''ports'' (PList new)
         else case old of
           PList xs \<Rightarrow> set_attr c ''ports'' (PList (new @ xs))
         | _ \<Rightarrow> Inl (TypeError ''can only concatenate list'')))"

definition readiness_probe :: "http_probe_descriptor \<Rightarrow> int \<Rightarrow> pyval res" where
  "readiness_probe p default_port =
     (case probe_scheme p of
        None \<Rightarrow> Inl (AttributeError ''value'')
      | Some sch \<Rightarrow> Inr (PDict
         [(''httpGet'', PDict
            [(''path'', PStr (probe_path p)),
             (''port'', PInt (case probe_port p of Some n \<Rightarrow> if n \<noteq> 0 then n else default_port | None \<Rightarrow> default_port)),
             (''scheme'', PStr (str_upper (probe_scheme_value sch)))]),
          (''initialDelaySeconds'', opt_int (initial_delay_seconds p)),
          (''periodSeconds'', opt_int (period_seconds p)),
          (''timeoutSeconds'', opt_int (timeout_seconds p)),
          (''successThreshold'', opt_int (success_threshold p)),
          (''failureThreshold'', opt_int (failure_threshold p))]))"

definition add_readiness_probe :: "string \<Rightarrow> http_probe_descriptor \<Rightarrow> int \<Rightarrow> pyval \<Rightarrow> pyval res" where
  "add_readiness_probe n p default_port =
     update_container n (\<lambda>c.
       res_bind (readiness_probe p default_port) (set_attr c ''readinessProbe''))"

section \<open>Volumes\<close>

text \<open>
  The loop over the mounts of a container removes from the list it runs over: the position moves
  on although the rest has moved up.  \<open>list.remove\<close> takes the first equal element.
\<close>

function prune_mounts :: "nat \<Rightarrow> string \<Rightarrow> pyval list \<Rightarrow> pyval list res" where
  "prune_mounts i vol ms =
     (if i < length ms then
        res_bind (attr (ms ! i) ''name'') (\<lambda>n.
          prune_mounts (Suc i) vol (if n = PStr vol then remove1 (ms ! i) ms else ms))
      else Inr ms)"
  by pat_completeness auto
termination
  by (relation "measure (\<lambda>(i, vol, ms). length ms - i)") (auto simp: length_remove1)

declare prune_mounts.simps [simp del]

definition remove_mounts :: "string \<Rightarrow> pyval \<Rightarrow> pyval res" where
  "remove_mounts vol c =
     res_bind (elems_of c ''volumeMounts'') (\<lambda>ms.
       res_bind (prune_mounts 0 vol ms) (\<lambda>ms'.
         if ms' = ms then Inr c else set_attr c ''volumeMounts'' (PList ms')))"

definition remove_mounts_of :: "string \<Rightarrow> string \<Rightarrow> pyval \<Rightarrow> pyval res" where
  "remove_mounts_of vol field ps =
     res_bind (elems_of ps field) (\<lambda>cs.
       res_bind (res_map (remove_mounts vol) cs) (\<lambda>cs'.
         if cs' = cs then Inr ps else set_attr ps field (PList cs')))"

definition remove_volume :: "string \<Rightarrow> pyval \<Rightarrow> pyval res" where
  "remove_volume vol ps =
     res_bind (elems_of ps ''volumes'') (\<lambda>vs.
       res_bind (find_named vol vs) (\<lambda>i.
         case i of
           None \<Rightarrow>
             res_bind (names_of vs) (\<lambda>ns.
               Inl (ValueError (''Volume '' @ vol @ '' not found. Available volumes are: '' @ ns)))
         | Some i \<Rightarrow>
             res_bind (set_attr ps ''volumes'' (PList (take i vs @ drop (Suc i) vs))) (\<lambda>ps.
               res_bind (remove_mounts_of vol ''containers'' ps) (remove_mounts_of vol ''initContainers''))))"

section \<open>Environment variables\<close>

definition hashable :: "pyval \<Rightarrow> bool" where
  "hashable v = (case v of PList _ \<Rightarrow> False | PDict _ \<Rightarrow> False | _ \<Rightarrow> True)"

definition env_entry :: "pyval \<Rightarrow> (pyval \<times> pyval) res" where
  "env_entry var =
     res_bind (attr var ''name'') (\<lambda>n.
       res_bind (attr var ''value'') (\<lambda>v.
         if hashable n then Inr (n, v) else Inl (TypeError ''unhashable type'')))"

definition merge_env :: "pyval dict \<Rightarrow> pyval \<Rightarrow> pyval res" where
  "merge_env new c =
     res_bind (attr c ''env'') (\<lambda>e.
       res_bind (if truthy e then elems e else Inr []) (\<lambda>vars.
         res_bind (res_map env_entry vars) (\<lambda>old.
           set_attr c ''env'' (PList (map (\<lambda>(k, v). PDict [(''name'', k), (''value'', PStr (py_str v))])
             (dict_update (dict_update [] old) (map (apfst PStr) new)))))))"

definition helper_add_env_vars :: "string \<Rightarrow> pyval dict \<Rightarrow> pyval \<Rightarrow> pyval res" where
  "helper_add_env_vars n new ps = (if new = [] then Inr ps else update_container n (merge_env new) ps)"

section \<open>Services and config maps\<close>

fun find_by_meta_name :: "string \<Rightarrow> pyval list \<Rightarrow> nat option res" where
  "find_by_meta_name n [] = Inr None"
| "find_by_meta_name n (x # xs) =
     res_bind (attr_path x [''metadata'', ''name'']) (\<lambda>v.
       if v = PStr n then Inr (Some 0)
       else res_bind (find_by_meta_name n xs) (\<lambda>i. Inr (map_option Suc i)))"

text \<open>
  The new ports are appended to the list that \<open>get\<close> returns: when the service has no specification
  or the specification no ports, that is a fresh list and the change is lost.
\<close>

definition append_service_ports :: "int list \<Rightarrow> pyval \<Rightarrow> pyval res" where
  "append_service_ports ports svc =
     (let new = map (\<lambda>(i, p). PDict [(''name'', PStr (''port-'' @ show_nat i)), (''protocol'', PStr ''TCP''), (''port'', PInt p)])
                  (enumerate 0 ports) in
      case svc of
        PDict d \<Rightarrow>
          (case dict_get d ''spec'' of
             None \<Rightarrow> Inr svc
           | Some (PDict sp) \<Rightarrow>
               (case dict_get sp ''ports'' of
                  None \<Rightarrow> Inr svc
                | Some (PList old) \<Rightarrow>
                    Inr (PDict (dict_set d ''spec'' (PDict (dict_set sp ''ports'' (PList (old @ new))))))
                | Some _ \<Rightarrow> if ports = [] then Inr svc else Inl (AttributeError ''append''))
           | Some _ \<Rightarrow> Inl (AttributeError ''get''))
      | _ \<Rightarrow> Inl (AttributeError ''get''))"

definition add_tcp_ports_to_service :: "string \<Rightarrow> int list \<Rightarrow> k8s_helper \<Rightarrow> k8s_helper res" where
  "add_tcp_ports_to_service n ports h =
     res_bind (res_map (\<lambda>x. attr_path x [''metadata'', ''name'']) (kh_services h)) (\<lambda>_.
       res_bind (find_by_meta_name n (kh_services h)) (\<lambda>i.
         case i of
           None \<Rightarrow> Inr h
         | Some i \<Rightarrow>
             res_bind (append_service_ports ports (kh_services h ! i)) (\<lambda>svc.
               Inr (h\<lparr>kh_services := (kh_services h)[i := svc]\<rparr>))))"

definition find_config_map :: "string \<Rightarrow> k8s_helper \<Rightarrow> nat res" where
  "find_config_map n h =
     res_bind (find_by_meta_name n (kh_config_maps h)) (\<lambda>i.
       case i of
         Some i \<Rightarrow> Inr i
       | None \<Rightarrow>
           res_bind (res_map (\<lambda>x. attr_path x [''metadata'', ''name'']) (kh_config_maps h)) (\<lambda>ns.
             Inl (ValueError (''ConfigMap '' @ n @ '' not found. Available ones are: '' @ py_repr (PList ns)))))"

section \<open>Labels\<close>

text \<open>
  \<open>_add_label\<close> walks over an object breadth first and changes it on the way.  The nodes it still
  has to visit are references into the object, here the paths of keys that lead to them.
\<close>

fun sub_at :: "pyval \<Rightarrow> string list \<Rightarrow> pyval option" where
  "sub_at t [] = Some t"
| "sub_at (PDict d) (k # p) = (case dict_get d k of None \<Rightarrow> None | Some c \<Rightarrow> sub_at c p)"
| "sub_at t (k # p) = None"

fun put_at :: "pyval \<Rightarrow> string list \<Rightarrow> pyval \<Rightarrow> pyval" where
  "put_at t [] v = v"
| "put_at (PDict d) (k # p) v =
     (case dict_get d k of None \<Rightarrow> PDict d | Some c \<Rightarrow> PDict (dict_set d k (put_at c p v)))"
| "put_at t (k # p) v = t"

text \<open>What the loop does at a dictionary.\<close>

definition visit_label :: "string \<Rightarrow> string option \<Rightarrow> pyval dict \<Rightarrow> pyval dict res" where
  "visit_label key val d =
     (case dict_get d ''metadata'' of
        None \<Rightarrow> Inr d
      | Some m \<Rightarrow>
          if \<not> truthy m then Inr d
          else case m of
            PDict md \<Rightarrow>
              (let labels = (case dict_get md ''labels'' of
                               Some l \<Rightarrow> if truthy l then l else PDict []
                             | None \<Rightarrow> PDict [])
               in case labels of
                 PDict ld \<Rightarrow>
                   Inr (dict_set d ''metadata'' (PDict (dict_set md ''labels'' (PDict (dict_set ld key (opt_str val))))))
               | _ \<Rightarrow> Inl (TypeError ''labels''))
          | _ \<Rightarrow> Inl (AttributeError ''get''))"

fun add_label_loop :: "nat \<Rightarrow> string \<Rightarrow> string option \<Rightarrow> string list list \<Rightarrow> pyval \<Rightarrow> pyval res option" where
  "add_label_loop n key val [] t = Some (Inr t)"
| "add_label_loop 0 key val (p # ps) t = None"
| "add_label_loop (Suc n) key val (p # ps) t =
     (case sub_at t p of
        Some (PDict d) \<Rightarrow>
          (case visit_label key val d of
             Inl e \<Rightarrow> Some (Inl e)
           | Inr d' \<Rightarrow>
               add_label_loop n key val (ps @ map (\<lambda>(k, _). p @ [k]) d') (put_at t p (PDict d')))
      | _ \<Rightarrow> add_label_loop n key val ps t)"

text \<open>
  The number of steps of the loop: a node counts once, and a dictionary whose metadata are
  labelled three times more, for the entries that the label adds.
\<close>

fun label_steps :: "pyval \<Rightarrow> nat" where
  "label_steps (PDict d) =
     1 + sum_list (map (\<lambda>(k, c). label_steps c) d) +
     (case dict_get d ''metadata'' of Some (PDict (x # md)) \<Rightarrow> 3 | _ \<Rightarrow> 0)"
| "label_steps _ = 1"

definition add_label_to :: "string \<Rightarrow> string option \<Rightarrow> pyval \<Rightarrow> pyval res" where
  "add_label_to key val t =
     (if \<not> truthy t then Inr t
      else case add_label_loop (label_steps t) key val [[]] t of
        Some r \<Rightarrow> r
      | None \<Rightarrow> Inl (OtherException ''not enough steps''))"

definition add_label :: "string \<Rightarrow> string option \<Rightarrow> k8s_helper \<Rightarrow> k8s_helper res" where
  "add_label key val h =
     res_bind (need_root h) (\<lambda>r.
     res_bind (add_label_to key val r) (\<lambda>r'.
     res_bind (res_map (add_label_to key val) (kh_config_maps h)) (\<lambda>cms.
     res_bind (res_map (add_label_to key val) (kh_role_bindings h)) (\<lambda>rbs.
     res_bind (res_map (add_label_to key val) (kh_services h)) (\<lambda>svs.
       Inr (h\<lparr>kh_root := Some r', kh_config_maps := cms, kh_role_bindings := rbs, kh_services := svs\<rparr>))))))"

section \<open>Reading and writing\<close>

definition to_yaml :: "(pyval list \<Rightarrow> string) \<Rightarrow> k8s_helper \<Rightarrow> string res" where
  "to_yaml dump_all h =
     res_bind (need_root h) (\<lambda>r.
       Inr (dump_all (kh_role_bindings h @ kh_config_maps h @ kh_services h @ [r])))"

record config_template =
  yaml_template_contents :: string
  variables :: "(string \<times> tobj) list"

definition feed :: "(string \<times> tobj) list \<Rightarrow> config_template \<Rightarrow> config_template" where
  "feed vs t = t\<lparr>variables := dict_update (variables t) vs\<rparr>"

definition build_template :: "(string \<Rightarrow> pyval list res) \<Rightarrow> config_template \<Rightarrow> k8s_helper res" where
  "build_template load_all t =
     res_bind (str_format (variables t) None (yaml_template_contents t)) (\<lambda>contents.
       res_bind (load_all contents) load_helper)"

section \<open>References into an object\<close>

lemma dict_set_same [simp]: "dict_get d k = Some c \<Longrightarrow> dict_set d k c = d"
  by (induction d) (auto split: if_splits)

lemma dict_set_set [simp]: "dict_set (dict_set d k a) k b = dict_set d k b"
  by (induction d k a rule: dict_set.induct) auto

lemma dict_set_swap:
  "k \<noteq> k' \<Longrightarrow> dict_get d k = Some a \<Longrightarrow> dict_get d k' = Some b \<Longrightarrow>
   dict_set (dict_set d k x) k' y = dict_set (dict_set d k' y) k x"
  by (induction d) auto

lemma sub_at_Cons:
  "sub_at t (k # p) = (case t of PDict d \<Rightarrow> (case dict_get d k of None \<Rightarrow> None | Some c \<Rightarrow> sub_at c p) | _ \<Rightarrow> None)"
  by (cases t) auto

lemma put_at_Cons:
  "put_at t (k # p) v =
     (case t of PDict d \<Rightarrow> (case dict_get d k of None \<Rightarrow> t | Some c \<Rightarrow> PDict (dict_set d k (put_at c p v))) | _ \<Rightarrow> t)"
  by (cases t) auto

lemma sub_at_append: "sub_at t (p @ q) = (case sub_at t p of None \<Rightarrow> None | Some x \<Rightarrow> sub_at x q)"
  by (induction t p rule: sub_at.induct) (auto split: option.splits)

lemma sub_put_self: "sub_at t p = Some x \<Longrightarrow> sub_at (put_at t p c) p = Some c"
  by (induction t p rule: sub_at.induct) (auto split: option.splits)

lemma put_put_below:
  "sub_at t p = Some x \<Longrightarrow> put_at (put_at t p c) (p @ q) c' = put_at t p (put_at c q c')"
  by (induction t p rule: sub_at.induct) (auto split: option.splits)

lemma sub_put_parallel: "p \<parallel> q \<Longrightarrow> sub_at (put_at t p c) q = sub_at t q"
proof (induction p arbitrary: t q)
  case Nil
  then show ?case by simp
next
  case (Cons k p)
  then obtain k' q' where q: "q = k' # q'" by (cases q) (auto simp: parallel_def)
  with Cons.prems have "k = k' \<Longrightarrow> p \<parallel> q'" by (auto simp: parallel_def)
  then show ?case using q Cons.IH
    by (cases t) (auto simp: put_at_Cons sub_at_Cons split: option.splits)
qed

lemma put_put_parallel: "p \<parallel> q \<Longrightarrow> put_at (put_at t p c) q c' = put_at (put_at t q c') p c"
proof (induction p arbitrary: t q)
  case Nil
  then show ?case by simp
next
  case (Cons k p)
  then obtain k' q' where q: "q = k' # q'" by (cases q) (auto simp: parallel_def)
  show ?case
  proof (cases "k = k'")
    case True
    with Cons.prems q have "p \<parallel> q'" by (auto simp: parallel_def)
    then show ?thesis using q True Cons.IH by (cases t) (auto split: option.splits)
  next
    case False
    then show ?thesis using q dict_set_swap by (cases t) (fastforce split: option.splits)+
  qed
qed

lemma put_at_invalid: "sub_at t p = None \<Longrightarrow> put_at t p c = t"
  by (induction t p rule: sub_at.induct) (auto split: option.splits)

section \<open>Labelling by recursion\<close>

text \<open>
  The specification of the loop: label this dictionary, then everything below it.
\<close>

lemma res_bind_cong [fundef_cong]:
  "m = m' \<Longrightarrow> (\<And>x. m' = Inr x \<Longrightarrow> f x = f' x) \<Longrightarrow> res_bind m f = res_bind m' f'"
  by (cases m') auto

lemma res_map_cong [fundef_cong]:
  "xs = ys \<Longrightarrow> (\<And>x. x \<in> set ys \<Longrightarrow> f x = g x) \<Longrightarrow> res_map f xs = res_map g ys"
  by (induction xs arbitrary: ys) auto

lemma label_steps_pos: "0 < label_steps t"
  by (cases t) auto

lemma sum_list_dict_set_le:
  fixes f :: "'v \<Rightarrow> nat"
  shows "dict_get d k = Some a \<Longrightarrow> f b \<le> f a + n \<Longrightarrow>
    sum_list (map (\<lambda>(k, c). f c) (dict_set d k b)) \<le> sum_list (map (\<lambda>(k, c). f c) d) + n"
  by (induction d) (auto split: if_splits)

lemma sum_list_dict_set_new:
  fixes f :: "'v \<Rightarrow> nat"
  shows "sum_list (map (\<lambda>(k, c). f c) (dict_set d k b)) \<le> sum_list (map (\<lambda>(k, c). f c) d) + f b"
  by (induction d) auto

text \<open>Visiting a dictionary leaves fewer steps for what is below it.\<close>

lemma label_steps_leaf [simp]: "label_steps (opt_str v) = 1"
  by (cases v) (simp_all add: opt_str_def)

lemma label_steps_set_label:
  "label_steps (PDict (dict_set ld key (opt_str v))) \<le> label_steps (PDict ld) + 1"
proof -
  have "(case dict_get (dict_set ld key (opt_str v)) ''metadata'' of Some (PDict (x # md)) \<Rightarrow> 3 | _ \<Rightarrow> (0 :: nat))
      \<le> (case dict_get ld ''metadata'' of Some (PDict (x # md)) \<Rightarrow> 3 | _ \<Rightarrow> 0)"
    by (auto simp: opt_str_def split: option.splits pyval.splits list.splits)
  moreover have "sum_list (map (\<lambda>(k, c). label_steps c) (dict_set ld key (opt_str v)))
      \<le> sum_list (map (\<lambda>(k, c). label_steps c) ld) + 1"
    using sum_list_dict_set_new [of label_steps ld key "opt_str v"] by simp
  ultimately show ?thesis by simp
qed

lemma label_steps_set_labels:
  assumes "n \<le> 2"
    and "\<And>l. dict_get md ''labels'' = Some l \<Longrightarrow> label_steps lab \<le> label_steps l + n"
    and "dict_get md ''labels'' = None \<Longrightarrow> label_steps lab \<le> n"
  shows "label_steps (PDict (dict_set md ''labels'' lab)) \<le> label_steps (PDict md) + 2"
proof -
  have "sum_list (map (\<lambda>(k, c). label_steps c) (dict_set md ''labels'' lab))
      \<le> sum_list (map (\<lambda>(k, c). label_steps c) md) + n"
  proof (cases "dict_get md ''labels''")
    case None
    with assms sum_list_dict_set_new [of label_steps md "''labels''" lab] show ?thesis by simp
  next
    case (Some l)
    with assms show ?thesis by (intro sum_list_dict_set_le) auto
  qed
  with \<open>n \<le> 2\<close> show ?thesis by simp
qed

lemma label_steps_new_labels: "label_steps (PDict (dict_set [] key (opt_str v))) = 2"
  by (auto simp: opt_str_def split: option.splits)

lemma visit_label_cases:
  assumes "visit_label key v d = Inr d'"
  obtains "d' = d" "\<nexists>md. dict_get d ''metadata'' = Some (PDict md) \<and> md \<noteq> []"
  | md ld where "dict_get d ''metadata'' = Some (PDict md)" "md \<noteq> []"
      "d' = dict_set d ''metadata'' (PDict (dict_set md ''labels'' (PDict (dict_set ld key (opt_str v)))))"
      "dict_get md ''labels'' = Some (PDict ld) \<or> ld = [] \<and> (\<forall>l. dict_get md ''labels'' = Some l \<longrightarrow> \<not> truthy l)"
proof (cases "\<exists>md. dict_get d ''metadata'' = Some (PDict md) \<and> md \<noteq> []")
  case False
  moreover from this have "d' = d"
    using assms by (auto simp: visit_label_def split: option.splits if_splits pyval.splits)
  ultimately show ?thesis using that(1) by blast
next
  case True
  then obtain md where md: "dict_get d ''metadata'' = Some (PDict md)" "md \<noteq> []" by blast
  show ?thesis
  proof (cases "\<exists>l. dict_get md ''labels'' = Some l \<and> truthy l")
    case True
    with md assms obtain ld where "dict_get md ''labels'' = Some (PDict ld)"
      by (auto simp: visit_label_def split: pyval.splits)
    moreover from this md assms True have
      "d' = dict_set d ''metadata'' (PDict (dict_set md ''labels'' (PDict (dict_set ld key (opt_str v)))))"
      by (simp add: visit_label_def)
    ultimately show ?thesis using md that(2) by blast
  next
    case False
    with md assms have
      "d' = dict_set d ''metadata'' (PDict (dict_set md ''labels'' (PDict (dict_set [] key (opt_str v)))))"
      by (auto simp: visit_label_def split: option.splits)
    with False md show ?thesis using that(2) [of md "[]"] by blast
  qed
qed

lemma visit_label_steps:
  assumes "visit_label key v d = Inr d'"
  shows "sum_list (map (\<lambda>(k, c). label_steps c) d') < label_steps (PDict d)"
  using assms
proof (cases rule: visit_label_cases)
  case 1
  then show ?thesis by simp
next
  case (2 md ld)
  let ?lab = "PDict (dict_set ld key (opt_str v))"
  let ?md = "PDict (dict_set md ''labels'' ?lab)"
  have "label_steps ?md \<le> label_steps (PDict md) + 2"
    using 2(4)
  proof
    assume "dict_get md ''labels'' = Some (PDict ld)"
    then show ?thesis
      using label_steps_set_label [of ld key v] by (intro label_steps_set_labels [of 1]) auto
  next
    assume ld: "ld = [] \<and> (\<forall>l. dict_get md ''labels'' = Some l \<longrightarrow> \<not> truthy l)"
    then show ?thesis
      using label_steps_new_labels [of key v] by (intro label_steps_set_labels [of 2]) auto
  qed
  with 2(1) have "sum_list (map (\<lambda>(k, c). label_steps c) d') \<le> sum_list (map (\<lambda>(k, c). label_steps c) d) + 2"
    unfolding 2(3) by (rule sum_list_dict_set_le)
  moreover have "label_steps (PDict d) = sum_list (map (\<lambda>(k, c). label_steps c) d) + 4"
    using 2 by (cases md) auto
  ultimately show ?thesis by simp
qed

lemma label_steps_child:
  "(k, c) \<in> set d \<Longrightarrow> label_steps c \<le> sum_list (map (\<lambda>(k, c). label_steps c) d)"
  by (induction d) auto

function label_rec :: "string \<Rightarrow> string option \<Rightarrow> pyval \<Rightarrow> pyval res" where
  "label_rec key v t =
     (case t of
        PDict d \<Rightarrow>
          res_bind (visit_label key v d) (\<lambda>d'.
            res_bind (res_map (\<lambda>kc. res_bind (label_rec key v (snd kc)) (\<lambda>c'. Inr (fst kc, c'))) d')
              (\<lambda>d''. Inr (PDict d'')))
      | _ \<Rightarrow> Inr t)"
  by pat_completeness auto
termination
proof (relation "measure (\<lambda>(key, v, t). label_steps t)")
  fix key v t d d' kc
  assume "t = PDict d" and "visit_label key v d = Inr d'" and "kc \<in> set d'"
  then show "((key, v, snd kc), (key, v, t)) \<in> measure (\<lambda>(key, v, t). label_steps t)"
    using visit_label_steps [of key v d d'] label_steps_child [of "fst kc" "snd kc" d'] by simp
qed simp

declare label_rec.simps [simp del]

lemma label_rec_dict:
  assumes "label_rec key v (PDict d) = Inr t'"
  obtains d' where "visit_label key v d = Inr d'" "\<forall>(k, c) \<in> set d'. \<exists>c'. label_rec key v c = Inr c'"
    "t' = PDict (map (\<lambda>(k, c). (k, projr (label_rec key v c))) d')"
proof -
  from assms obtain d' d'' where d: "visit_label key v d = Inr d'" "t' = PDict d''"
    and l: "list_all2 (\<lambda>kc kc'. res_bind (label_rec key v (snd kc)) (\<lambda>c'. Inr (fst kc, c')) = Inr kc') d' d''"
    by (auto simp: label_rec.simps [of key v "PDict d"] res_map_Inr_iff)
  have "d'' = map (\<lambda>(k, c). (k, projr (label_rec key v c))) d'"
    using l by (induction rule: list_all2_induct) auto
  moreover have "\<forall>(k, c) \<in> set d'. \<exists>c'. label_rec key v c = Inr c'"
    using l by (induction rule: list_all2_induct) auto
  ultimately show ?thesis using d that by blast
qed

lemma label_rec_leaf: "\<nexists>d. t = PDict d \<Longrightarrow> label_rec key v t = Inr t"
  by (cases t) (simp_all add: label_rec.simps)

lemma json_wf_set:
  "json_wf (PDict d) \<Longrightarrow> json_wf x \<Longrightarrow> json_wf (PDict (dict_set d k x))"
proof -
  have "set (dict_set d k x) \<subseteq> set d \<union> {(k, x)}" by (induction d k x rule: dict_set.induct) auto
  then show "json_wf (PDict d) \<Longrightarrow> json_wf x \<Longrightarrow> json_wf (PDict (dict_set d k x))" by auto
qed

lemma json_wf_get: "json_wf (PDict d) \<Longrightarrow> dict_get d k = Some c \<Longrightarrow> json_wf c"
  using json_wf_PDictD dict_get_SomeD by metis

lemma json_wf_sub: "json_wf t \<Longrightarrow> sub_at t p = Some c \<Longrightarrow> json_wf c"
  by (induction t p rule: sub_at.induct) (auto split: option.splits simp del: json_wf.simps dest: json_wf_get)

lemma json_wf_put: "json_wf t \<Longrightarrow> json_wf c \<Longrightarrow> json_wf (put_at t p c)"
  by (induction t p c rule: put_at.induct)
    (auto split: option.splits simp del: json_wf.simps(2) intro: json_wf_set dest: json_wf_get)

lemma json_wf_visit:
  assumes "visit_label key v d = Inr d'" and "json_wf (PDict d)"
  shows "json_wf (PDict d')"
  using assms(1)
proof (cases rule: visit_label_cases)
  case 1
  with assms show ?thesis by simp
next
  case (2 md ld)
  have md: "json_wf (PDict md)" using assms(2) 2(1) by (rule json_wf_get)
  have "json_wf (PDict ld)" using 2(4) md json_wf_get by fastforce
  then have "json_wf (PDict (dict_set ld key (opt_str v)))"
    by (intro json_wf_set) (auto simp: opt_str_def split: option.splits)
  from json_wf_set [OF assms(2) json_wf_set [OF md this]] show ?thesis unfolding 2(3) by blast
qed

section \<open>The loop and the recursion agree\<close>

definition lab :: "string \<Rightarrow> string option \<Rightarrow> pyval \<Rightarrow> pyval" where
  "lab key v c = projr (label_rec key v c)"

definition lab_step :: "string \<Rightarrow> string option \<Rightarrow> string list \<Rightarrow> pyval \<Rightarrow> pyval" where
  "lab_step key v p t = (case sub_at t p of None \<Rightarrow> t | Some c \<Rightarrow> put_at t p (lab key v c))"

lemma put_at_same: "sub_at t p = Some c \<Longrightarrow> put_at t p c = t"
  by (induction t p rule: sub_at.induct) (auto split: option.splits)

lemma lab_step_commute:
  assumes "p = q \<or> p \<parallel> q"
  shows "lab_step key v p \<circ> lab_step key v q = lab_step key v q \<circ> lab_step key v p"
  using assms
proof
  assume pq: "p \<parallel> q"
  then have "q \<parallel> p" by (auto simp: parallel_def)
  with pq show ?thesis
    by (auto simp: fun_eq_iff lab_step_def sub_put_parallel put_put_parallel [OF pq] split: option.splits)
qed simp

text \<open>Labelling the children of a visited node one after the other labels the node.\<close>

lemma fold_children:
  assumes "sub_at t p = Some x" and "distinct (map fst (d1 @ d2))"
  shows "fold (lab_step key v) (map (\<lambda>(k, _). p @ [k]) d2)
      (put_at t p (PDict (map (\<lambda>(k, c). (k, lab key v c)) d1 @ d2))) =
    put_at t p (PDict (map (\<lambda>(k, c). (k, lab key v c)) (d1 @ d2)))"
  using assms(2)
proof (induction d2 arbitrary: d1)
  case Nil
  then show ?case by simp
next
  case (Cons kc d2)
  obtain k c where kc: "kc = (k, c)" by (cases kc)
  let ?f = "\<lambda>(k, c). (k, lab key v c)"
  let ?d = "map ?f d1 @ kc # d2"
  have notin: "k \<notin> fst ` set (map ?f d1)" using Cons.prems kc by force
  then have "map_of (map ?f d1) k = None" by (simp add: map_of_eq_None_iff)
  then have get: "dict_get ?d k = Some c"
    using kc by (simp add: dict_get_def map_add_def)
  have set: "dict_set ?d k (lab key v c) = map ?f (d1 @ [kc]) @ d2"
    using notin kc by (induction d1) auto
  have "lab_step key v (p @ [k]) (put_at t p (PDict ?d)) = put_at t p (PDict (map ?f (d1 @ [kc]) @ d2))"
    using assms(1) get set
    by (simp add: lab_step_def sub_at_append sub_put_self put_put_below)
  with Cons.IH [of "d1 @ [kc]"] Cons.prems kc show ?case by simp
qed

text \<open>The queue of the loop: different references, none below another, all into the object.\<close>

definition queue_ok :: "string list list \<Rightarrow> pyval \<Rightarrow> bool" where
  "queue_ok ps t \<longleftrightarrow>
     distinct ps \<and> (\<forall>p \<in> set ps. \<forall>q \<in> set ps. p = q \<or> p \<parallel> q) \<and>
     (\<forall>p \<in> set ps. sub_at t p \<noteq> None) \<and> json_wf t"

definition queue_steps :: "string list list \<Rightarrow> pyval \<Rightarrow> nat" where
  "queue_steps ps t = sum_list (map (\<lambda>p. label_steps (the (sub_at t p))) ps)"

lemma queue_ok_Cons:
  assumes "queue_ok (p # qs) t"
  shows "queue_ok qs t" "\<And>q. q \<in> set qs \<Longrightarrow> p \<parallel> q" "sub_at t p \<noteq> None"
  using assms by (auto simp: queue_ok_def)

lemma children_subs:
  assumes "dict_wf d'" and "sub_at t p = Some x" and "(k, c) \<in> set d'"
  shows "sub_at (put_at t p (PDict d')) (p @ [k]) = Some c"
proof -
  have "dict_get d' k = Some c" using assms(1,3) by (simp add: dict_get_def dict_wf_def)
  with assms(2) show ?thesis by (simp add: sub_at_append sub_put_self)
qed

lemma queue_visit:
  assumes q: "queue_ok (p # qs) t" and d: "sub_at t p = Some (PDict d)" and vis: "visit_label key v d = Inr d'"
  defines "t1 \<equiv> put_at t p (PDict d')" and "ch \<equiv> map (\<lambda>(k, _). p @ [k]) d'"
  shows "queue_ok (qs @ ch) t1" and "queue_steps (qs @ ch) t1 < queue_steps (p # qs) t"
    and "\<And>r. r \<in> set qs \<Longrightarrow> sub_at t1 r = sub_at t r" and "dict_wf d'"
proof -
  note qp = queue_ok_Cons [OF q]
  have wft: "json_wf t" using q by (simp add: queue_ok_def)
  have wfd': "json_wf (PDict d')" using json_wf_visit [OF vis json_wf_sub [OF wft d]] .
  then show wf: "dict_wf d'" by simp
  show sub: "sub_at t1 r = sub_at t r" if "r \<in> set qs" for r
    unfolding t1_def using qp(2) [OF that] by (rule sub_put_parallel)
  have chsub: "sub_at t1 (p @ [k]) = Some c" if "(k, c) \<in> set d'" for k c
    unfolding t1_def using wf d that by (rule children_subs)
  have "distinct (map (\<lambda>k. p @ [k]) (map fst d'))"
    using wf unfolding dict_wf_def by (subst distinct_map) (simp add: inj_on_def)
  moreover have "map (\<lambda>k. p @ [k]) (map fst d') = ch" unfolding ch_def by (induction d') auto
  ultimately have dist: "distinct ch" by metis
  have par: "r \<parallel> r'" if "r \<in> set qs" "r' \<in> set ch" for r r'
  proof -
    from that(2) obtain k where "r' = p @ [k]" by (auto simp: ch_def)
    moreover have "r \<parallel> p" using qp(2) [OF that(1)] by (rule iffD1 [OF parallel_commute])
    ultimately show ?thesis using parallel_append [of r p "[]" "[k]"] by simp
  qed
  have par': "r = r' \<or> r \<parallel> r'" if "r \<in> set ch" "r' \<in> set ch" for r r'
    using that by (auto simp: ch_def parallel_def)
  show "queue_ok (qs @ ch) t1" unfolding queue_ok_def
  proof (intro conjI ballI)
    show "distinct (qs @ ch)" using dist par qp(1) by (auto simp: queue_ok_def)
    show "r = r' \<or> r \<parallel> r'" if "r \<in> set (qs @ ch)" "r' \<in> set (qs @ ch)" for r r'
    proof -
      from qp(1) have "r = r' \<or> r \<parallel> r'" if "r \<in> set qs" "r' \<in> set qs"
        using that unfolding queue_ok_def by blast
      with that par par' par [of r' r, THEN iffD1 [OF parallel_commute]] show ?thesis by auto
    qed
    show "sub_at t1 r \<noteq> None" if "r \<in> set (qs @ ch)" for r
    proof (cases "r \<in> set qs")
      case True
      with sub qp(1) show ?thesis by (simp add: queue_ok_def)
    next
      case False
      with that obtain k c where "(k, c) \<in> set d'" "r = p @ [k]" by (auto simp: ch_def)
      with chsub show ?thesis by simp
    qed
    show "json_wf t1" unfolding t1_def using wft wfd' by (rule json_wf_put)
  qed
  have "sum_list (map (\<lambda>r. label_steps (the (sub_at t1 r))) qs) =
      sum_list (map (\<lambda>r. label_steps (the (sub_at t r))) qs)"
    using sub by (intro arg_cong [where f = sum_list] map_cong) auto
  moreover have "map (\<lambda>r. label_steps (the (sub_at t1 r))) ch = map (\<lambda>(k, c). label_steps c) d'"
    using chsub by (auto simp: ch_def)
  ultimately show "queue_steps (qs @ ch) t1 < queue_steps (p # qs) t"
    using visit_label_steps [OF vis] d by (simp add: queue_steps_def del: label_steps.simps)
qed

lemma queue_steps_Cons: "0 < queue_steps (p # qs) t" "queue_steps qs t < queue_steps (p # qs) t"
  using label_steps_pos [of "the (sub_at t p)"] by (simp_all add: queue_steps_def del: label_steps.simps)

lemma fold_visit:
  assumes q: "queue_ok (p # qs) t" and d: "sub_at t p = Some (PDict d)"
    and vis: "visit_label key v d = Inr d'" and c': "label_rec key v (PDict d) = Inr c'"
  shows "fold (lab_step key v) (qs @ map (\<lambda>(k, _). p @ [k]) d') (put_at t p (PDict d')) =
    fold (lab_step key v) (p # qs) t"
proof -
  let ?t1 = "put_at t p (PDict d')" and ?ch = "map (\<lambda>(k, _). p @ [k]) d'"
  note qv = queue_visit [OF q d vis]
  have "fold (lab_step key v) (qs @ ?ch) = fold (lab_step key v) (?ch @ qs)"
  proof (rule fold_multiset_equiv)
    show "lab_step key v r \<circ> lab_step key v r' = lab_step key v r' \<circ> lab_step key v r"
      if "r \<in> set (qs @ ?ch)" "r' \<in> set (qs @ ?ch)" for r r'
      using qv(1) that unfolding queue_ok_def by (intro lab_step_commute) blast
  qed simp
  moreover have "c' = PDict (map (\<lambda>(k, c). (k, lab key v c)) d')"
    using c' vis unfolding lab_def by (auto elim: label_rec_dict)
  then have "fold (lab_step key v) ?ch ?t1 = lab_step key v p t"
    using fold_children [OF d, of "[]" d' key v] qv(4) d c'
    by (simp add: lab_step_def lab_def dict_wf_def)
  ultimately show ?thesis by simp
qed

lemma loop_labels:
  assumes "queue_ok ps t" and "queue_steps ps t \<le> n"
    and "\<forall>p \<in> set ps. \<exists>c'. label_rec key v (the (sub_at t p)) = Inr c'"
  shows "add_label_loop n key v ps t = Some (Inr (fold (lab_step key v) ps t))"
  using assms
proof (induction n arbitrary: ps t)
  case 0
  then have "ps = []" using queue_steps_Cons(1) [of "hd ps" "tl ps" t] by (cases ps) auto
  then show ?case by simp
next
  case (Suc n)
  show ?case
  proof (cases ps)
    case Nil
    then show ?thesis by simp
  next
    case (Cons p qs)
    note q = queue_ok_Cons [OF Suc.prems(1) [unfolded Cons]]
    obtain c c' where c: "sub_at t p = Some c" and c': "label_rec key v c = Inr c'"
      using q(3) Suc.prems(3) Cons by auto
    show ?thesis
    proof (cases "\<exists>d. c = PDict d")
      case False
      then have "lab_step key v p t = t"
        using c by (simp add: lab_step_def lab_def label_rec_leaf put_at_same)
      moreover have "add_label_loop n key v qs t = Some (Inr (fold (lab_step key v) qs t))"
        using q(1) Suc.prems queue_steps_Cons(2) [of qs t p] Cons by (intro Suc.IH) auto
      ultimately show ?thesis using False c Cons by (cases c) simp_all
    next
      case True
      then obtain d where d: "c = PDict d" by blast
      with c' obtain d' where vis: "visit_label key v d = Inr d'"
        and ok: "\<forall>(k, c) \<in> set d'. \<exists>c'. label_rec key v c = Inr c'"
        by (auto elim: label_rec_dict)
      let ?t1 = "put_at t p (PDict d')" and ?ch = "map (\<lambda>(k, _). p @ [k]) d'"
      note qv = queue_visit [OF Suc.prems(1) [unfolded Cons] c [unfolded d] vis]
      have "\<exists>c'. label_rec key v (the (sub_at ?t1 r)) = Inr c'" if r: "r \<in> set (qs @ ?ch)" for r
      proof (cases "r \<in> set qs")
        case True
        with qv(3) Suc.prems(3) Cons show ?thesis by simp
      next
        case False
        with r obtain k x where kx: "(k, x) \<in> set d'" "r = p @ [k]" by auto
        with children_subs [OF qv(4) c kx(1)] ok show ?thesis by auto
      qed
      then have "add_label_loop n key v (qs @ ?ch) ?t1 = Some (Inr (fold (lab_step key v) (qs @ ?ch) ?t1))"
        using qv(1,2) Suc.prems(2) Cons by (intro Suc.IH) auto
      then show ?thesis
        using fold_visit [OF Suc.prems(1) [unfolded Cons] c [unfolded d] vis c' [unfolded d]] Cons c d vis
        by simp
    qed
  qed
qed

lemma res_map_InlD: "res_map f xs = Inl e \<Longrightarrow> \<exists>x \<in> set xs. f x = Inl e"
  by (induction xs) (auto simp: res_bind_eq_Inl)

lemma label_rec_InlD:
  assumes "label_rec key v (PDict d) = Inl e" and "visit_label key v d = Inr d'"
  shows "\<exists>k c e. (k, c) \<in> set d' \<and> label_rec key v c = Inl e"
proof -
  from assms have "res_map (\<lambda>kc. res_bind (label_rec key v (snd kc)) (\<lambda>c'. Inr (fst kc, c'))) d' = Inl e"
    by (simp add: label_rec.simps [of key v "PDict d"] res_bind_eq_Inl)
  from res_map_InlD [OF this] obtain kc where "kc \<in> set d'" "label_rec key v (snd kc) = Inl e"
    by (auto simp: res_bind_eq_Inl)
  then show ?thesis by (metis prod.collapse)
qed

lemma loop_fails:
  assumes "queue_ok ps t" and "queue_steps ps t \<le> n"
    and "\<exists>p \<in> set ps. \<exists>e. label_rec key v (the (sub_at t p)) = Inl e"
  shows "\<exists>e. add_label_loop n key v ps t = Some (Inl e)"
  using assms
proof (induction n arbitrary: ps t)
  case 0
  then show ?case using queue_steps_Cons(1) [of "hd ps" "tl ps" t] by (cases ps) auto
next
  case (Suc n)
  then obtain p qs where Cons: "ps = p # qs" by (cases ps) auto
  note q = queue_ok_Cons [OF Suc.prems(1) [unfolded Cons]]
  obtain c where c: "sub_at t p = Some c" using q(3) by auto
  show ?case
  proof (cases "\<exists>d. c = PDict d")
    case False
    have "\<exists>r \<in> set qs. \<exists>e. label_rec key v (the (sub_at t r)) = Inl e"
      using Suc.prems(3) Cons c label_rec_leaf [OF False] by auto
    then have "\<exists>e. add_label_loop n key v qs t = Some (Inl e)"
      using q(1) Suc.prems(2) queue_steps_Cons(2) [of qs t p] Cons by (intro Suc.IH) auto
    then show ?thesis using False c Cons by (cases c) simp_all
  next
    case True
    then obtain d where d: "sub_at t p = Some (PDict d)" using c by blast
    show ?thesis
    proof (cases "visit_label key v d")
      case (Inl e)
      then show ?thesis using Cons d by simp
    next
      case (Inr d')
      let ?t1 = "put_at t p (PDict d')" and ?ch = "map (\<lambda>(k, _). p @ [k]) d'"
      note qv = queue_visit [OF Suc.prems(1) [unfolded Cons] d Inr]
      have "\<exists>r \<in> set (qs @ ?ch). \<exists>e. label_rec key v (the (sub_at ?t1 r)) = Inl e"
      proof (cases "\<exists>e. label_rec key v (PDict d) = Inl e")
        case True
        then obtain k x e where kx: "(k, x) \<in> set d'" "label_rec key v x = Inl e"
          using label_rec_InlD Inr by blast
        moreover from kx(1) have "p @ [k] \<in> set (qs @ ?ch)" by auto
        ultimately show ?thesis using children_subs [OF qv(4) d kx(1)] by (intro bexI) auto
      next
        case False
        with Suc.prems(3) Cons d obtain r e where "r \<in> set qs" "label_rec key v (the (sub_at t r)) = Inl e" by auto
        with qv(3) show ?thesis by (intro bexI [of _ r]) auto
      qed
      then have "\<exists>e. add_label_loop n key v (qs @ ?ch) ?t1 = Some (Inl e)"
        using qv(1,2) Suc.prems(2) Cons by (intro Suc.IH) auto
      then show ?thesis using Cons d Inr by simp
    qed
  qed
qed

lemma add_label_loop_rec:
  assumes "json_wf t"
  shows "label_rec key v t = Inr t' \<Longrightarrow> add_label_loop (label_steps t) key v [[]] t = Some (Inr t')"
    and "label_rec key v t = Inl e \<Longrightarrow> \<exists>e'. add_label_loop (label_steps t) key v [[]] t = Some (Inl e')"
proof -
  have q: "queue_ok [[]] t" and s: "queue_steps [[]] t \<le> label_steps t"
    using assms by (simp_all add: queue_ok_def queue_steps_def)
  show "add_label_loop (label_steps t) key v [[]] t = Some (Inr t')" if "label_rec key v t = Inr t'"
    using loop_labels [OF q s, of key v] that by (simp add: lab_step_def lab_def)
  show "\<exists>e'. add_label_loop (label_steps t) key v [[]] t = Some (Inl e')" if "label_rec key v t = Inl e"
    using loop_fails [OF q s, of key v] that by simp
qed

lemma add_label_to_rec:
  assumes "json_wf t" and "add_label_to key v t = Inr t'"
  shows "label_rec key v t = Inr t'"
proof (cases "truthy t")
  case False
  with assms(2) have "t' = t" by (simp add: add_label_to_def)
  moreover from False have "label_rec key v t = Inr t"
    by (cases t) (auto simp: label_rec.simps visit_label_def)
  ultimately show ?thesis by simp
next
  case True
  show ?thesis
  proof (cases "label_rec key v t")
    case (Inl e)
    with add_label_loop_rec(2) [OF assms(1) Inl] True assms(2) show ?thesis
      by (auto simp: add_label_to_def)
  next
    case (Inr x)
    with add_label_loop_rec(1) [OF assms(1) Inr] True assms(2) show ?thesis
      by (simp add: add_label_to_def)
  qed
qed

section \<open>What a label changes\<close>

text \<open>A dictionary below another is labelled as it is after the visit of the one above.\<close>

lemma label_rec_below:
  assumes "label_rec key v (PDict d) = Inr t'" and "visit_label key v d = Inr d'" and "dict_get d' k = Some x"
  obtains x' where "label_rec key v x = Inr x'" "sub_at t' (k # q) = sub_at x' q"
proof -
  from assms(1,2) obtain t'': "t' = PDict (map (\<lambda>(k, c). (k, projr (label_rec key v c))) d')"
    and ok: "\<forall>(k, c) \<in> set d'. \<exists>c'. label_rec key v c = Inr c'"
    by (auto elim: label_rec_dict)
  have "map_of (map (\<lambda>(k, c). (k, projr (label_rec key v c))) d') k = Some (projr (label_rec key v x))"
    using assms(3) by (simp add: map_of_map dict_get_def)
  with t'' ok dict_get_SomeD [OF assms(3)] show ?thesis
    by (intro that [of "projr (label_rec key v x)"]) (auto simp: dict_get_def)
qed

text \<open>
  Visiting a dictionary changes nothing that is reached from it by another key than \<open>metadata\<close>, and
  below \<open>metadata\<close> nothing but the label.
\<close>

definition label_path :: "string \<Rightarrow> string list" where
  "label_path key = [''metadata'', ''labels'', key]"

lemma visit_other_key: "visit_label key v d = Inr d' \<Longrightarrow> k \<noteq> ''metadata'' \<Longrightarrow> dict_get d' k = dict_get d k"
  by (erule visit_label_cases) auto

lemma visit_keeps:
  assumes "visit_label key v d = Inr d'" and "sub_at (PDict d) q = Some c" and "q \<noteq> []"
    and "q \<noteq> [''metadata'', ''labels'']" and "\<forall>s. q \<noteq> label_path key @ s" and "\<nexists>d. c = PDict d"
  shows "sub_at (PDict d') q = Some c"
  using assms(1)
proof (cases rule: visit_label_cases)
  case 1
  with assms show ?thesis by simp
next
  case (2 md ld)
  obtain k q' where q: "q = k # q'" using assms(3) by (cases q) auto
  show ?thesis
  proof (cases "k = ''metadata'' \<and> (\<exists>q''. q' = ''labels'' # q'')")
    case False
    with assms(2,6) 2 q show ?thesis
      by (cases q') (auto split: option.splits if_splits)
  next
    case True
    then obtain k3 q3 where q3: "q = ''metadata'' # ''labels'' # k3 # q3"
      using assms(4) q by (metis neq_Nil_conv)
    then have "k3 \<noteq> key" using assms(5) by (auto simp: label_path_def)
    moreover obtain l where l: "dict_get md ''labels'' = Some l" "sub_at l (k3 # q3) = Some c"
      using assms(2) q3 2(1) by (auto split: option.splits)
    then have "truthy l" by (cases l) (auto split: option.splits)
    with l 2(4) have "l = PDict ld" by auto
    ultimately show ?thesis using q3 2(3) l by simp
  qed
qed

lemma label_rec_keeps:
  assumes "label_rec key v t = Inr t'" and "sub_at t q = Some c" and "\<nexists>d. c = PDict d"
    and "\<forall>r. q \<noteq> r @ [''metadata'', ''labels'']" and "\<forall>r s. q \<noteq> r @ label_path key @ s"
  shows "sub_at t' q = Some c"
  using assms
proof (induction q arbitrary: t t')
  case Nil
  then have "t = c" by simp
  with Nil label_rec_leaf [of t key v] show ?case by simp
next
  case (Cons k q)
  then obtain d where t: "t = PDict d" by (cases t) auto
  with Cons.prems(1) obtain d' where vis: "visit_label key v d = Inr d'" by (auto elim: label_rec_dict)
  have "sub_at (PDict d') (k # q) = Some c"
    using Cons.prems(2-) t Cons.prems(4) [rule_format, of "[]"] Cons.prems(5) [rule_format, of "[]"]
    by (intro visit_keeps [OF vis]) auto
  then obtain x where x: "dict_get d' k = Some x" "sub_at x q = Some c" by (auto split: option.splits)
  obtain x' where "label_rec key v x = Inr x'" "sub_at t' (k # q) = sub_at x' q"
    using label_rec_below [OF Cons.prems(1) [unfolded t] vis x(1)] .
  moreover have "\<forall>r. q \<noteq> r @ [''metadata'', ''labels'']" and "\<forall>r s. q \<noteq> r @ label_path key @ s"
    using Cons.prems(4,5) by (metis append_Cons)+
  ultimately show ?case using Cons.IH x(2) Cons.prems(3) by metis
qed

definition has_metadata :: "pyval dict \<Rightarrow> bool" where
  "has_metadata d = (\<exists>md. dict_get d ''metadata'' = Some (PDict md) \<and> md \<noteq> [])"

lemma visit_labels_here:
  assumes "visit_label key v d = Inr d'" and "has_metadata d"
  shows "sub_at (PDict d') (label_path key) = Some (opt_str v)"
  using assms(1) by (rule visit_label_cases) (use assms(2) in \<open>auto simp: has_metadata_def label_path_def\<close>)

lemma opt_str_leaf: "\<nexists>d. opt_str v = PDict d"
  by (cases v) (simp_all add: opt_str_def)

lemma visit_metadata_below:
  assumes vis: "visit_label key v e = Inr e'" and "sub_at (PDict e) (k # p) = Some (PDict d)"
    and "has_metadata d" and nl: "\<forall>s. k # p \<noteq> [''metadata'', ''labels''] @ s"
  shows "\<exists>x d'. dict_get e' k = Some x \<and> sub_at x p = Some (PDict d') \<and> has_metadata d'"
  using vis
proof (cases rule: visit_label_cases)
  case 1
  with assms show ?thesis by (auto split: option.splits)
next
  case (2 md ld)
  show ?thesis
  proof (cases "k = ''metadata''")
    case False
    with 2 assms show ?thesis by (auto split: option.splits)
  next
    case True
    show ?thesis
    proof (cases p)
      case Nil
      with True 2 assms show ?thesis by (auto simp: has_metadata_def)
    next
      case (Cons k2 p2)
      then have "k2 \<noteq> ''labels''" using nl True by auto
      with True Cons 2 assms show ?thesis by auto
    qed
  qed
qed

lemma label_rec_labels:
  assumes "label_rec key v t = Inr t'" and "sub_at t p = Some (PDict d)" and "has_metadata d"
    and "\<forall>r s. p \<noteq> r @ [''metadata'', ''labels''] @ s"
  shows "sub_at t' (p @ label_path key) = Some (opt_str v)"
  using assms
proof (induction p arbitrary: t t' d)
  case Nil
  then have t: "t = PDict d" by simp
  with Nil obtain d' where vis: "visit_label key v d = Inr d'" by (auto elim: label_rec_dict)
  have "sub_at (PDict d') (label_path key) = Some (opt_str v)" by (rule visit_labels_here [OF vis Nil(3)])
  then obtain x where x: "dict_get d' ''metadata'' = Some x" "sub_at x [''labels'', key] = Some (opt_str v)"
    by (auto simp: label_path_def split: option.splits)
  obtain x' where "label_rec key v x = Inr x'" "sub_at t' (''metadata'' # [''labels'', key]) = sub_at x' [''labels'', key]"
    using label_rec_below [OF Nil(1) [unfolded t] vis x(1)] .
  moreover have "sub_at x' [''labels'', key] = Some (opt_str v)" if "label_rec key v x = Inr x'" for x'
    using that x(2) opt_str_leaf
    by (rule label_rec_keeps) (auto simp: label_path_def Cons_eq_append_conv)
  ultimately show ?case by (simp add: label_path_def)
next
  case (Cons k p)
  then obtain e where t: "t = PDict e" by (cases t) auto
  with Cons.prems(1) obtain e' where vis: "visit_label key v e = Inr e'" by (auto elim: label_rec_dict)
  obtain x d' where x: "dict_get e' k = Some x" "sub_at x p = Some (PDict d')" "has_metadata d'"
    using visit_metadata_below [OF vis Cons.prems(2) [unfolded t] Cons.prems(3)]
      Cons.prems(4) [rule_format, of "[]"] by auto
  obtain x' where "label_rec key v x = Inr x'" "sub_at t' (k # p @ label_path key) = sub_at x' (p @ label_path key)"
    using label_rec_below [OF Cons.prems(1) [unfolded t] vis x(1)] .
  moreover have "\<forall>r s. p \<noteq> r @ [''metadata'', ''labels''] @ s" using Cons.prems(4) by (metis append_Cons)
  ultimately show ?case using Cons.IH x by simp
qed

text \<open>
  (C40) The walk over an object that adds a label, breadth first and in place, always ends; it gives the
  object in which each dictionary is labelled and then everything below it, and raises exactly
  when that recursion does.
\<close>

theorem add_label_breadth_first:
  assumes "json_wf t"
  shows "\<exists>r. add_label_loop (label_steps t) key val [[]] t = Some r \<and>
    (\<forall>t'. r = Inr t' \<longleftrightarrow> label_rec key val t = Inr t')"
proof (cases "label_rec key val t")
  case (Inl e)
  with add_label_loop_rec(2) [OF assms Inl] show ?thesis by auto
next
  case (Inr t')
  with add_label_loop_rec(1) [OF assms Inr] show ?thesis by auto
qed

definition demo_object :: pyval where
  "demo_object = PDict
     [(''kind'', PStr ''Job''),
      (''metadata'', PDict [(''name'', PStr ''b-1''), (''labels'', PDict [(''app'', PStr ''benchmark-ai'')])]),
      (''spec'', PDict [(''template'', PDict
        [(''metadata'', PDict [(''annotations'', PDict [])]),
         (''spec'', PDict [(''containers'', PList [PDict [(''name'', PStr ''benchmark'')]])])])])]"

lemma demo_object_wf: "json_wf demo_object"
  by code_simp

theorem add_label_breadth_first_witness:
  "json_wf demo_object \<and>
   (\<exists>r. add_label_loop (label_steps demo_object) ''team'' (Some ''a'') [[]] demo_object = Some r \<and>
    (\<forall>t'. r = Inr t' \<longleftrightarrow> label_rec ''team'' (Some ''a'') demo_object = Inr t'))"
  using demo_object_wf add_label_breadth_first by blast

text \<open>
  A label is set in the metadata of every dictionary of an object that has some, however deep it
  is nested in dictionaries, and nothing else changes: every other value is where it was.
\<close>

theorem add_label_everywhere:
  assumes "json_wf t" and "add_label_to key val t = Inr t'"
  shows "(\<forall>p d. sub_at t p = Some (PDict d) \<longrightarrow> has_metadata d \<longrightarrow>
      (\<forall>r s. p \<noteq> r @ [''metadata'', ''labels''] @ s) \<longrightarrow>
      sub_at t' (p @ label_path key) = Some (opt_str val)) \<and>
    (\<forall>q c. sub_at t q = Some c \<longrightarrow> (\<nexists>d. c = PDict d) \<longrightarrow>
      (\<forall>r. q \<noteq> r @ [''metadata'', ''labels'']) \<longrightarrow> (\<forall>r s. q \<noteq> r @ label_path key @ s) \<longrightarrow>
      sub_at t' q = Some c)"
proof -
  note rec = add_label_to_rec [OF assms]
  show ?thesis using label_rec_labels [OF rec] label_rec_keeps [OF rec] by blast
qed

definition demo_labelled :: pyval where
  "demo_labelled = projr (add_label_to ''team'' (Some ''a'') demo_object)"

lemma demo_labelled: "add_label_to ''team'' (Some ''a'') demo_object = Inr demo_labelled"
  by code_simp

theorem add_label_everywhere_witness:
  "sub_at demo_labelled (label_path ''team'') = Some (PStr ''a'') \<and>
   sub_at demo_labelled ([''spec'', ''template''] @ label_path ''team'') = Some (PStr ''a'') \<and>
   sub_at demo_labelled (label_path ''app'') = Some (PStr ''benchmark-ai'')"
proof -
  note lab1 = add_label_everywhere [OF demo_object_wf demo_labelled, THEN conjunct1, rule_format]
    and lab2 = add_label_everywhere [OF demo_object_wf demo_labelled, THEN conjunct2, rule_format]
  have 1: "sub_at demo_object [] = Some (PDict (case demo_object of PDict d \<Rightarrow> d))"
    and 2: "has_metadata (case demo_object of PDict d \<Rightarrow> d)"
    by (simp_all add: demo_object_def has_metadata_def)
  have 3: "sub_at demo_object [''spec'', ''template''] =
      Some (PDict (case sub_at demo_object [''spec'', ''template''] of Some (PDict d) \<Rightarrow> d))"
    and 4: "has_metadata (case sub_at demo_object [''spec'', ''template''] of Some (PDict d) \<Rightarrow> d)"
    by (simp_all add: demo_object_def has_metadata_def)
  have 5: "sub_at demo_object (label_path ''app'') = Some (PStr ''benchmark-ai'')"
    by (simp add: demo_object_def label_path_def)
  have "sub_at demo_labelled ([] @ label_path ''team'') = Some (opt_str (Some ''a''))"
    using lab1 [OF 1 2] by simp
  moreover have "sub_at demo_labelled ([''spec'', ''template''] @ label_path ''team'') = Some (opt_str (Some ''a''))"
    using lab1 [OF 3 4] by (simp add: Cons_eq_append_conv)
  moreover have "sub_at demo_labelled (label_path ''app'') = Some (PStr ''benchmark-ai'')"
    using lab2 [OF 5] by (simp add: label_path_def Cons_eq_append_conv)
  ultimately show ?thesis by (simp add: opt_str_def)
qed

section \<open>Objects stay well formed and keep their labels\<close>

text \<open>
  What an operation on an object may do: it keeps the keys of every dictionary distinct.  This
  holds for all operations on a pod.
\<close>

definition wf_kept :: "pyval \<Rightarrow> pyval \<Rightarrow> bool" where
  "wf_kept x y = (json_wf x \<longrightarrow> json_wf y)"

interpretation wfo: object_order wf_kept
  by unfold_locales (simp_all add: wf_kept_def)

lemma json_wf_attr: "json_wf x \<Longrightarrow> attr x k = Inr y \<Longrightarrow> json_wf y"
proof (cases x)
  case (PDict d)
  assume "json_wf x" and "attr x k = Inr y"
  with PDict json_wf_get [of d k] show ?thesis by (cases "dict_get d k") (auto simp: attr_def)
qed (simp_all add: attr_def)

lemma json_wf_set_attr: "json_wf x \<Longrightarrow> json_wf v \<Longrightarrow> set_attr x k v = Inr y \<Longrightarrow> json_wf y"
  by (cases x) (auto simp: set_attr_def simp del: json_wf.simps(2) intro: json_wf_set)

lemma json_wf_elems: "json_wf x \<Longrightarrow> elems x = Inr xs \<Longrightarrow> \<forall>y \<in> set xs. json_wf y"
  by (cases x) (auto simp: elems_def)

lemma json_wf_elems_of: "json_wf x \<Longrightarrow> elems_of x k = Inr xs \<Longrightarrow> \<forall>y \<in> set xs. json_wf y"
  by (auto simp: elems_of_def dest: json_wf_attr json_wf_elems)

lemma json_wf_attr_path: "json_wf x \<Longrightarrow> attr_path x p = Inr y \<Longrightarrow> json_wf y"
  by (induction x p rule: attr_path.induct) (auto dest: json_wf_attr)

lemma json_wf_set_path: "json_wf x \<Longrightarrow> json_wf v \<Longrightarrow> set_path x p v = Inr y \<Longrightarrow> json_wf y"
proof (induction x p v arbitrary: y rule: set_path.induct)
  case (2 x k ks v)
  then obtain a b where ab: "attr x k = Inr a" "set_path a ks v = Inr b" "set_attr x k b = Inr y" by auto
  then have "json_wf b" using 2 json_wf_attr by blast
  with 2 ab show ?case using json_wf_set_attr by blast
qed simp

lemma wf_kept_set_attr: "json_wf v \<Longrightarrow> keeps_at wf_kept x (set_attr x k v)"
  by (auto simp: keeps_at_def wf_kept_def intro: json_wf_set_attr)

lemma json_wf_del: "json_wf (PDict d) \<Longrightarrow> json_wf (PDict (dict_del d k))"
proof -
  have "set (dict_del d k) \<subseteq> set d" by (auto simp: dict_del_def)
  then show "json_wf (PDict d) \<Longrightarrow> json_wf (PDict (dict_del d k))" using dict_wf_del [of d k] by auto
qed

lemma wf_kept_del_attr: "keeps_at wf_kept x (del_attr x k)" "keeps_at wf_kept x (pop_attr x k)"
  by (cases x; auto simp: keeps_at_def wf_kept_def del_attr_def pop_attr_def simp del: json_wf.simps
      intro: json_wf_del)+

lemma wf_kept_update_container:
  assumes "\<And>c. keeps_at wf_kept c (g c)"
  shows "keeps_at wf_kept ps (update_container n g ps)"
  unfolding keeps_at_def wf_kept_def
proof (intro allI impI)
  fix y
  assume "update_container n g ps = Inr y" and wf: "json_wf ps"
  then obtain f i cs c where cs: "elems_of ps f = Inr cs" and c: "g (cs ! i) = Inr c"
    and y: "set_attr ps f (PList (cs[i := c])) = Inr y"
    by (auto simp: update_container_def)
  have all: "\<forall>c \<in> set cs. json_wf c" using wf cs by (rule json_wf_elems_of)
  have "\<forall>c \<in> set (cs[i := c]). json_wf c"
  proof (cases "i < length cs")
    case True
    then have "json_wf c" using keeps_atD [OF assms c] all by (simp add: wf_kept_def)
    with all show ?thesis using set_update_subset_insert [of cs i c] by blast
  qed (use all in \<open>simp add: list_update_beyond\<close>)
  then have "json_wf (PList (cs[i := c]))" by simp
  from json_wf_set_attr [OF wf this y] show "json_wf y" .
qed

lemma wf_kept_set_sublist:
  assumes "\<And>xs. elems_of x k = Inr xs \<Longrightarrow> \<forall>y \<in> set xs. json_wf y \<Longrightarrow> \<forall>y \<in> set (f xs). json_wf y"
  shows "keeps_at wf_kept x (res_bind (elems_of x k) (\<lambda>xs. set_attr x k (PList (f xs))))"
  unfolding keeps_at_def wf_kept_def
proof (intro allI impI)
  fix y
  assume "res_bind (elems_of x k) (\<lambda>xs. set_attr x k (PList (f xs))) = Inr y" and wf: "json_wf x"
  then obtain xs where xs: "elems_of x k = Inr xs" and y: "set_attr x k (PList (f xs)) = Inr y" by auto
  have "json_wf (PList (f xs))" using assms [OF xs json_wf_elems_of [OF wf xs]] by simp
  from json_wf_set_attr [OF wf this y] show "json_wf y" .
qed

lemma wf_kept_remove_container: "keeps_at wf_kept ps (remove_container n ps)"
  unfolding remove_container_def
  by (intro keeps_at_value, clarify, intro wf_kept_set_sublist) (auto dest: in_set_takeD in_set_dropD)

lemma json_wf_res_map:
  assumes "\<And>x. keeps_at wf_kept x (f x)" and "\<forall>x \<in> set xs. json_wf x" and "res_map f xs = Inr ys"
  shows "\<forall>y \<in> set ys. json_wf y"
proof -
  have "list_all2 (\<lambda>x y. f x = Inr y) xs ys" using assms(3) by (simp add: res_map_Inr_iff)
  then show ?thesis using assms(2)
  proof (induction rule: list_all2_induct)
    case (Cons x xs y ys)
    with keeps_atD [OF assms(1)] show ?case by (auto simp: wf_kept_def)
  qed simp
qed

lemma prune_mounts_subset: "prune_mounts i vol ms = Inr ms' \<Longrightarrow> set ms' \<subseteq> set ms"
proof (induction i vol ms arbitrary: ms' rule: prune_mounts.induct)
  case (1 i vol ms)
  show ?case
  proof (cases "i < length ms")
    case True
    then obtain n where rest: "prune_mounts (Suc i) vol (if n = PStr vol then remove1 (ms ! i) ms else ms) = Inr ms'"
      using "1.prems" by (auto simp: prune_mounts.simps [of i vol ms])
    from "1.IH" [OF True rest] show ?thesis
      using set_remove1_subset [of "ms ! i" ms] by (auto split: if_splits)
  next
    case False
    then show ?thesis using "1.prems" by (simp add: prune_mounts.simps [of i vol ms])
  qed
qed

lemma wf_kept_remove_mounts: "keeps_at wf_kept c (remove_mounts vol c)"
  unfolding keeps_at_def wf_kept_def
proof (intro allI impI)
  fix y
  assume "remove_mounts vol c = Inr y" and wf: "json_wf c"
  then obtain ms ms' where ms: "elems_of c ''volumeMounts'' = Inr ms" "prune_mounts 0 vol ms = Inr ms'"
    and y: "y = c \<or> set_attr c ''volumeMounts'' (PList ms') = Inr y"
    by (auto simp: remove_mounts_def split: if_splits)
  have "json_wf (PList ms')"
    using json_wf_elems_of [OF wf ms(1)] prune_mounts_subset [OF ms(2)] by auto
  with wf y show "json_wf y" using json_wf_set_attr by blast
qed

lemma wf_kept_remove_mounts_of: "keeps_at wf_kept ps (remove_mounts_of vol k ps)"
  unfolding keeps_at_def wf_kept_def
proof (intro allI impI)
  fix y
  assume "remove_mounts_of vol k ps = Inr y" and wf: "json_wf ps"
  then obtain cs cs' where cs: "elems_of ps k = Inr cs" "res_map (remove_mounts vol) cs = Inr cs'"
    and y: "y = ps \<or> set_attr ps k (PList cs') = Inr y"
    by (auto simp: remove_mounts_of_def split: if_splits)
  have "json_wf (PList cs')"
    using json_wf_res_map [OF wf_kept_remove_mounts json_wf_elems_of [OF wf cs(1)] cs(2)] by simp
  with wf y show "json_wf y" using json_wf_set_attr by blast
qed

lemma wf_kept_remove_volume: "keeps_at wf_kept ps (remove_volume vol ps)"
  unfolding keeps_at_def
proof (intro allI impI)
  fix y
  assume "remove_volume vol ps = Inr y"
  then obtain vs i q where vs: "elems_of ps ''volumes'' = Inr vs"
    and q: "set_attr ps ''volumes'' (PList (take i vs @ drop (Suc i) vs)) = Inr q"
    and rest: "res_bind (remove_mounts_of vol ''containers'' q) (remove_mounts_of vol ''initContainers'') = Inr y"
    unfolding remove_volume_def by (auto split: option.splits simp del: res_bind_simps(2))
  have "keeps_at wf_kept ps (res_bind (elems_of ps ''volumes'')
      (\<lambda>vs. set_attr ps ''volumes'' (PList (take i vs @ drop (Suc i) vs))))"
    by (intro wf_kept_set_sublist) (auto dest: in_set_takeD in_set_dropD)
  with vs q have 1: "wf_kept ps q" by (simp add: keeps_at_def)
  have "keeps_at wf_kept q (res_bind (remove_mounts_of vol ''containers'' q) (remove_mounts_of vol ''initContainers''))"
    by (intro wfo.keeps_bind wf_kept_remove_mounts_of)
  from 1 keeps_atD [OF this rest] show "wf_kept ps y" by (rule wfo.trans)
qed

lemma hashable_wf: "hashable k \<Longrightarrow> json_wf k"
  by (cases k) (simp_all add: hashable_def)

lemma keys_dict_update: "fst ` set (dict_update d e) = fst ` set d \<union> fst ` set e"
proof -
  have "fst ` set (dict_set d k v) = insert k (fst ` set d)" for d :: "('a \<times> 'b) list" and k v
    by (induction d k v rule: dict_set.induct) auto
  then show ?thesis by (induction d e rule: dict_update.induct) auto
qed

lemma wf_kept_merge_env: "keeps_at wf_kept c (merge_env new c)"
  unfolding merge_env_def
proof (intro keeps_at_value wf_kept_set_attr)
  fix e vars old
  assume "res_map env_entry vars = Inr old"
  then have "list_all2 (\<lambda>v kv. env_entry v = Inr kv) vars old" by (simp add: res_map_Inr_iff)
  then have old: "\<forall>k \<in> fst ` set old. hashable k"
    by (induction rule: list_all2_induct) (auto simp: env_entry_def split: if_splits)
  let ?D = "dict_update (dict_update [] old) (map (apfst PStr) new)"
  have keys: "fst ` set ?D \<subseteq> fst ` set old \<union> range PStr"
    unfolding keys_dict_update by auto
  have wf: "json_wf k" if "(k, v) \<in> set ?D" for k v
  proof -
    have "k \<in> fst ` set ?D" using that by (rule image_eqI [rotated]) simp
    with keys have "k \<in> fst ` set old \<or> k \<in> range PStr" by blast
    with old show ?thesis by (auto dest: hashable_wf)
  qed
  show "json_wf (PList (map (\<lambda>(k, v). PDict [(''name'', k), (''value'', PStr (py_str v))])
      (dict_update (dict_update [] old) (map (apfst PStr) new))))"
    by (auto simp: dict_wf_def intro: wf)
qed

lemma wf_kept_add_ports:
  "keeps_at wf_kept c (res_bind (attr c ''ports'') (\<lambda>old.
     let new = map (\<lambda>p. PDict [(''containerPort'', PInt p)]) ports in
     if \<not> truthy old then set_attr c ''ports'' (PList new)
     else case old of
       PList xs \<Rightarrow> set_attr c ''ports'' (PList (new @ xs))
     | _ \<Rightarrow> Inl (TypeError ''can only concatenate list'')))"
proof (cases "json_wf c")
  case False
  then show ?thesis by (simp add: keeps_at_def wf_kept_def)
next
  case True
  show ?thesis
  proof (intro keeps_at_value keeps_at_let wfo.keeps_if wf_kept_set_attr)
    fix old
    assume "attr c ''ports'' = Inr old"
    then have "json_wf old" by (rule json_wf_attr [OF True])
    then show "keeps_at wf_kept c (case old of
        PList xs \<Rightarrow> set_attr c ''ports'' (PList (map (\<lambda>p. PDict [(''containerPort'', PInt p)]) ports @ xs))
      | _ \<Rightarrow> Inl (TypeError ''can only concatenate list''))"
      by (cases old) (auto simp: keeps_at_raise dict_wf_def intro!: wf_kept_set_attr)
  qed (auto simp: dict_wf_def)
qed

lemma wf_kept_pod_ops:
  "keeps_at wf_kept ps (remove_affinity ps)"
  "keeps_at wf_kept ps (set_service_account acc ps)"
  "keeps_at wf_kept ps (helper_add_env_vars n new ps)"
  "keeps_at wf_kept ps (add_container_ports_to_container n ports ps)"
  "keeps_at wf_kept ps (add_readiness_probe n p dp ps)"
proof -
  show "keeps_at wf_kept ps (remove_affinity ps)"
    unfolding remove_affinity_def by (rule wf_kept_del_attr)
  show "keeps_at wf_kept ps (set_service_account acc ps)"
    unfolding set_service_account_def by (rule wf_kept_set_attr) simp
  show "keeps_at wf_kept ps (helper_add_env_vars n new ps)"
    unfolding helper_add_env_vars_def
    by (intro wfo.keeps_if wfo.keeps_return wf_kept_update_container wf_kept_merge_env)
  show "keeps_at wf_kept ps (add_container_ports_to_container n ports ps)"
    unfolding add_container_ports_to_container_def
    by (intro wf_kept_update_container wf_kept_add_ports)
  have "json_wf r" if "readiness_probe p dp = Inr r" for r
    using that by (auto simp: readiness_probe_def dict_wf_def opt_int_def split: option.splits)
  then show "keeps_at wf_kept ps (add_readiness_probe n p dp ps)"
    unfolding add_readiness_probe_def
    by (intro wf_kept_update_container keeps_at_value wf_kept_set_attr)
qed

text \<open>
  What an operation leaves alone of an object: its kind, and the labels with other keys than the
  given ones.
\<close>

definition kept_paths :: "string set \<Rightarrow> string list set" where
  "kept_paths ks = insert [''kind''] (label_path ` (- ks))"

definition obj_kept :: "string set \<Rightarrow> pyval \<Rightarrow> pyval \<Rightarrow> bool" where
  "obj_kept ks x y \<longleftrightarrow>
     (json_wf x \<longrightarrow> json_wf y \<and>
       (\<forall>q s. q \<in> kept_paths ks \<longrightarrow> sub_at x q = Some (PStr s) \<longrightarrow> sub_at y q = Some (PStr s)))"

definition objects :: "k8s_helper \<Rightarrow> pyval list" where
  "objects h = (case kh_root h of Some r \<Rightarrow> [r] | None \<Rightarrow> []) @ kh_config_maps h @ kh_role_bindings h @ kh_services h"

definition labels_kept :: "string set \<Rightarrow> k8s_helper \<Rightarrow> k8s_helper \<Rightarrow> bool" where
  "labels_kept ks h h' = list_all2 (obj_kept ks) (objects h) (objects h')"

interpretation lko: object_order "labels_kept ks"
proof
  have refl: "obj_kept ks x x" for x by (simp add: obj_kept_def)
  have trans: "obj_kept ks x y \<Longrightarrow> obj_kept ks y z \<Longrightarrow> obj_kept ks x z" for x y z
    by (auto simp: obj_kept_def)
  show "labels_kept ks h h" for h
    unfolding labels_kept_def using refl by (rule list_all2_refl)
  show "labels_kept ks h h' \<Longrightarrow> labels_kept ks h' h'' \<Longrightarrow> labels_kept ks h h''" for h h' h''
    unfolding labels_kept_def using trans by (rule list_all2_trans) 
qed

lemma set_path_sub_other:
  assumes "set_path x (k # p) v = Inr y" and "k' \<noteq> k"
  shows "sub_at y (k' # q) = sub_at x (k' # q)"
  using assms by (cases x) (auto simp: set_attr_def)

lemma pod_spec_path_spec: "pod_spec_path replica root = Inr p \<Longrightarrow> \<exists>p'. p = ''spec'' # p'"
  by (auto simp: pod_spec_path_def Let_def split: option.splits if_splits)

lemma obj_kept_set_path:
  assumes "json_wf x \<Longrightarrow> json_wf v" and "set_path x (k # p) v = Inr y" and "k \<noteq> ''metadata''" and "k \<noteq> ''kind''"
  shows "obj_kept ks x y"
  using assms json_wf_set_path [of x v "k # p" y] set_path_sub_other [OF assms(2), of "''metadata''"]
    set_path_sub_other [OF assms(2), of "''kind''"]
  by (auto simp: obj_kept_def label_path_def kept_paths_def)

lemma obj_kept_update_pod:
  assumes "\<And>ps. keeps_at wf_kept ps (f ps)"
  shows "keeps_at (obj_kept ks) root (update_pod_spec replica f root)"
  unfolding keeps_at_def
proof (intro allI impI)
  fix y
  assume "update_pod_spec replica f root = Inr y"
  then obtain p ps ps' where p: "pod_spec_path replica root = Inr p" "attr_path root p = Inr ps"
    "f ps = Inr ps'" "set_path root p ps' = Inr y"
    by (auto simp: update_pod_spec_def)
  obtain p' where p': "p = ''spec'' # p'" using pod_spec_path_spec [OF p(1)] by blast
  have "json_wf root \<Longrightarrow> json_wf ps'"
    using json_wf_attr_path [OF _ p(2)] keeps_atD [OF assms p(3)] by (simp add: wf_kept_def)
  then show "obj_kept ks root y" using p(4) [unfolded p'] by (rule obj_kept_set_path) simp_all
qed

lemma obj_kept_refl: "obj_kept ks x x"
  by (simp add: obj_kept_def)

lemma list_all2_obj_kept_refl: "list_all2 (obj_kept ks) xs xs"
  using obj_kept_refl by (rule list_all2_refl)

lemma labels_kept_on_pod:
  assumes "\<And>ps. keeps_at wf_kept ps (f ps)"
  shows "keeps_at (labels_kept ks) h (on_pod replica f h)"
  unfolding keeps_at_def
proof (intro allI impI)
  fix h'
  assume "on_pod replica f h = Inr h'"
  then obtain r r' where "kh_root h = Some r" "update_pod_spec replica f r = Inr r'" "h' = h\<lparr>kh_root := Some r'\<rparr>"
    by (auto simp: on_pod_def need_root_def split: option.splits)
  moreover from this have "obj_kept ks r r'" using keeps_atD [OF obj_kept_update_pod [OF assms]] by blast
  ultimately show "labels_kept ks h h'"
    by (simp add: labels_kept_def objects_def list_all2_obj_kept_refl)
qed

lemma label_rec_wf: "json_wf t \<Longrightarrow> label_rec key v t = Inr t' \<Longrightarrow> json_wf t'"
proof (induction key v t arbitrary: t' rule: label_rec.induct)
  case (1 key v t)
  show ?case
  proof (cases "\<exists>d. t = PDict d")
    case False
    with 1 label_rec_leaf [OF False, of key v] show ?thesis by simp
  next
    case True
    then obtain d where t: "t = PDict d" by blast
    with "1.prems" obtain d' where vis: "visit_label key v d = Inr d'"
      and ok: "\<forall>(k, c) \<in> set d'. \<exists>c'. label_rec key v c = Inr c'"
      and t': "t' = PDict (map (\<lambda>(k, c). (k, projr (label_rec key v c))) d')"
      by (auto elim: label_rec_dict)
    have wf: "json_wf (PDict d')" using json_wf_visit [OF vis] "1.prems"(1) t by blast
    have "map fst (map (\<lambda>(k, c). (k, projr (label_rec key v c))) d') = map fst d'" by auto
    moreover have "json_wf (projr (label_rec key v c))" if kc: "(k, c) \<in> set d'" for k c
    proof -
      obtain c' where "label_rec key v c = Inr c'" using ok kc by blast
      with "1.IH" [OF t vis kc] json_wf_PDictD [OF wf kc] show ?thesis by simp
    qed
    ultimately show ?thesis using wf unfolding t' by (auto simp: dict_wf_def simp del: map_map)
  qed
qed

lemma obj_kept_add_label:
  assumes "key \<in> ks"
  shows "keeps_at (obj_kept ks) t (add_label_to key v t)"
  unfolding keeps_at_def obj_kept_def
proof (intro allI impI conjI)
  fix t'
  assume t': "add_label_to key v t = Inr t'"
  { assume "json_wf t" note rec = add_label_to_rec [OF this t'] }
  note rec = this
  show "json_wf t'" if "json_wf t" using label_rec_wf [OF that rec [OF that]] .
  show "sub_at t' q = Some (PStr s)"
    if wf: "json_wf t" and q: "q \<in> kept_paths ks" and sub: "sub_at t q = Some (PStr s)" for q s
  proof -
    consider "q = [''kind'']" | k where "q = label_path k" "k \<notin> ks" using q by (auto simp: kept_paths_def)
    then have "(\<forall>r. q \<noteq> r @ [''metadata'', ''labels'']) \<and> (\<forall>r s. q \<noteq> r @ label_path key @ s)"
      by cases (use assms in \<open>auto simp: label_path_def Cons_eq_append_conv\<close>)
    with label_rec_keeps [OF rec [OF wf] sub] show ?thesis by simp
  qed
qed

lemma res_map_list_all2:
  assumes "\<And>x. keeps_at R x (f x)" and "res_map f xs = Inr ys"
  shows "list_all2 R xs ys"
  using assms(2) unfolding res_map_Inr_iff
  by (rule list_all2_mono) (use assms(1) in \<open>simp add: keeps_at_def\<close>)

lemma labels_kept_add_label:
  assumes "key \<in> ks"
  shows "keeps_at (labels_kept ks) h (add_label key v h)"
  unfolding keeps_at_def
proof (intro allI impI)
  fix h'
  note kept = obj_kept_add_label [OF assms, of _ v]
  assume "add_label key v h = Inr h'"
  then obtain r r' cms rbs svs where "kh_root h = Some r" and r': "add_label_to key v r = Inr r'"
    and l: "res_map (add_label_to key v) (kh_config_maps h) = Inr cms"
      "res_map (add_label_to key v) (kh_role_bindings h) = Inr rbs"
      "res_map (add_label_to key v) (kh_services h) = Inr svs"
    and "h' = h\<lparr>kh_root := Some r', kh_config_maps := cms, kh_role_bindings := rbs, kh_services := svs\<rparr>"
    by (auto simp: add_label_def need_root_def split: option.splits)
  then show "labels_kept ks h h'"
    using keeps_atD [OF kept r'] l [THEN res_map_list_all2 [OF kept]]
    by (simp add: labels_kept_def objects_def list_all2_appendI)
qed

lemma obj_kept_service_ports: "keeps_at (obj_kept ks) svc (append_service_ports ports svc)"
  unfolding keeps_at_def
proof (intro allI impI)
  fix y
  assume y: "append_service_ports ports svc = Inr y"
  define new where "new = map (\<lambda>(i, p). PDict [(''name'', PStr (''port-'' @ show_nat i)), (''protocol'', PStr ''TCP''),
    (''port'', PInt p)]) (enumerate 0 ports)"
  have new: "\<forall>x \<in> set new. json_wf x" by (auto simp: new_def dict_wf_def)
  consider "y = svc"
    | d sp old where "svc = PDict d" "dict_get d ''spec'' = Some (PDict sp)" "dict_get sp ''ports'' = Some (PList old)"
        "y = PDict (dict_set d ''spec'' (PDict (dict_set sp ''ports'' (PList (old @ new)))))"
    using y by (auto simp: append_service_ports_def Let_def new_def split: pyval.splits option.splits if_splits)
  then show "obj_kept ks svc y"
  proof cases
    case 1
    then show ?thesis by (simp add: obj_kept_refl)
  next
    case 2
    have "json_wf (PDict (dict_set sp ''ports'' (PList (old @ new))))" if "json_wf svc"
    proof -
      have "json_wf (PDict sp)" using that 2 json_wf_get by blast
      moreover from this have "json_wf (PList old)" using 2 json_wf_get by blast
      with new have "json_wf (PList (old @ new))" by auto
      ultimately show ?thesis by (rule json_wf_set)
    qed
    moreover have "set_path svc [''spec''] (PDict (dict_set sp ''ports'' (PList (old @ new)))) = Inr y"
      using 2 by (simp add: attr_def set_attr_def)
    ultimately show ?thesis by (rule obj_kept_set_path) simp_all
  qed
qed

lemma labels_kept_ports: "keeps_at (labels_kept ks) h (add_tcp_ports_to_service n ports h)"
  unfolding keeps_at_def
proof (intro allI impI)
  fix h'
  assume h': "add_tcp_ports_to_service n ports h = Inr h'"
  consider "h' = h"
    | i svc where "append_service_ports ports (kh_services h ! i) = Inr svc"
        "h' = h\<lparr>kh_services := (kh_services h)[i := svc]\<rparr>"
    using h' by (auto simp: add_tcp_ports_to_service_def split: option.splits)
  then show "labels_kept ks h h'"
  proof cases
    case 1
    then show ?thesis by (simp add: lko.refl)
  next
    case 2
    have "list_all2 (obj_kept ks) (kh_services h) ((kh_services h)[i := svc])"
      using keeps_atD [OF obj_kept_service_ports 2(1)] obj_kept_refl
      by (cases "i < length (kh_services h)")
        (auto simp: list_all2_conv_all_nth nth_list_update list_all2_obj_kept_refl)
    with 2 show ?thesis
      by (simp add: labels_kept_def objects_def list_all2_appendI list_all2_obj_kept_refl)
  qed
qed

section \<open>Labels that raise\<close>

text \<open>
  A label named \<open>metadata\<close> turns the labels themselves into metadata, which the walk then tries to
  label.
\<close>

lemma label_rec_metadata:
  assumes "has_metadata d" and "val \<noteq> []"
  shows "label_rec ''metadata'' (Some val) (PDict d) \<noteq> Inr t"
proof
  assume rec: "label_rec ''metadata'' (Some val) (PDict d) = Inr t"
  then obtain d' where vis: "visit_label ''metadata'' (Some val) d = Inr d'" by (auto elim: label_rec_dict)
  from visit_labels_here [OF vis assms(1)] obtain m l where m: "dict_get d' ''metadata'' = Some (PDict m)"
    and l: "dict_get m ''labels'' = Some (PDict l)" "dict_get l ''metadata'' = Some (PStr val)"
    by (auto simp: label_path_def opt_str_def sub_at_Cons split: option.splits pyval.splits)
  obtain t1 where t1: "label_rec ''metadata'' (Some val) (PDict m) = Inr t1"
    using label_rec_below [OF rec vis m] by blast
  then obtain m' where vis': "visit_label ''metadata'' (Some val) m = Inr m'" by (auto elim: label_rec_dict)
  with l(1) have "dict_get m' ''labels'' = Some (PDict l)" by (simp add: visit_other_key)
  from label_rec_below [OF t1 vis' this] obtain t2 where "label_rec ''metadata'' (Some val) (PDict l) = Inr t2" by blast
  then obtain l' where "visit_label ''metadata'' (Some val) l = Inr l'" by (auto elim: label_rec_dict)
  with l(2) assms(2) show False by (simp add: visit_label_def)
qed

definition label_error :: "pyexc \<Rightarrow> bool" where
  "label_error x \<longleftrightarrow> x = TypeError ''labels'' \<or> x = AttributeError ''get''"

lemma visit_label_error: "visit_label key val d = Inl x \<Longrightarrow> label_error x"
  by (auto simp: visit_label_def label_error_def Let_def split: option.splits if_splits pyval.splits)

lemma add_label_loop_error: "add_label_loop n key val ps t = Some (Inl x) \<Longrightarrow> label_error x"
proof (induction n key val ps t rule: add_label_loop.induct)
  case (3 n key val p ps t)
  then show ?case by (auto split: option.splits pyval.splits sum.splits intro: visit_label_error)
qed simp_all

lemma metadata_label_raises:
  assumes "json_wf (PDict d)" and "has_metadata d" and "val \<noteq> []"
  shows "\<exists>x. add_label_to ''metadata'' (Some val) (PDict d) = Inl x \<and> label_error x"
proof -
  have "truthy (PDict d)" using assms(2) by (auto simp: has_metadata_def)
  moreover obtain x where "label_rec ''metadata'' (Some val) (PDict d) = Inl x"
    using label_rec_metadata [OF assms(2,3)] by (cases "label_rec ''metadata'' (Some val) (PDict d)") auto
  from add_label_loop_rec(2) [OF assms(1) this]
  obtain y where "add_label_loop (label_steps (PDict d)) ''metadata'' (Some val) [[]] (PDict d) = Some (Inl y)" by blast
  ultimately show ?thesis using add_label_loop_error unfolding add_label_to_def by (simp del: label_steps.simps)
qed

section \<open>Where the objects come from\<close>

text \<open>Each object of a helper comes from a document of one of the kinds that are supported.\<close>

definition supported_kinds :: "string list" where
  "supported_kinds = [''ConfigMap'', ''CronJob'', ''Job'', ''MPIJob'', ''RoleBinding'', ''Service'']"

definition from_docs :: "pyval list \<Rightarrow> pyval \<Rightarrow> bool" where
  "from_docs docs obj \<longleftrightarrow> (\<exists>d \<in> set docs. obj_kept {} d obj \<and>
     (\<exists>k \<in> set supported_kinds. sub_at d [''kind''] = Some (PStr k)))"

lemma add_doc_objects:
  assumes "add_doc d (h, k) = Inr (h', k')" and "obj \<in> set (objects h')"
  shows "obj \<in> set (objects h) \<or> from_docs [d] obj"
  using assms
  by (auto simp: add_doc_def from_docs_def supported_kinds_def objects_def obj_kept_refl
      split: pyval.splits option.splits if_splits)

lemma add_docs_objects:
  assumes "res_fold add_doc docs (h, k) = Inr (h', k')" and "obj \<in> set (objects h')"
  shows "obj \<in> set (objects h) \<or> from_docs docs obj"
  using assms
proof (induction docs arbitrary: h k)
  case Nil
  then show ?case by simp
next
  case (Cons d docs)
  then obtain h1 k1 where d: "add_doc d (h, k) = Inr (h1, k1)" and r: "res_fold add_doc docs (h1, k1) = Inr (h', k')"
    by (auto simp: res_bind_def split: sum.splits)
  from Cons.IH [OF r Cons.prems(2)] add_doc_objects [OF d, of obj] show ?case
    by (auto simp: from_docs_def)
qed

lemma wf_kept_default_list: "keeps_at wf_kept x (default_list k x)"
  unfolding default_list_def by (intro keeps_at_value wfo.keeps_if wfo.keeps_return wf_kept_set_attr) simp

lemma wf_kept_create_empty_fields: "keeps_at wf_kept ps (create_empty_fields ps)"
proof -
  have "keeps_at wf_kept x (res_bind (elems_of x ''containers'') (\<lambda>cs.
      res_bind (res_map (default_list ''volumeMounts'') cs) (\<lambda>cs. set_attr x ''containers'' (PList cs))))" for x
  proof (cases "json_wf x")
    case False
    then show ?thesis by (simp add: keeps_at_def wf_kept_def)
  next
    case True
    show ?thesis
    proof (intro keeps_at_value wf_kept_set_attr)
      fix cs cs'
      assume "elems_of x ''containers'' = Inr cs" and "res_map (default_list ''volumeMounts'') cs = Inr cs'"
      from json_wf_res_map [OF wf_kept_default_list json_wf_elems_of [OF True this(1)] this(2)]
      show "json_wf (PList cs')" by simp
    qed
  qed
  then show ?thesis unfolding create_empty_fields_def
    by (intro wfo.keeps_bind wf_kept_default_list)
qed

lemma obj_kept_trans: "obj_kept ks x y \<Longrightarrow> obj_kept ks y z \<Longrightarrow> obj_kept ks x z"
  by (simp add: obj_kept_def)

lemma load_helper_objects:
  assumes "load_helper docs = Inr h" and "obj \<in> set (objects h)"
  shows "from_docs docs obj"
proof -
  let ?h = "\<lparr>kh_root = None, kh_config_maps = [], kh_role_bindings = [], kh_services = []\<rparr>"
  let ?rest = "\<lambda>h k. if k = PStr ''MPIJob'' then
             res_bind (need_root h) (\<lambda>r. res_bind (validate_mpi_spec r) (\<lambda>_.
                 res_bind (on_pod (Some MPI_JOB_LAUNCHER) create_empty_fields h)
                   (on_pod (Some MPI_JOB_WORKER) create_empty_fields)))
           else
             res_bind (need_root h) (\<lambda>r. res_bind (validate r) (\<lambda>_. on_pod None create_empty_fields h))"
  have kept: "keeps_at (labels_kept {}) x (?rest x k)" for x k
    by (intro lko.keeps_if keeps_at_value lko.keeps_bind labels_kept_on_pod wf_kept_create_empty_fields)
  obtain h0 k0 where docs: "res_fold add_doc docs (?h, None) = Inr (h0, k0)"
    and case_k: "(case k0 of None \<Rightarrow> Inl (OtherException ''UnboundLocalError'') | Some k \<Rightarrow> ?rest h0 k) = Inr h"
    using assms(1) unfolding load_helper_def by (cases "res_fold add_doc docs (?h, None)") auto
  obtain k where "k0 = Some k" using case_k by (cases k0) simp_all
  with case_k have rest: "?rest h0 k = Inr h" by (simp only: option.case)
  have "list_all2 (obj_kept {}) (objects h0) (objects h)"
    using keeps_atD [OF kept rest] by (simp only: labels_kept_def)
  from list_all2_in2 [OF this assms(2)] obtain x where x: "x \<in> set (objects h0)" "obj_kept {} x obj" by blast
  from add_docs_objects [OF docs x(1)] have "from_docs docs x" by (simp add: objects_def)
  then obtain d where "d \<in> set docs" "obj_kept {} d x" "\<exists>k \<in> set supported_kinds. sub_at d [''kind''] = Some (PStr k)"
    unfolding from_docs_def by blast
  with obj_kept_trans [OF _ x(2)] show ?thesis unfolding from_docs_def by blast
qed

end
