(* ===== verification/Transpiler.thy ===== *)
theory Transpiler
  imports K8s_Spec Events Url
begin

text \<open>
  \<open>transpiler/bai_knowledge.py\<close> and \<open>transpiler/config.py\<close>: from a benchmark descriptor and the
  fetched data to the YAML of the Kubernetes objects that run the benchmark.

  A builder is a record, and a method a function from the builder to the changed one or an
  exception.  The keyword \<open>mpiReplicaType\<close> is the argument \<open>replica\<close>, \<open>None\<close> where it is left out.
  Parameters of the model, collected in \<open>transpiler_env\<close>: the YAML reader and writer, the files of
  the templates, the choice of a random element, the JSON form of an event, and the printed form of
  a content in an error message.  To a template, an object is the attributes that the templates
  read.
\<close>

section \<open>Configuration\<close>

record bai_config =
  puller_mount_chmod :: string
  puller_docker_image :: string
  cron_job_docker_image :: string
  metrics_pusher_docker_image :: string
  metrics_extractor_docker_image :: string
  job_status_trigger_docker_image :: string
  suppress_job_affinity :: bool

record environment_info =
  availability_zones :: "string dict"

record bai_script_source =
  bss_scheme :: string
  bss_bucket :: string
  bss_object :: string

record executor_config =
  descriptor_cfg :: "descriptor_config option"
  bai_cfg :: bai_config
  env_info :: environment_info
  kubectl :: string
  valid_execution_engines :: "string list"

record transpiler_env =
  te_load_all :: "string \<Rightarrow> pyval list res"
  te_dump_all :: "pyval list \<Rightarrow> string"
  te_read_template :: "string \<Rightarrow> string res"
  te_choice :: "string list \<Rightarrow> string"
  te_event_json :: "benchmark_event \<Rightarrow> string"
  te_content_str :: "downloadable_content \<Rightarrow> string"
  te_script_str :: "file_system_object \<Rightarrow> string"
  te_descriptor :: descriptor_env

definition script_source :: "transpiler_env \<Rightarrow> file_system_object \<Rightarrow> bai_script_source res" where
  "script_source T s =
     res_bind (urlparse (fso_dst s)) (\<lambda>u.
       if str_lower (scheme u) \<noteq> ''s3'' then
         Inl (DescriptorError (''Unexpected scheme in script src: '' @ scheme u @ ''. Fetched script is '' @ te_script_str T s))
       else Inr \<lparr>bss_scheme = scheme u, bss_bucket = netloc u, bss_object = tl (url_path u)\<rparr>)"

definition SERVICE_NAME :: string where "SERVICE_NAME = ''executor''"

definition METRICS_PUSHER_CUSTOM_LABEL_PREFIX :: string where
  "METRICS_PUSHER_CUSTOM_LABEL_PREFIX = ''custom_label_''"

definition SCRIPT_UNPACK_MODIFICATOR :: string where "SCRIPT_UNPACK_MODIFICATOR = ''unpack_in_place''"

definition SCRIPT_PULLER_CHMOD :: int where "SCRIPT_PULLER_CHMOD = 777"

definition BENCHMARK_CONTAINER :: string where "BENCHMARK_CONTAINER = ''benchmark''"

definition DATA_PULLER_CONTAINER :: string where "DATA_PULLER_CONTAINER = ''data-puller''"

definition METRICS_PUSHER_CONTAINER :: string where "METRICS_PUSHER_CONTAINER = ''metrics-pusher''"

definition METRICS_EXTRACTOR_CONTAINER :: string where "METRICS_EXTRACTOR_CONTAINER = ''metrics-extractor''"

definition DATASETS_VOLUME_NAME :: string where "DATASETS_VOLUME_NAME = ''datasets-volume''"

definition SCRIPTS_VOLUME_NAME :: string where "SCRIPTS_VOLUME_NAME = ''scripts-volume''"

definition SCRIPTS_PULLER_CONTAINER :: string where "SCRIPTS_PULLER_CONTAINER = ''script-puller''"

definition INFERENCE_SERVER_LOCK_CONTAINER :: string where
  "INFERENCE_SERVER_LOCK_CONTAINER = ''inference-server-lock''"

definition INFERENCE_SERVER_CONTAINER :: string where "INFERENCE_SERVER_CONTAINER = ''inference-server''"

definition SCRIPTS_MOUNT_PATH :: string where "SCRIPTS_MOUNT_PATH = ''/bai/scripts''"

definition SHARED_MEMORY_VOLUME :: string where "SHARED_MEMORY_VOLUME = ''dshm''"

definition SHARED_MEMORY_VOLUME_MOUNT :: string where "SHARED_MEMORY_VOLUME_MOUNT = ''/dev/shm''"

definition BENCHMARK_SERVICE_ACCOUNT :: string where "BENCHMARK_SERVICE_ACCOUNT = ''benchmark''"

definition INFERENCE_SERVER_SERVICE_ACCOUNT :: string where
  "INFERENCE_SERVER_SERVICE_ACCOUNT = ''inference-benchmark''"

record puller_data_source =
  pds_name :: string
  pds_puller_path :: string

section \<open>Builders\<close>

datatype builder_kind = ScheduledBuilder | SingleRunBuilder | HorovodBuilder | InferenceServerBuilder

record builder =
  b_job_id :: string
  b_inference_server_job_id :: string
  b_descriptor :: benchmark_descriptor
  b_template :: config_template
  b_config :: bai_config
  b_event :: benchmark_event
  b_root :: "k8s_helper option"
  b_data_sources :: "downloadable_content list"
  b_models :: "downloadable_content list"
  b_scripts :: "bai_script_source list"
  b_zones :: environment_info
  b_internal_env_vars :: "pyval dict"

definition hardware_obj :: "'a hardware_descriptor_scheme \<Rightarrow> (string \<times> tobj) list" where
  "hardware_obj h =
     [(''instance_type'', TVal (PStr (instance_type h))), (''gpus_per_instance'', TVal (PInt (gpus_per_instance h)))]"

definition descriptor_obj :: "benchmark_descriptor \<Rightarrow> tobj" where
  "descriptor_obj d = TObj
     [(''info'', TObj [(''scheduling'', TVal (opt_str (scheduling (info d))))]),
      (''hardware'', TObj (hardware_obj (hardware d) @
         [(''distributed'', case distributed (hardware d) of
             None \<Rightarrow> TVal PNone
           | Some h \<Rightarrow> TObj [(''num_instances'', TVal (PInt (num_instances h)))])])),
      (''env'', TObj [(''docker_image'', TVal (PStr (docker_image (env d)))),
                      (''privileged'', TVal (PBool (privileged (env d))))]),
      (''server'', case server d of
         None \<Rightarrow> TVal PNone
       | Some s \<Rightarrow> TObj
           [(''hardware'', TObj (hardware_obj (server_hardware s))),
            (''env'', TObj [(''docker_image'', TVal (PStr (se_docker_image (server_env s)))),
                            (''privileged'', TVal (PBool (se_privileged (server_env s))))])])]"

definition config_obj :: "bai_config \<Rightarrow> tobj" where
  "config_obj c = TObj
     [(''puller_docker_image'', TVal (PStr (puller_docker_image c))),
      (''cron_job_docker_image'', TVal (PStr (cron_job_docker_image c))),
      (''metrics_pusher_docker_image'', TVal (PStr (metrics_pusher_docker_image c))),
      (''metrics_extractor_docker_image'', TVal (PStr (metrics_extractor_docker_image c))),
      (''job_status_trigger_docker_image'', TVal (PStr (job_status_trigger_docker_image c)))]"

definition event_obj :: "benchmark_event \<Rightarrow> tobj" where
  "event_obj e = TObj
     [(''action_id'', TVal (PStr (action_id e))), (''client_id'', TVal (PStr (client_id e)))]"

definition init_builder ::
  "transpiler_env \<Rightarrow> string \<Rightarrow> benchmark_descriptor \<Rightarrow> bai_config \<Rightarrow> string \<Rightarrow> benchmark_event \<Rightarrow> builder res" where
  "init_builder T jid d c template_name e =
     res_bind (te_read_template T template_name) (\<lambda>contents.
       let j = str_lower jid; isj = ''is-'' @ j;
           t = feed [(''descriptor'', descriptor_obj d)] \<lparr>yaml_template_contents = contents, variables = []\<rparr>;
           t = feed [(''config'', config_obj c)] t;
           t = feed [(''event'', event_obj e)] t;
           t = feed [(''service_name'', TVal (PStr SERVICE_NAME))] t;
           t = feed [(''job_id'', TVal (PStr j))] t;
           t = feed [(''inference_server_job_id'', TVal (PStr isj))] t
       in Inr \<lparr>b_job_id = j, b_inference_server_job_id = isj, b_descriptor = d, b_template = t, b_config = c,
               b_event = e, b_root = None, b_data_sources = [], b_models = [], b_scripts = [],
               b_zones = \<lparr>availability_zones = []\<rparr>, b_internal_env_vars = []\<rparr>)"

text \<open>The patterns of the metrics are encoded in the descriptor itself.\<close>

definition encode_metric :: "metric_descriptor \<Rightarrow> metric_descriptor" where
  "encode_metric m = m\<lparr>metric_pattern := b64_text (metric_pattern m)\<rparr>"

definition metric_dict :: "metric_descriptor \<Rightarrow> pyval" where
  "metric_dict m = PDict
     [(''name'', PStr (metric_name m)), (''units'', PStr (metric_units m)), (''pattern'', PStr (metric_pattern m))]"

definition get_metrics_from_descriptor :: "benchmark_descriptor \<Rightarrow> string \<times> benchmark_descriptor" where
  "get_metrics_from_descriptor d =
     (case output_metrics d of
        None \<Rightarrow> (json_dumps (PList []), d)
      | Some ms \<Rightarrow>
          (let ms' = map encode_metric ms
           in (json_dumps (PList (map metric_dict ms')), d\<lparr>output_metrics := Some ms'\<rparr>)))"

definition get_server_metrics_from_descriptor :: "benchmark_descriptor \<Rightarrow> (string \<times> benchmark_descriptor) res" where
  "get_server_metrics_from_descriptor d =
     (if \<not> is_inference_strategy d then Inr (json_dumps (PList []), d)
      else case server d of
        None \<Rightarrow> Inl (AttributeError ''output'')
      | Some s \<Rightarrow>
          (case server_output s of
             None \<Rightarrow> Inr (json_dumps (PList []), d)
           | Some ms \<Rightarrow>
               (let ms' = map encode_metric ms
                in Inr (json_dumps (PList (map metric_dict ms')), d\<lparr>server := Some (s\<lparr>server_output := Some ms'\<rparr>)\<rparr>))))"

definition choose_availability_zone ::
  "(string list \<Rightarrow> string) \<Rightarrow> benchmark_descriptor \<Rightarrow> environment_info \<Rightarrow> string res" where
  "choose_availability_zone choice d ei =
     (let h = hardware d; zones = availability_zones ei in
      if truthy_str (availability_zone h) then
        (let z = the (availability_zone h) in
         if z \<in> set (map snd zones) then Inr z else Inl (DescriptorError (''Invalid zone name '' @ z)))
      else if truthy_str (aws_zone_id h) then
        (let z = the (aws_zone_id h) in
         case dict_get zones z of
           Some n \<Rightarrow> Inr n
         | None \<Rightarrow> Inl (DescriptorError (''Invalid zone id '' @ z)))
      else if zones = [] then Inl IndexError
      else Inr (choice (map snd zones)))"

definition feed_var :: "string \<Rightarrow> string \<Rightarrow> builder \<Rightarrow> builder" where
  "feed_var x v b = b\<lparr>b_template := feed [(x, TVal (PStr v))] (b_template b)\<rparr>"

definition feed_benchmark_values :: "transpiler_env \<Rightarrow> builder \<Rightarrow> builder res" where
  "feed_benchmark_values T b =
     res_bind (choose_availability_zone (te_choice T) (b_descriptor b) (b_zones b)) (\<lambda>z.
       let b = feed_var ''availability_zone'' z b;
           (ms, d) = get_metrics_from_descriptor (b_descriptor b)
       in Inr (feed_var ''metrics'' ms (b\<lparr>b_descriptor := d\<rparr>)))"

definition feed_additional_template_values :: "transpiler_env \<Rightarrow> builder_kind \<Rightarrow> builder \<Rightarrow> builder res" where
  "feed_additional_template_values T kind b =
     (case kind of
        ScheduledBuilder \<Rightarrow> Inr (feed_var ''event_json_str'' (json_dumps (PStr (te_event_json T (b_event b)))) b)
      | SingleRunBuilder \<Rightarrow> feed_benchmark_values T b
      | HorovodBuilder \<Rightarrow> feed_benchmark_values T b
      | InferenceServerBuilder \<Rightarrow>
          res_bind (feed_benchmark_values T b) (\<lambda>b.
            res_bind (get_server_metrics_from_descriptor (b_descriptor b)) (\<lambda>(ms, d).
              Inr (feed_var ''server_metrics'' ms (b\<lparr>b_descriptor := d\<rparr>)))))"

section \<open>Changes of the root object\<close>

definition on_root :: "(k8s_helper \<Rightarrow> k8s_helper res) \<Rightarrow> builder \<Rightarrow> builder res" where
  "on_root f b =
     (case b_root b of
        None \<Rightarrow> Inl (AttributeError ''NoneType'')
      | Some h \<Rightarrow> res_bind (f h) (\<lambda>h'. Inr (b\<lparr>b_root := Some h'\<rparr>)))"

definition on_pod_of :: "string option \<Rightarrow> (pyval \<Rightarrow> pyval res) \<Rightarrow> builder \<Rightarrow> builder res" where
  "on_pod_of replica f = on_root (on_pod replica f)"

definition append_env :: "string \<Rightarrow> string \<Rightarrow> pyval \<Rightarrow> pyval res" where
  "append_env n v c =
     (case c of
        PDict d \<Rightarrow>
          (case dict_get d ''env'' of
             None \<Rightarrow> Inr c
           | Some (PList xs) \<Rightarrow>
               Inr (PDict (dict_set d ''env'' (PList (xs @ [PDict [(''name'', PStr n), (''value'', PStr v)]]))))
           | Some _ \<Rightarrow> Inl (AttributeError ''append''))
      | _ \<Rightarrow> Inl (AttributeError ''get''))"

definition add_metrics_pusher_env_var :: "string \<Rightarrow> string \<Rightarrow> string \<Rightarrow> string option \<Rightarrow> builder \<Rightarrow> builder res" where
  "add_metrics_pusher_env_var key v pre replica =
     on_pod_of replica (\<lambda>ps.
       case find_container METRICS_PUSHER_CONTAINER ps of
         Inl (ValueError _) \<Rightarrow> Inr ps
       | Inl e \<Rightarrow> Inl e
       | Inr _ \<Rightarrow> update_container METRICS_PUSHER_CONTAINER (append_env (str_upper pre @ str_upper key) v) ps)"

text \<open>
  The test \<open>if not self.descriptor.is_inference_strategy\<close> is one of the method itself, which is
  always true, so the method never returns early.
\<close>

definition server_env_vars :: "builder \<Rightarrow> pyval dict res" where
  "server_env_vars b =
     (case server (b_descriptor b) of
        None \<Rightarrow> Inl (AttributeError ''env'')
      | Some s \<Rightarrow>
          (case se_ports (server_env s) of
             [] \<Rightarrow> Inl IndexError
           | p # ps \<Rightarrow> Inr (dict_update
               [(''INFERENCE_SERVER_HOST'', PStr (b_inference_server_job_id b @ ''.default'')),
                (''INFERENCE_SERVER_PORT'', PInt p)]
               (map (\<lambda>(i, q). (''INFERENCE_SERVER_PORT_'' @ show_nat (i + 1), PInt q)) (enumerate 0 ps)))))"

definition add_server_env_vars :: "builder \<Rightarrow> builder res" where
  "add_server_env_vars b =
     res_bind (server_env_vars b) (\<lambda>vs. on_pod_of None (helper_add_env_vars BENCHMARK_CONTAINER vs) b)"

definition split_args :: "string option \<Rightarrow> string list res" where
  "split_args c = (if truthy_str c then shlex_split (the c) else Inr [])"

definition str_list :: "string list \<Rightarrow> pyval" where
  "str_list xs = PList (map PStr xs)"

definition benchmark_cmd :: "ml_descriptor option \<Rightarrow> pyval \<Rightarrow> pyval res" where
  "benchmark_cmd m c =
     (case m of
        Some m \<Rightarrow>
          if truthy_str (benchmark_code m) then
            res_bind (split_args (benchmark_code m)) (\<lambda>cmd.
              res_bind (split_args (ml_args m)) (\<lambda>args.
                res_bind (set_attr c ''command'' (str_list (cmd @ args))) (\<lambda>c. pop_attr c ''args'')))
          else if truthy_str (ml_args m) then
            res_bind (split_args (ml_args m)) (\<lambda>args.
              res_bind (set_attr c ''args'' (str_list args)) (\<lambda>c. pop_attr c ''command''))
          else res_bind (pop_attr c ''command'') (\<lambda>c. pop_attr c ''args'')
      | None \<Rightarrow> res_bind (pop_attr c ''command'') (\<lambda>c. pop_attr c ''args''))"

definition add_benchmark_cmd_to_container :: "string option \<Rightarrow> builder \<Rightarrow> builder res" where
  "add_benchmark_cmd_to_container replica b =
     on_pod_of replica (update_container BENCHMARK_CONTAINER (benchmark_cmd (ml (b_descriptor b)))) b"

definition strip_lines :: "string \<Rightarrow> string" where
  "strip_lines s = str_join [CHR 0x0A] (map str_strip (split_on (CHR 0x0A) s))"

definition add_benchmark_cmd_to_config_map :: "string option \<Rightarrow> builder \<Rightarrow> builder res" where
  "add_benchmark_cmd_to_config_map replica b =
     (case ml (b_descriptor b) of
        Some m \<Rightarrow>
          if truthy_str (benchmark_code m) then
            (let cmd = strip_lines (the (benchmark_code m) @ (case ml_args m of Some a \<Rightarrow> a | None \<Rightarrow> [])) in
             on_root (\<lambda>h.
               res_bind (find_config_map (''entrypoint-'' @ b_job_id b) h) (\<lambda>i.
                 res_bind (set_path (kh_config_maps h ! i) [''data'', ''entrypoint.sh''] (PStr cmd)) (\<lambda>cm.
                   Inr (h\<lparr>kh_config_maps := (kh_config_maps h)[i := cm]\<rparr>)))) b)
          else add_benchmark_cmd_to_container replica b
      | None \<Rightarrow> add_benchmark_cmd_to_container replica b)"

definition add_benchmark_cmd :: "string option \<Rightarrow> builder \<Rightarrow> builder res" where
  "add_benchmark_cmd replica b =
     (case strategy (hardware (b_descriptor b)) of
        SINGLE_NODE \<Rightarrow> add_benchmark_cmd_to_container None b
      | INFERENCE \<Rightarrow> add_benchmark_cmd_to_container None b
      | HOROVOD \<Rightarrow> add_benchmark_cmd_to_config_map replica b)"

section \<open>Data and scripts\<close>

fun get_data_mounts_from :: "nat \<Rightarrow> downloadable_content list \<Rightarrow> puller_data_source dict \<Rightarrow> puller_data_source dict" where
  "get_data_mounts_from i [] vols = vols"
| "get_data_mounts_from i (s # ss) vols =
     get_data_mounts_from (Suc i) ss
       (if dict_has vols (path s) then vols
        else let n = ''p'' @ show_nat i
             in dict_set vols (path s) \<lparr>pds_name = n, pds_puller_path = ''/data/'' @ n\<rparr>)"

definition get_data_mounts :: "downloadable_content list \<Rightarrow> puller_data_source dict" where
  "get_data_mounts ss = get_data_mounts_from 0 ss []"

definition get_container_volume_mounts :: "puller_data_source dict \<Rightarrow> pyval list" where
  "get_container_volume_mounts vols =
     map (\<lambda>(p, v). PDict [(''name'', PStr DATASETS_VOLUME_NAME), (''mountPath'', PStr p), (''subPath'', PStr (pds_name v))]) vols"

definition get_s3_bucket_and_object_from_uri :: "transpiler_env \<Rightarrow> downloadable_content \<Rightarrow> (string \<times> string) res" where
  "get_s3_bucket_and_object_from_uri T c =
     (case dst c of
        None \<Rightarrow> Inl (DescriptorError (''Unexpected scheme in data source src: b'' @ [CHR 0x27, CHR 0x27] @ ''. Fetched content is '' @ te_content_str T c))
      | Some u \<Rightarrow>
          res_bind (urlparse u) (\<lambda>u.
            if str_lower (scheme u) \<noteq> ''s3'' then
              Inl (DescriptorError (''Unexpected scheme in data source src: '' @ scheme u @ ''. Fetched content is '' @ te_content_str T c))
            else Inr (netloc u, tl (url_path u))))"

definition puller_object :: "transpiler_env \<Rightarrow> bai_config \<Rightarrow> puller_data_source dict \<Rightarrow> downloadable_content \<Rightarrow> string res" where
  "puller_object T c vols s =
     res_bind (get_s3_bucket_and_object_from_uri T s) (\<lambda>(_, obj).
       case dict_get vols (path s) of
         None \<Rightarrow> Inl (KeyError (path s))
       | Some v \<Rightarrow> Inr (obj @ '','' @ puller_mount_chmod c @ '','' @ pds_name v))"

definition puller_args :: "transpiler_env \<Rightarrow> bai_config \<Rightarrow> puller_data_source dict \<Rightarrow> downloadable_content list \<Rightarrow> string list res" where
  "puller_args T c vols ss =
     res_bind (get_s3_bucket_and_object_from_uri T (hd ss)) (\<lambda>(bucket, _).
       res_bind (res_map (puller_object T c vols) ss) (\<lambda>objs.
         Inr [bucket, str_join '':'' objs]))"

definition update_data_puller ::
  "transpiler_env \<Rightarrow> puller_data_source dict \<Rightarrow> downloadable_content list \<Rightarrow> string option \<Rightarrow> builder \<Rightarrow> builder res" where
  "update_data_puller T vols ss replica b =
     (if ss = [] then
        res_bind (on_pod_of replica (remove_container DATA_PULLER_CONTAINER) b)
          (on_pod_of replica (remove_volume DATASETS_VOLUME_NAME))
      else
        on_pod_of replica (update_container DATA_PULLER_CONTAINER (\<lambda>c.
          res_bind (puller_args T (b_config b) vols ss) (\<lambda>args. set_attr c ''args'' (str_list args)))) b)"

text \<open>\<open>container.volumeMounts.extend(mounts)\<close> and \<open>container.volumeMounts.append(mount)\<close>\<close>

definition extend_mounts :: "pyval list \<Rightarrow> pyval \<Rightarrow> pyval res" where
  "extend_mounts ms c =
     res_bind (attr c ''volumeMounts'') (\<lambda>v.
       case v of
         PList old \<Rightarrow> set_attr c ''volumeMounts'' (PList (old @ ms))
       | PDict _ \<Rightarrow> Inl (TypeError ''not callable'')
       | _ \<Rightarrow> Inl (AttributeError ''extend''))"

definition add_data_volume_mounts ::
  "transpiler_env \<Rightarrow> downloadable_content list \<Rightarrow> string \<Rightarrow> string option \<Rightarrow> builder \<Rightarrow> builder res" where
  "add_data_volume_mounts T ss container replica b =
     res_bind (on_pod_of replica (\<lambda>ps. res_bind (find_container container ps) (\<lambda>_. Inr ps)) b) (\<lambda>b.
       let vols = get_data_mounts ss in
       res_bind (update_data_puller T vols ss replica b)
         (on_pod_of replica (update_container container (extend_mounts (get_container_volume_mounts vols)))))"

definition remove_metrics_sidecars :: "string option \<Rightarrow> builder \<Rightarrow> builder res" where
  "remove_metrics_sidecars replica b =
     res_bind (on_pod_of replica (remove_container METRICS_EXTRACTOR_CONTAINER) b)
       (on_pod_of replica (remove_container METRICS_PUSHER_CONTAINER))"

definition append_volume :: "pyval \<Rightarrow> pyval \<Rightarrow> pyval res" where
  "append_volume v ps =
     res_bind (attr ps ''volumes'') (\<lambda>vs.
       case vs of
         PList old \<Rightarrow> set_attr ps ''volumes'' (PList (old @ [v]))
       | PDict _ \<Rightarrow> Inl (TypeError ''not callable'')
       | _ \<Rightarrow> Inl (AttributeError ''append''))"

definition add_extended_shm :: "string \<Rightarrow> string option \<Rightarrow> builder \<Rightarrow> builder res" where
  "add_extended_shm container replica =
     on_pod_of replica (\<lambda>ps.
       res_bind (find_container container ps) (\<lambda>_.
         res_bind (append_volume (PDict [(''name'', PStr SHARED_MEMORY_VOLUME),
             (''emptyDir'', PDict [(''medium'', PStr ''Memory'')])]) ps)
           (update_container container (extend_mounts
             [PDict [(''name'', PStr SHARED_MEMORY_VOLUME), (''mountPath'', PStr SHARED_MEMORY_VOLUME_MOUNT)]]))))"

definition add_shared_memory :: "string option \<Rightarrow> builder \<Rightarrow> builder res" where
  "add_shared_memory replica b =
     (if extended_shm (env (b_descriptor b)) then add_extended_shm BENCHMARK_CONTAINER replica b else Inr b)"

definition add_env_vars :: "string option \<Rightarrow> builder \<Rightarrow> builder res" where
  "add_env_vars replica b =
     res_bind (on_pod_of replica (helper_add_env_vars BENCHMARK_CONTAINER
         (map (apsnd PStr) (env_vars (env (b_descriptor b))))) b)
       (on_pod_of replica (helper_add_env_vars BENCHMARK_CONTAINER (b_internal_env_vars b)))"

definition script_object :: "nat \<times> bai_script_source \<Rightarrow> string" where
  "script_object = (\<lambda>(i, s). bss_object s @ '','' @ show_int SCRIPT_PULLER_CHMOD @ '','' @
     SCRIPTS_MOUNT_PATH @ ''/s'' @ show_nat i @ '','' @ SCRIPT_UNPACK_MODIFICATOR)"

definition add_scripts :: "bai_script_source list \<Rightarrow> string option \<Rightarrow> builder \<Rightarrow> builder res" where
  "add_scripts ss replica b =
     (case ss of
        [] \<Rightarrow>
          res_bind (on_pod_of replica (remove_container SCRIPTS_PULLER_CONTAINER) b)
            (on_pod_of replica (remove_volume SCRIPTS_VOLUME_NAME))
      | s # _ \<Rightarrow>
          res_bind (on_pod_of replica (update_container SCRIPTS_PULLER_CONTAINER (\<lambda>c.
              set_attr c ''args'' (str_list
                [bss_bucket s, str_join '':'' (map script_object (enumerate 0 ss))]))) b) (\<lambda>b.
            Inr (b\<lparr>b_internal_env_vars :=
              dict_set (b_internal_env_vars b) ''BAI_SCRIPTS_PATH'' (PStr SCRIPTS_MOUNT_PATH)\<rparr>)))"

section \<open>The kinds of objects\<close>

definition need_labels :: "builder \<Rightarrow> string dict res" where
  "need_labels b =
     (case info_labels (info (b_descriptor b)) of Some l \<Rightarrow> Inr l | None \<Rightarrow> Inl (AttributeError ''items''))"

definition pusher_label :: "string option \<Rightarrow> string \<times> string \<Rightarrow> builder \<Rightarrow> builder res" where
  "pusher_label replica = (\<lambda>(l, v). add_metrics_pusher_env_var l v METRICS_PUSHER_CUSTOM_LABEL_PREFIX replica)"

text \<open>
  The labels of a benchmark with metrics: its own ones, the dashboard and the region.  The label
  \<open>region\<close> of the objects is set to the dashboard, as in the source.
\<close>

definition add_metrics_labels :: "string option \<Rightarrow> builder \<Rightarrow> builder res" where
  "add_metrics_labels replica b =
     res_bind (need_labels b) (\<lambda>ls.
     res_bind (res_fold (pusher_label replica) ls b) (\<lambda>b.
       case custom_params (b_descriptor b) of
         None \<Rightarrow> Inr b
       | Some cp \<Rightarrow>
           res_bind
             (if truthy_str (dashboard cp) then
                res_bind (on_root (add_label ''dashboard-name'' (dashboard cp)) b)
                  (pusher_label replica (''dashboard-name'', the (dashboard cp)))
              else Inr b) (\<lambda>b.
             if truthy_str (region cp) then
               res_bind (on_root (add_label ''region'' (dashboard cp)) b)
                 (pusher_label replica (''region'', the (region cp)))
             else Inr b)))"

definition add_parent_label :: "string option \<Rightarrow> builder \<Rightarrow> builder res" where
  "add_parent_label replica b =
     (let p = parent_action_id (b_event b) in
      if truthy_str p then
        res_bind (on_root (add_label ''parent-action-id'' p) b) (pusher_label replica (''parent-action-id'', the p))
      else Inr b)"

definition drop_affinity :: "string option \<Rightarrow> builder \<Rightarrow> builder res" where
  "drop_affinity replica b =
     (if suppress_job_affinity (b_config b) then on_pod_of replica remove_affinity b else Inr b)"

definition update_single_run :: "transpiler_env \<Rightarrow> builder \<Rightarrow> builder res" where
  "update_single_run T b =
     res_bind (on_pod_of None (set_service_account BENCHMARK_SERVICE_ACCOUNT) b) (\<lambda>b.
     res_bind (add_data_volume_mounts T (b_data_sources b) BENCHMARK_CONTAINER None b) (\<lambda>b.
     res_bind (add_scripts (b_scripts b) None b) (\<lambda>b.
     res_bind (add_shared_memory None b) (\<lambda>b.
     res_bind (add_env_vars None b) (\<lambda>b.
     res_bind (add_benchmark_cmd None b) (\<lambda>b.
     res_bind (if output_metrics (b_descriptor b) = None then remove_metrics_sidecars None b
               else add_metrics_labels None b) (\<lambda>b.
     res_bind (add_parent_label None b) (\<lambda>b.
     res_bind (drop_affinity None b) (\<lambda>b.
       if is_inference_strategy (b_descriptor b) then
         res_bind (on_pod_of None (set_service_account INFERENCE_SERVER_SERVICE_ACCOUNT) b) add_server_env_vars
       else if strategy (hardware (b_descriptor b)) = SINGLE_NODE then
         on_pod_of None (remove_container INFERENCE_SERVER_LOCK_CONTAINER) b
       else Inr b)))))))))"

definition update_replica :: "string \<Rightarrow> builder \<Rightarrow> builder res" where
  "update_replica ty b =
     res_bind (on_pod_of (Some ty) (set_service_account BENCHMARK_SERVICE_ACCOUNT) b) (\<lambda>b.
     res_bind (add_scripts (b_scripts b) (Some ty) b) (\<lambda>b.
     res_bind (add_shared_memory (Some ty) b) (\<lambda>b.
     res_bind (add_env_vars (Some ty) b) (\<lambda>b.
     res_bind (if output_metrics (b_descriptor b) = None then remove_metrics_sidecars (Some ty) b
               else add_metrics_labels (Some ty) b) (\<lambda>b.
     res_bind (add_parent_label (Some ty) b) (drop_affinity (Some ty)))))))"

definition update_horovod :: "transpiler_env \<Rightarrow> builder \<Rightarrow> builder res" where
  "update_horovod T b =
     res_bind (add_data_volume_mounts T (b_data_sources b) BENCHMARK_CONTAINER (Some MPI_JOB_WORKER) b) (\<lambda>b.
     res_bind (add_benchmark_cmd (Some MPI_JOB_LAUNCHER) b) (\<lambda>b.
       res_fold update_replica [MPI_JOB_LAUNCHER, MPI_JOB_WORKER] b))"

definition server_command :: "server_env \<Rightarrow> pyval \<Rightarrow> pyval res" where
  "server_command e c =
     res_bind (split_args (Some (se_start_command e))) (\<lambda>cmd.
       res_bind (split_args (se_start_command_args e)) (\<lambda>args.
         res_bind (set_attr c ''command'' (str_list (cmd @ args))) (\<lambda>c. pop_attr c ''args'')))"

definition update_inference_server :: "transpiler_env \<Rightarrow> builder \<Rightarrow> builder res" where
  "update_inference_server T b =
     res_bind (on_pod_of None (set_service_account INFERENCE_SERVER_SERVICE_ACCOUNT) b) (\<lambda>b.
       case server (b_descriptor b) of
         None \<Rightarrow> Inl (AttributeError ''env'')
       | Some s \<Rightarrow>
           (let e = server_env s in
            res_bind (if se_extended_shm e then add_extended_shm INFERENCE_SERVER_CONTAINER None b else Inr b) (\<lambda>b.
            res_bind (on_pod_of None (update_container INFERENCE_SERVER_CONTAINER (server_command e)) b) (\<lambda>b.
            res_bind (add_data_volume_mounts T (b_models b) INFERENCE_SERVER_CONTAINER None b) (\<lambda>b.
            res_bind (on_pod_of None (helper_add_env_vars INFERENCE_SERVER_CONTAINER (map (apsnd PStr) (se_vars e))) b) (\<lambda>b.
            res_bind (on_root (add_tcp_ports_to_service (b_inference_server_job_id b) (se_ports e)) b) (\<lambda>b.
            res_bind (on_pod_of None (add_container_ports_to_container INFERENCE_SERVER_CONTAINER (se_ports e)) b) (\<lambda>b.
            res_bind (case se_readiness_probe e of
                None \<Rightarrow> Inr b
              | Some p \<Rightarrow>
                  (case se_ports e of
                     [] \<Rightarrow> Inl IndexError
                   | q # _ \<Rightarrow> on_pod_of None (add_readiness_probe INFERENCE_SERVER_CONTAINER p q) b)) (\<lambda>b.
            res_bind (if truthy_str (parent_action_id (b_event b))
                      then on_root (add_label ''parent-action-id'' (parent_action_id (b_event b))) b
                      else Inr b) (\<lambda>b.
            res_bind (if server_output s = None then remove_metrics_sidecars None b
                      else add_metrics_labels None b) (drop_affinity None)))))))))))"

definition update_root_k8s_object :: "transpiler_env \<Rightarrow> builder_kind \<Rightarrow> builder \<Rightarrow> builder res" where
  "update_root_k8s_object T kind b =
     (case kind of
        ScheduledBuilder \<Rightarrow> Inr b
      | SingleRunBuilder \<Rightarrow> update_single_run T b
      | HorovodBuilder \<Rightarrow> update_horovod T b
      | InferenceServerBuilder \<Rightarrow> update_inference_server T b)"

definition build :: "transpiler_env \<Rightarrow> builder_kind \<Rightarrow> builder \<Rightarrow> builder res" where
  "build T kind b =
     (if b_root b \<noteq> None then Inr b
      else
        res_bind (feed_additional_template_values T kind b) (\<lambda>b.
        res_bind (build_template (te_load_all T) (b_template b)) (\<lambda>h.
          let b = b\<lparr>b_root := Some h\<rparr> in
          res_bind (need_labels b) (\<lambda>ls.
          res_bind (res_fold (\<lambda>(l, v). on_root (add_label l (Some v))) ls b)
            (update_root_k8s_object T kind)))))"

definition dump_yaml_string :: "transpiler_env \<Rightarrow> builder \<Rightarrow> string res" where
  "dump_yaml_string T b =
     (case b_root b of
        None \<Rightarrow> Inl (AttributeError ''to_yaml'')
      | Some h \<Rightarrow> to_yaml (te_dump_all T) h)"

section \<open>From events to YAML\<close>

definition create_scripts :: "transpiler_env \<Rightarrow> file_system_object list \<Rightarrow> bai_script_source list res" where
  "create_scripts T ss = res_map (script_source T) ss"

fun strategy_template :: "distributed_strategy \<Rightarrow> string \<times> builder_kind" where
  "strategy_template SINGLE_NODE = (''job_single_node.yaml'', SingleRunBuilder)"
| "strategy_template INFERENCE = (''job_single_node.yaml'', SingleRunBuilder)"
| "strategy_template HOROVOD = (''mpi_job_horovod.yaml'', HorovodBuilder)"

definition benchmark_builder ::
  "transpiler_env \<Rightarrow> benchmark_descriptor \<Rightarrow> bai_config \<Rightarrow> downloadable_content list \<Rightarrow> bai_script_source list \<Rightarrow>
   string \<Rightarrow> string \<Rightarrow> benchmark_event \<Rightarrow> environment_info \<Rightarrow> builder res" where
  "benchmark_builder T d c sources bs jid template_name e ei =
     res_bind (init_builder T jid d c template_name e) (\<lambda>b.
       Inr (b\<lparr>b_data_sources := sources, b_scripts := bs, b_zones := ei, b_internal_env_vars := []\<rparr>))"

definition inference_server_builder ::
  "transpiler_env \<Rightarrow> benchmark_descriptor \<Rightarrow> bai_config \<Rightarrow> string \<Rightarrow> downloadable_content list \<Rightarrow>
   benchmark_event \<Rightarrow> environment_info \<Rightarrow> builder res" where
  "inference_server_builder T d c jid ms e ei =
     res_bind (benchmark_builder T d c [] [] jid ''inference_server_job.yaml'' e ei) (\<lambda>b. Inr (b\<lparr>b_models := ms\<rparr>))"

definition scheduled_builder ::
  "transpiler_env \<Rightarrow> benchmark_descriptor \<Rightarrow> bai_config \<Rightarrow> string \<Rightarrow> benchmark_event \<Rightarrow> builder res" where
  "scheduled_builder T d c jid e = init_builder T jid d c ''cron_job.yaml'' e"

definition create_single_run_benchmark_bai_k8s_builder ::
  "transpiler_env \<Rightarrow> benchmark_descriptor \<Rightarrow> bai_config \<Rightarrow> downloadable_content list \<Rightarrow> file_system_object list \<Rightarrow>
   string \<Rightarrow> benchmark_event \<Rightarrow> environment_info \<Rightarrow> builder res" where
  "create_single_run_benchmark_bai_k8s_builder T d c sources ss jid e ei =
     (let (template_name, kind) = strategy_template (strategy (hardware d)) in
      res_bind (create_scripts T ss) (\<lambda>bs.
        res_bind (benchmark_builder T d c sources bs jid template_name e ei) (build T kind)))"

definition create_inference_server_bai_k8s_builder ::
  "transpiler_env \<Rightarrow> benchmark_descriptor \<Rightarrow> bai_config \<Rightarrow> string \<Rightarrow> downloadable_content list \<Rightarrow>
   benchmark_event \<Rightarrow> environment_info \<Rightarrow> builder res" where
  "create_inference_server_bai_k8s_builder T d c jid ms e ei =
     res_bind (inference_server_builder T d c jid ms e ei) (build T InferenceServerBuilder)"

definition create_scheduled_benchmark_bai_k8s_builder ::
  "transpiler_env \<Rightarrow> benchmark_descriptor \<Rightarrow> bai_config \<Rightarrow> string \<Rightarrow> benchmark_event \<Rightarrow> builder res" where
  "create_scheduled_benchmark_bai_k8s_builder T d c jid e =
     res_bind (scheduled_builder T d c jid e) (build T ScheduledBuilder)"

definition create_job_yaml_spec ::
  "transpiler_env \<Rightarrow> pyval dict \<Rightarrow> executor_config \<Rightarrow> downloadable_content list \<Rightarrow> downloadable_content list \<Rightarrow>
   file_system_object list \<Rightarrow> string \<Rightarrow> benchmark_event \<Rightarrow> string res" where
  "create_job_yaml_spec T dd cfg sources ms ss jid e =
     res_bind (descriptor_from_dict (te_descriptor T) dd (descriptor_cfg cfg)) (\<lambda>d.
     res_bind (create_single_run_benchmark_bai_k8s_builder T d (bai_cfg cfg) sources ss jid e (env_info cfg)) (\<lambda>b.
       if strategy (hardware d) \<noteq> INFERENCE then dump_yaml_string T b
       else
         res_bind (create_inference_server_bai_k8s_builder T (b_descriptor b) (bai_cfg cfg) jid ms e (env_info cfg)) (\<lambda>ib.
         res_bind (dump_yaml_string T b) (\<lambda>y1.
         res_bind (dump_yaml_string T ib) (\<lambda>y2.
           Inr (y1 @ ''---'' @ [CHR 0x0A] @ y2))))))"

definition create_scheduled_job_yaml_spec ::
  "transpiler_env \<Rightarrow> pyval dict \<Rightarrow> executor_config \<Rightarrow> string \<Rightarrow> benchmark_event \<Rightarrow> string res" where
  "create_scheduled_job_yaml_spec T dd cfg jid e =
     res_bind (descriptor_from_dict (te_descriptor T) dd (descriptor_cfg cfg)) (\<lambda>d.
     res_bind (create_scheduled_benchmark_bai_k8s_builder T d (bai_cfg cfg) jid e) (dump_yaml_string T))"

section \<open>Labels of the objects that are built\<close>

definition builder_kept :: "string set \<Rightarrow> builder \<Rightarrow> builder \<Rightarrow> bool" where
  "builder_kept ks b b' \<longleftrightarrow> b_event b' = b_event b \<and>
     (\<forall>h. b_root b = Some h \<longrightarrow> (\<exists>h'. b_root b' = Some h' \<and> labels_kept ks h h'))"

interpretation bko: object_order "builder_kept ks"
proof
  show "builder_kept ks b b" for b by (simp add: builder_kept_def lko.refl)
  show "builder_kept ks b b' \<Longrightarrow> builder_kept ks b' b'' \<Longrightarrow> builder_kept ks b b''" for b b' b''
    unfolding builder_kept_def using lko.trans by metis
qed

named_theorems builder_keeps \<open>operations of a builder that leave the labels alone\<close>

lemmas bkeeps = keeps_at_raise keeps_at_option keeps_at_let bko.keeps_return bko.keeps_if bko.keeps_fold bko.keeps_bind

lemma kept_on_root:
  "(\<And>h. keeps_at (labels_kept ks) h (f h)) \<Longrightarrow> keeps_at (builder_kept ks) b (on_root f b)"
  by (auto simp: on_root_def keeps_at_def builder_kept_def split: option.splits)

lemma kept_on_pod_of:
  "(\<And>ps. keeps_at wf_kept ps (f ps)) \<Longrightarrow> keeps_at (builder_kept ks) b (on_pod_of replica f b)"
  unfolding on_pod_of_def by (intro kept_on_root labels_kept_on_pod)

lemma kept_add_label:
  "key \<in> ks \<Longrightarrow> keeps_at (builder_kept ks) b (on_root (add_label key v) b)"
  by (intro kept_on_root labels_kept_add_label)

lemma wf_kept_append_env: "keeps_at wf_kept c (append_env n v c)"
  unfolding keeps_at_def wf_kept_def
proof (intro allI impI)
  fix y
  assume y: "append_env n v c = Inr y" and wf: "json_wf c"
  consider "y = c" | d xs where "c = PDict d" "dict_get d ''env'' = Some (PList xs)"
      "y = PDict (dict_set d ''env'' (PList (xs @ [PDict [(''name'', PStr n), (''value'', PStr v)]])))"
    using y by (auto simp: append_env_def split: pyval.splits option.splits)
  then show "json_wf y"
  proof cases
    case 2
    then have "json_wf (PList xs)" using wf json_wf_get by blast
    then have "json_wf (PList (xs @ [PDict [(''name'', PStr n), (''value'', PStr v)]]))" by (auto simp: dict_wf_def)
    with 2 wf show ?thesis using json_wf_set by blast
  qed (use wf in simp)
qed

lemma wf_kept_extend:
  assumes "\<forall>m \<in> set ms. json_wf m"
  shows "keeps_at wf_kept c (res_bind (attr c k) (\<lambda>v.
       case v of
         PList old \<Rightarrow> set_attr c k (PList (old @ ms))
       | PDict _ \<Rightarrow> Inl e1
       | _ \<Rightarrow> Inl e2))"
proof (cases "json_wf c")
  case False
  then show ?thesis by (simp add: keeps_at_def wf_kept_def)
next
  case True
  show ?thesis
  proof (intro keeps_at_value)
    fix v
    assume "attr c k = Inr v"
    then have "json_wf v" by (rule json_wf_attr [OF True])
    then show "keeps_at wf_kept c (case v of PList old \<Rightarrow> set_attr c k (PList (old @ ms)) | PDict _ \<Rightarrow> Inl e1 | _ \<Rightarrow> Inl e2)"
      using assms by (cases v) (auto simp: keeps_at_raise intro!: wf_kept_set_attr)
  qed
qed

lemma wf_kept_str_list [simp]: "json_wf (str_list xs)"
  by (auto simp: str_list_def)

lemma wf_kept_benchmark_cmd: "keeps_at wf_kept c (benchmark_cmd m c)"
  unfolding benchmark_cmd_def
  by (intro keeps_at_option wfo.keeps_if wfo.keeps_bind wf_kept_del_attr keeps_at_value wf_kept_set_attr
      wf_kept_str_list)

lemma wf_kept_find: "keeps_at wf_kept ps (res_bind (find_container n ps) (\<lambda>_. Inr ps))"
  by (intro keeps_at_value wfo.keeps_return)

lemma wf_kept_mounts: "keeps_at wf_kept c (extend_mounts (get_container_volume_mounts vols) c)"
  unfolding extend_mounts_def
  by (rule wf_kept_extend) (auto simp: get_container_volume_mounts_def dict_wf_def)

lemma wf_kept_shm:
  "keeps_at wf_kept c (extend_mounts
     [PDict [(''name'', PStr SHARED_MEMORY_VOLUME), (''mountPath'', PStr SHARED_MEMORY_VOLUME_MOUNT)]] c)"
  "keeps_at wf_kept ps (append_volume (PDict [(''name'', PStr SHARED_MEMORY_VOLUME),
     (''emptyDir'', PDict [(''medium'', PStr ''Memory'')])]) ps)"
  unfolding extend_mounts_def append_volume_def
  by (rule wf_kept_extend; simp add: dict_wf_def)+

lemma wf_kept_server_command: "keeps_at wf_kept c (server_command e c)"
  unfolding server_command_def
  by (intro wfo.keeps_bind wf_kept_del_attr keeps_at_value wf_kept_set_attr wf_kept_str_list)

lemma wf_kept_pusher_env:
  "keeps_at wf_kept ps (case find_container n ps of
     Inl (ValueError _) \<Rightarrow> Inr ps
   | Inl e \<Rightarrow> Inl e
   | Inr _ \<Rightarrow> update_container n (append_env x v) ps)"
  by (auto split: sum.splits pyexc.splits intro: wfo.keeps_return keeps_at_raise
      wf_kept_update_container wf_kept_append_env)

lemmas pod_keeps = wf_kept_remove_container wf_kept_remove_volume wf_kept_update_container wf_kept_pod_ops
  wf_kept_set_attr wf_kept_find wf_kept_mounts wf_kept_shm wf_kept_server_command wf_kept_pusher_env
  wf_kept_benchmark_cmd wf_kept_str_list

lemma kept_pusher_label [builder_keeps]: "keeps_at (builder_kept ks) b (pusher_label replica lv b)"
  unfolding pusher_label_def add_metrics_pusher_env_var_def
  by (cases lv) (auto intro!: kept_on_pod_of pod_keeps)

lemma kept_cmd_to_container [builder_keeps]: "keeps_at (builder_kept ks) b (add_benchmark_cmd_to_container replica b)"
  unfolding add_benchmark_cmd_to_container_def by (intro kept_on_pod_of pod_keeps)

lemma kept_config_map:
  "keeps_at (labels_kept ks) h (res_bind (find_config_map n h) (\<lambda>i.
     res_bind (set_path (kh_config_maps h ! i) [''data'', x] (PStr cmd)) (\<lambda>cm.
       Inr (h\<lparr>kh_config_maps := (kh_config_maps h)[i := cm]\<rparr>))))"
proof (intro keeps_at_value)
  fix i cm
  assume "set_path (kh_config_maps h ! i) [''data'', x] (PStr cmd) = Inr cm"
  then have "obj_kept ks (kh_config_maps h ! i) cm" for ks by (rule obj_kept_set_path [rotated]) simp_all
  then have "list_all2 (obj_kept ks) (kh_config_maps h) ((kh_config_maps h)[i := cm])"
    using obj_kept_refl
    by (cases "i < length (kh_config_maps h)")
      (auto simp: list_all2_conv_all_nth nth_list_update list_all2_obj_kept_refl)
  then show "keeps_at (labels_kept ks) h (Inr (h\<lparr>kh_config_maps := (kh_config_maps h)[i := cm]\<rparr>))"
    by (simp add: keeps_at_def labels_kept_def objects_def list_all2_appendI list_all2_obj_kept_refl)
qed

lemma kept_benchmark_cmd [builder_keeps]: "keeps_at (builder_kept ks) b (add_benchmark_cmd replica b)"
proof -
  have "keeps_at (builder_kept ks) b (add_benchmark_cmd_to_config_map replica b)"
    unfolding add_benchmark_cmd_to_config_map_def
    by (intro bkeeps kept_on_root kept_config_map builder_keeps)
  then show ?thesis
    unfolding add_benchmark_cmd_def
    by (cases "strategy (hardware (b_descriptor b))") (simp_all add: builder_keeps)
qed

lemma kept_data_volume_mounts [builder_keeps]:
  "keeps_at (builder_kept ks) b (add_data_volume_mounts T ss container replica b)"
  unfolding add_data_volume_mounts_def update_data_puller_def
  by (intro bkeeps kept_on_pod_of pod_keeps keeps_at_value)

lemma kept_remove_metrics_sidecars [builder_keeps]: "keeps_at (builder_kept ks) b (remove_metrics_sidecars replica b)"
  unfolding remove_metrics_sidecars_def by (intro bkeeps kept_on_pod_of pod_keeps)

lemma kept_extended_shm [builder_keeps]: "keeps_at (builder_kept ks) b (add_extended_shm container replica b)"
  unfolding add_extended_shm_def
  by (intro kept_on_pod_of keeps_at_value wfo.keeps_bind pod_keeps)

lemma kept_shared_memory [builder_keeps]: "keeps_at (builder_kept ks) b (add_shared_memory replica b)"
  unfolding add_shared_memory_def by (intro bkeeps builder_keeps)

lemma kept_env_vars [builder_keeps]: "keeps_at (builder_kept ks) b (add_env_vars replica b)"
  unfolding add_env_vars_def by (intro bkeeps kept_on_pod_of pod_keeps)

lemma kept_internal_env: "builder_kept ks b (b\<lparr>b_internal_env_vars := e\<rparr>)"
  by (simp add: builder_kept_def lko.refl)

lemma kept_scripts [builder_keeps]: "keeps_at (builder_kept ks) b (add_scripts ss replica b)"
proof (cases ss)
  case Nil
  then show ?thesis unfolding add_scripts_def by (simp, intro bkeeps kept_on_pod_of pod_keeps)
next
  case (Cons s ss')
  have inr: "keeps_at (builder_kept ks) b (Inr (b\<lparr>b_internal_env_vars := e b\<rparr>))" for b e
    by (simp add: keeps_at_def kept_internal_env)
  show ?thesis unfolding add_scripts_def Cons list.case
    by (intro bko.keeps_bind kept_on_pod_of pod_keeps inr)
qed

text \<open>The labels that the builders set on their own account.\<close>

definition metrics_keys :: "string set" where
  "metrics_keys = {''dashboard-name'', ''region'', ''parent-action-id''}"

lemma kept_dashboard_labels:
  "''dashboard-name'' \<in> ks \<Longrightarrow> ''region'' \<in> ks \<Longrightarrow> keeps_at (builder_kept ks) b (add_metrics_labels replica b)"
  unfolding add_metrics_labels_def
  by (intro keeps_at_value bkeeps kept_add_label builder_keeps) auto

lemma kept_metrics_labels: "metrics_keys \<subseteq> ks \<Longrightarrow> keeps_at (builder_kept ks) b (add_metrics_labels replica b)"
  by (rule kept_dashboard_labels) (auto simp: metrics_keys_def)

lemma kept_parent_label: "metrics_keys \<subseteq> ks \<Longrightarrow> keeps_at (builder_kept ks) b (add_parent_label replica b)"
  unfolding add_parent_label_def metrics_keys_def Let_def
  by (intro bkeeps kept_add_label builder_keeps) auto

lemma kept_drop_affinity [builder_keeps]: "keeps_at (builder_kept ks) b (drop_affinity replica b)"
  unfolding drop_affinity_def by (intro bkeeps kept_on_pod_of pod_keeps)

lemma kept_server_env_vars [builder_keeps]: "keeps_at (builder_kept ks) b (add_server_env_vars b)"
  unfolding add_server_env_vars_def by (intro keeps_at_value kept_on_pod_of pod_keeps)

lemmas update_keeps = bkeeps kept_on_pod_of kept_metrics_labels kept_parent_label builder_keeps pod_keeps

lemma kept_update_single_run: "metrics_keys \<subseteq> ks \<Longrightarrow> keeps_at (builder_kept ks) b (update_single_run T b)"
  unfolding update_single_run_def by (intro update_keeps) simp_all

lemma kept_update_horovod: "metrics_keys \<subseteq> ks \<Longrightarrow> keeps_at (builder_kept ks) b (update_horovod T b)"
proof -
  assume "metrics_keys \<subseteq> ks"
  then have "keeps_at (builder_kept ks) b (update_replica ty b)" for ty b
    unfolding update_replica_def by (intro update_keeps) simp_all
  then show ?thesis unfolding update_horovod_def by (intro bko.keeps_bind bko.keeps_fold builder_keeps)
qed

lemma kept_update_inference_server:
  assumes "metrics_keys \<subseteq> ks"
  shows "keeps_at (builder_kept ks) b (update_inference_server T b)"
proof -
  have probe: "keeps_at (builder_kept ks) b (case xs of [] \<Rightarrow> Inl IndexError
      | q # _ \<Rightarrow> on_pod_of None (add_readiness_probe INFERENCE_SERVER_CONTAINER p q) b)" for xs p b
    by (cases xs) (auto intro: keeps_at_raise kept_on_pod_of pod_keeps)
  have "''parent-action-id'' \<in> ks" using assms by (simp add: metrics_keys_def)
  with assms show ?thesis
    unfolding update_inference_server_def
    by (intro update_keeps probe kept_add_label kept_on_root labels_kept_ports) simp_all
qed

lemma kept_update_root: "metrics_keys \<subseteq> ks \<Longrightarrow> keeps_at (builder_kept ks) b (update_root_k8s_object T kind b)"
  unfolding update_root_k8s_object_def
  by (cases kind)
    (simp_all add: bko.keeps_return kept_update_single_run kept_update_horovod kept_update_inference_server)

lemma build_labels_kept:
  assumes "build T kind b = Inr b'" and "b_root b = None"
    and "feed_additional_template_values T kind b = Inr b1"
    and "build_template (te_load_all T) (b_template b1) = Inr h"
    and "info_labels (info (b_descriptor b1)) = Some ls"
    and "metrics_keys \<union> set (map fst ls) \<subseteq> ks"
  shows "\<exists>h'. b_root b' = Some h' \<and> labels_kept ks h h'"
proof -
  let ?b = "b1\<lparr>b_root := Some h\<rparr>"
  have *: "res_bind (res_fold (\<lambda>(l, v). on_root (add_label l (Some v))) ls ?b) (update_root_k8s_object T kind) = Inr b'"
    using assms(1-5) by (simp add: build_def need_labels_def Let_def)
  have "keeps_at (builder_kept ks) ?b
      (res_bind (res_fold (\<lambda>(l, v). on_root (add_label l (Some v))) ls ?b) (update_root_k8s_object T kind))"
  proof (intro bko.keeps_bind bko.keeps_fold kept_update_root)
    show "keeps_at (builder_kept ks) s ((case x of (l, v) \<Rightarrow> on_root (add_label l (Some v))) s)"
      if "x \<in> set ls" for x s
    proof -
      obtain l v where x: "x = (l, v)" by (cases x)
      with that assms(6) have "l \<in> ks" by force
      with x show ?thesis by (simp add: kept_add_label)
    qed
  qed (use assms(6) in auto)
  from keeps_atD [OF this *] show ?thesis by (simp add: builder_kept_def)
qed

text \<open>Each object of a benchmark that is built comes from a document of its template.\<close>

definition template_docs :: "transpiler_env \<Rightarrow> builder \<Rightarrow> pyval list res" where
  "template_docs T b =
     res_bind (str_format (variables (b_template b)) None (yaml_template_contents (b_template b))) (te_load_all T)"

lemma obj_kept_mono: "ks \<subseteq> ks' \<Longrightarrow> obj_kept ks x y \<Longrightarrow> obj_kept ks' x y"
  by (auto simp: obj_kept_def kept_paths_def)

lemma build_feeds: "build T kind b = Inr b' \<Longrightarrow> b_root b = None \<Longrightarrow> \<exists>b1. feed_additional_template_values T kind b = Inr b1"
  by (cases "feed_additional_template_values T kind b") (simp_all add: build_def)

lemma built_objects:
  assumes "build T kind b = Inr b'" and "b_root b = None"
    and "feed_additional_template_values T kind b = Inr b1" and "template_docs T b1 = Inr docs"
    and "info_labels (info (b_descriptor b1)) = Some ls" and "metrics_keys \<union> set (map fst ls) \<subseteq> ks"
  shows "\<exists>h'. b_root b' = Some h' \<and> (\<forall>obj \<in> set (objects h'). \<exists>d \<in> set docs.
    obj_kept ks d obj \<and> (\<exists>k \<in> set supported_kinds. sub_at d [''kind''] = Some (PStr k)))"
proof -
  have t: "build_template (te_load_all T) (b_template b1) = load_helper docs"
    using assms(4) by (cases "str_format (variables (b_template b1)) None (yaml_template_contents (b_template b1))")
      (simp_all add: build_template_def template_docs_def)
  obtain h where h: "load_helper docs = Inr h"
    using assms(1-3) t by (cases "load_helper docs") (simp_all add: build_def)
  from build_labels_kept [OF assms(1-3) t [unfolded h] assms(5,6)]
  obtain h' where h': "b_root b' = Some h'" "list_all2 (obj_kept ks) (objects h) (objects h')"
    by (auto simp: labels_kept_def)
  have "\<exists>d \<in> set docs. obj_kept ks d obj \<and> (\<exists>k \<in> set supported_kinds. sub_at d [''kind''] = Some (PStr k))"
    if obj: "obj \<in> set (objects h')" for obj
  proof -
    from list_all2_in2 [OF h'(2) obj] obtain x where x: "x \<in> set (objects h)" "obj_kept ks x obj" by blast
    from load_helper_objects [OF h x(1)] obtain d where d: "d \<in> set docs" "obj_kept {} d x"
      and k: "\<exists>k \<in> set supported_kinds. sub_at d [''kind''] = Some (PStr k)" unfolding from_docs_def by blast
    from obj_kept_trans [OF obj_kept_mono [OF _ d(2)] x(2)] d(1) k show ?thesis by blast
  qed
  with h'(1) show ?thesis by blast
qed

section \<open>A concrete environment\<close>

text \<open>
  A reader of templates for the concrete instances: the text of a template is the action, the
  client and the service, and the document is a job with the containers and volumes of the
  template \<open>job_single_node.yaml\<close>.
\<close>

definition demo_container :: "string \<Rightarrow> pyval" where
  "demo_container n = PDict [(''name'', PStr n), (''env'', PList [])]"

definition demo_pod :: pyval where
  "demo_pod = PDict
     [(''containers'', PList (map demo_container [''benchmark'', ''metrics-extractor'', ''metrics-pusher''])),
      (''initContainers'', PList (map demo_container [''data-puller'', ''script-puller'', ''inference-server-lock''])),
      (''volumes'', PList (map demo_container [''datasets-volume'', ''scripts-volume'']))]"

definition demo_labels :: "string list \<Rightarrow> pyval" where
  "demo_labels ps = PDict [(''labels'', PDict (map (apsnd PStr) (zip [''action-id'', ''client-id'', ''created-by''] ps)))]"

definition demo_yaml :: "string \<Rightarrow> pyval list res" where
  "demo_yaml s =
     Inr [PDict [(''kind'', PStr ''Job''), (''metadata'', demo_labels (split_on (CHR '','') s)),
       (''spec'', PDict [(''template'', PDict [(''metadata'', demo_labels (split_on (CHR '','') s)), (''spec'', demo_pod)])])]]"

definition demo_transpiler :: transpiler_env where
  "demo_transpiler = \<lparr>te_load_all = demo_yaml, te_dump_all = json_dumps \<circ> PList,
     te_read_template = (\<lambda>_. Inr ''{event.action_id},{event.client_id},{service_name}''), te_choice = hd,
     te_event_json = action_id, te_content_str = src, te_script_str = fso_dst, te_descriptor = demo_env\<rparr>"

definition demo_config :: bai_config where
  "demo_config = \<lparr>puller_mount_chmod = ''777'', puller_docker_image = ''puller'', cron_job_docker_image = ''cron'',
     metrics_pusher_docker_image = ''pusher'', metrics_extractor_docker_image = ''extractor'',
     job_status_trigger_docker_image = ''trigger'', suppress_job_affinity = False\<rparr>"

definition demo_source :: "string \<Rightarrow> string \<Rightarrow> downloadable_content" where
  "demo_source u p = \<lparr>src = u, path = p, dc_id = None, md5 = None, dst = Some u, dc_type = None, dc_status = None,
     dc_message = None, size_info = None\<rparr>"

end
