(* ===== verification/Puller.thy ===== *)
theory Puller
  imports Transpiler
begin

text \<open>
  \<open>puller/download-s3-files\<close>: the init container that downloads the data of a benchmark.  Its two
  arguments are those that the transpiler writes, so the theory also holds the property of both
  together: what is downloaded for a data source is what the benchmark sees at its path.

  The script is modelled by the commands that it runs, as long as none of them fails.  Parameters:
  \<open>glob\<close>, the pathname expansion of a word by the shell, \<open>is_prefix\<close>, which asks S3, and \<open>tmp\<close>, the
  directories made by \<open>mktemp\<close>.
\<close>

section \<open>The script\<close>

datatype pull_command =
    AwsCp string string
  | AwsSync string string
  | Chmod string string
  | ChmodTree string string
  | Tar string string
  | Rm string
  | Mv string string
  | MvContents string string

text \<open>An unquoted expansion \<open>${s//sep/ }\<close>: words between blanks, each one expanded.\<close>

definition is_blank :: "char \<Rightarrow> bool" where
  "is_blank c \<longleftrightarrow> c = CHR '' '' \<or> c = CHR 0x09 \<or> c = CHR 0x0A"

definition bash_words :: "(string \<Rightarrow> string list) \<Rightarrow> char \<Rightarrow> string \<Rightarrow> string list" where
  "bash_words glob sep s =
     concat (map glob (filter (\<lambda>w. w \<noteq> [])
       (split_on (CHR '' '') (map (\<lambda>c. if c = sep \<or> is_blank c then CHR '' '' else c) s))))"

definition array_get :: "string list \<Rightarrow> nat \<Rightarrow> string" where
  "array_get xs i = (if i < length xs then xs ! i else [])"

definition dirname :: "string \<Rightarrow> string" where
  "dirname p =
     (let ps = split_on (CHR ''/'') p in
      if length ps = 1 then ''.'' else if length ps = 2 \<and> hd ps = [] then ''/'' else str_join ''/'' (butlast ps))"

definition aws_command :: "(string \<Rightarrow> bool) \<Rightarrow> string \<Rightarrow> string \<Rightarrow> string \<Rightarrow> pull_command" where
  "aws_command is_prefix bucket s3file target =
     (let url = ''s3://'' @ bucket @ ''/'' @ s3file in
      if is_prefix s3file then AwsSync url target else AwsCp url target)"

definition pull_file ::
  "(string \<Rightarrow> string list) \<Rightarrow> (string \<Rightarrow> bool) \<Rightarrow> (string \<Rightarrow> string) \<Rightarrow> string \<Rightarrow> string \<Rightarrow> pull_command list" where
  "pull_file glob is_prefix tmp bucket file =
     (let pieces = bash_words glob (CHR '','') file; s3file = array_get pieces 0; perms = array_get pieces 1;
          target = array_get pieces 2; unpack = array_get pieces 3 in
      if s3file = [] then []
      else
        (let target = (if target = [] then ''/data/'' @ s3file else target) in
         [aws_command is_prefix bucket s3file target] @
         (if perms \<noteq> [] then [Chmod perms target] else []) @
         (if unpack \<noteq> [] then
            [Tar target (tmp file)] @
            (if perms \<noteq> [] then [Chmod perms (tmp file), ChmodTree perms (tmp file)] else []) @
            [Rm target] @
            (if unpack = ''unpack'' then [Mv (tmp file) target]
             else if unpack = ''unpack_in_place'' then [MvContents (tmp file) (dirname target)]
             else [])
          else [])))"

definition download_s3_files ::
  "(string \<Rightarrow> string list) \<Rightarrow> (string \<Rightarrow> bool) \<Rightarrow> (string \<Rightarrow> string) \<Rightarrow> string \<Rightarrow> string \<Rightarrow> pull_command list" where
  "download_s3_files glob is_prefix tmp bucket files =
     (if str_contains '' --help -h help '' ('' '' @ bucket @ '' '') then []
      else concat (map (pull_file glob is_prefix tmp bucket) (bash_words glob (CHR '':'') files)))"

text \<open>The working directory of the image is \<open>/data\<close>, where the volume of the data is mounted.\<close>

definition in_data :: "string \<Rightarrow> string" where
  "in_data target = (if target \<noteq> [] \<and> hd target = CHR ''/'' then target else ''/data/'' @ target)"

section \<open>Words\<close>

text \<open>A word without these characters is no pattern, so the shell leaves it alone.\<close>

definition glob_char :: "char \<Rightarrow> bool" where
  "glob_char c \<longleftrightarrow> c = CHR ''*'' \<or> c = CHR ''?'' \<or> c = CHR ''['' \<or> c = CHR 0x5C"

definition glob_plain :: "(string \<Rightarrow> string list) \<Rightarrow> bool" where
  "glob_plain glob \<longleftrightarrow> (\<forall>w. (\<forall>c \<in> set w. \<not> glob_char c) \<longrightarrow> glob w = [w])"

definition plain_piece :: "string \<Rightarrow> bool" where
  "plain_piece w \<longleftrightarrow> w \<noteq> [] \<and> list_all (\<lambda>c. c \<noteq> CHR '','' \<and> c \<noteq> CHR '':'' \<and> \<not> is_blank c \<and> \<not> glob_char c) w"

lemma plain_pieceD:
  assumes "plain_piece w"
  shows "w \<noteq> []" "c \<in> set w \<Longrightarrow> c \<noteq> CHR '','' \<and> c \<noteq> CHR '':'' \<and> \<not> is_blank c \<and> \<not> glob_char c"
  using assms by (auto simp: plain_piece_def list_all_iff)

lemma words_join:
  assumes "\<forall>p \<in> set ps. p \<noteq> [] \<and> (\<forall>c \<in> set p. c \<noteq> sep \<and> \<not> is_blank c)" and "ps \<noteq> []"
  shows "filter (\<lambda>w. w \<noteq> []) (split_on (CHR '' '')
    (map (\<lambda>c. if c = sep \<or> is_blank c then CHR '' '' else c) (str_join [sep] ps))) = ps"
proof -
  let ?f = "\<lambda>c. if c = sep \<or> is_blank c then CHR '' '' else c"
  have "map ?f (str_join [sep] ps) = str_join [CHR '' ''] ps" using assms(1)
  proof (induction "[sep]" ps rule: str_join.induct)
    case (3 p q ps)
    then show ?case by (simp add: map_idI)
  qed (simp_all add: map_idI)
  moreover have "split_on (CHR '' '') (str_join [CHR '' ''] ps) = ps"
    using assms by (intro split_join) (auto simp: is_blank_def)
  ultimately show ?thesis using assms(1) by (simp add: filter_id_conv)
qed

lemma bash_words_join:
  assumes "\<forall>p \<in> set ps. p \<noteq> [] \<and> (\<forall>c \<in> set p. c \<noteq> sep \<and> \<not> is_blank c) \<and> glob p = [p]" and "ps \<noteq> []"
  shows "bash_words glob sep (str_join [sep] ps) = ps"
proof -
  have "concat (map glob qs) = qs" if "\<forall>p \<in> set qs. glob p = [p]" for qs
    using that by (induction qs) simp_all
  moreover have "filter (\<lambda>w. w \<noteq> []) (split_on (CHR '' '')
    (map (\<lambda>c. if c = sep \<or> is_blank c then CHR '' '' else c) (str_join [sep] ps))) = ps"
    using assms by (intro words_join) auto
  ultimately show ?thesis using assms(1) unfolding bash_words_def by simp
qed

lemma glob_plainD: "glob_plain glob \<Longrightarrow> (\<And>c. c \<in> set w \<Longrightarrow> \<not> glob_char c) \<Longrightarrow> glob w = [w]"
  by (simp add: glob_plain_def)

text \<open>An entry of the argument, as the transpiler writes it, and what the script makes of it.\<close>

definition entry :: "string list \<Rightarrow> string" where
  "entry ps = str_join '','' ps"

lemma entry_pieces:
  assumes "glob_plain glob" and "\<forall>p \<in> set ps. plain_piece p" and "ps \<noteq> []"
  shows "bash_words glob (CHR '','') (entry ps) = ps"
  unfolding entry_def
proof (rule bash_words_join)
  show "\<forall>p \<in> set ps. p \<noteq> [] \<and> (\<forall>c \<in> set p. c \<noteq> CHR '','' \<and> \<not> is_blank c) \<and> glob p = [p]"
  proof
    fix p
    assume "p \<in> set ps"
    with assms(2) have "plain_piece p" by simp
    note plain_pieceD [OF this]
    then show "p \<noteq> [] \<and> (\<forall>c \<in> set p. c \<noteq> CHR '','' \<and> \<not> is_blank c) \<and> glob p = [p]"
      using glob_plainD [OF assms(1)] by simp
  qed
qed (fact assms(3))

lemma entry_not_Nil: "\<forall>p \<in> set ps. plain_piece p \<Longrightarrow> ps \<noteq> [] \<Longrightarrow> entry ps \<noteq> []"
  by (cases ps; cases "tl ps") (auto simp: entry_def plain_piece_def)

lemma entry_word:
  assumes "glob_plain glob" and "\<forall>p \<in> set ps. plain_piece p" and "ps \<noteq> []"
  shows "entry ps \<noteq> [] \<and> (\<forall>c \<in> set (entry ps). c \<noteq> CHR '':'' \<and> \<not> is_blank c) \<and> glob (entry ps) = [entry ps]"
proof -
  have chars: "c \<noteq> CHR '':'' \<and> \<not> is_blank c \<and> \<not> glob_char c" if "c \<in> set (entry ps)" for c
  proof -
    consider "c = CHR '',''" | p where "p \<in> set ps" "c \<in> set p"
      using set_str_join [of c "'',''" ps] \<open>c \<in> set (entry ps)\<close> by (auto simp: entry_def)
    then show ?thesis
    proof cases
      case 2
      with assms(2) show ?thesis using plain_pieceD(2) [of p c] by simp
    qed (simp add: is_blank_def glob_char_def)
  qed
  then show ?thesis using entry_not_Nil [OF assms(2,3)] glob_plainD [OF assms(1)] by simp
qed

lemma files_words:
  assumes "glob_plain glob" and "\<forall>ps \<in> set es. ps \<noteq> [] \<and> (\<forall>p \<in> set ps. plain_piece p)" and "es \<noteq> []"
  shows "bash_words glob (CHR '':'') (str_join '':'' (map entry es)) = map entry es"
proof (rule bash_words_join)
  show "\<forall>p \<in> set (map entry es). p \<noteq> [] \<and> (\<forall>c \<in> set p. c \<noteq> CHR '':'' \<and> \<not> is_blank c) \<and> glob p = [p]"
  proof
    fix p
    assume "p \<in> set (map entry es)"
    then obtain ps where "p = entry ps" "ps \<in> set es" by auto
    with assms(2) show "p \<noteq> [] \<and> (\<forall>c \<in> set p. c \<noteq> CHR '':'' \<and> \<not> is_blank c) \<and> glob p = [p]"
      using entry_word [OF assms(1), of ps] by simp
  qed
qed (use assms(3) in simp)

lemma pull_entry:
  assumes "glob_plain glob" and "plain_piece obj" "plain_piece perms" "plain_piece target"
  shows "pull_file glob is_prefix tmp bucket (entry [obj, perms, target]) =
    [aws_command is_prefix bucket obj target, Chmod perms target]"
  using entry_pieces [of glob "[obj, perms, target]"] assms plain_pieceD(1)
  by (simp add: pull_file_def array_get_def Let_def)

section \<open>Directories of the data\<close>

definition mounts_ok :: "nat \<Rightarrow> puller_data_source dict \<Rightarrow> bool" where
  "mounts_ok i vols \<longleftrightarrow> dict_wf vols \<and> distinct (map (pds_name \<circ> snd) vols) \<and>
     (\<forall>(p, v) \<in> set vols. \<exists>j < i. pds_name v = ''p'' @ show_nat j \<and> pds_puller_path v = ''/data/'' @ pds_name v)"

lemma dict_set_append: "\<not> dict_has d k \<Longrightarrow> dict_set d k v = d @ [(k, v)]"
  by (induction d) (auto simp: dict_has_def)

lemma mounts_ok_add:
  assumes "mounts_ok i vols" "\<not> dict_has vols p"
  shows "mounts_ok (Suc i) (dict_set vols p \<lparr>pds_name = ''p'' @ show_nat i, pds_puller_path = ''/data/'' @ ''p'' @ show_nat i\<rparr>)"
proof -
  have "dict_wf (dict_set vols p v)" for v using assms by (simp add: mounts_ok_def)
  moreover have "pds_name (snd x) \<noteq> ''p'' @ show_nat i" if "x \<in> set vols" for x
    using assms(1) that by (fastforce simp: mounts_ok_def)
  ultimately show ?thesis
    using assms unfolding mounts_ok_def by (auto simp: dict_set_append less_Suc_eq)
qed

lemma mounts_from:
  assumes "mounts_ok i vols"
  shows "mounts_ok (i + length ss) (get_data_mounts_from i ss vols) \<and>
    set (map fst (get_data_mounts_from i ss vols)) = set (map fst vols) \<union> path ` set ss"
  using assms
proof (induction ss arbitrary: i vols)
  case Nil
  then show ?case by simp
next
  case (Cons s ss)
  let ?vols = "if dict_has vols (path s) then vols else dict_set vols (path s)
      \<lparr>pds_name = ''p'' @ show_nat i, pds_puller_path = ''/data/'' @ ''p'' @ show_nat i\<rparr>"
  have ok: "mounts_ok (Suc i) ?vols"
  proof (cases "dict_has vols (path s)")
    case True
    with Cons.prems show ?thesis by (fastforce simp: mounts_ok_def less_Suc_eq)
  next
    case False
    with mounts_ok_add [OF Cons.prems False] show ?thesis by (simp only: if_False)
  qed
  have keys: "set (map fst ?vols) = insert (path s) (set (map fst vols))"
    by (auto simp: dict_set_append dict_has_def)
  have "get_data_mounts_from i (s # ss) vols = get_data_mounts_from (Suc i) ss ?vols"
    by (simp only: get_data_mounts_from.simps Let_def)
  moreover note Cons.IH [OF ok, unfolded keys]
  ultimately show ?case by (simp only: list.size list.set image_insert) auto
qed

lemma data_mounts:
  "mounts_ok (length ss) (get_data_mounts ss)" "set (map fst (get_data_mounts ss)) = path ` set ss"
  using mounts_from [of 0 "[]" ss] by (simp_all add: get_data_mounts_def mounts_ok_def)

lemma plain_digits: "plain_piece (''p'' @ show_nat i)"
  using show_nat_digits [of _ i]
  by (force simp: plain_piece_def list_all_iff is_digit_def is_blank_def glob_char_def)

lemma mount_of_source:
  assumes "s \<in> set ss"
  shows "\<exists>v i. dict_get (get_data_mounts ss) (path s) = Some v \<and> (path s, v) \<in> set (get_data_mounts ss) \<and>
    pds_name v = ''p'' @ show_nat i \<and> pds_puller_path v = ''/data/'' @ pds_name v"
proof -
  have "path s \<in> set (map fst (get_data_mounts ss))" using assms data_mounts(2) by simp
  then obtain v where v: "dict_get (get_data_mounts ss) (path s) = Some v"
    using dict_get_None_iff by fastforce
  then have "(path s, v) \<in> set (get_data_mounts ss)" by (rule dict_get_SomeD)
  with v data_mounts(1) [of ss] show ?thesis unfolding mounts_ok_def by fastforce
qed

lemma mounts_differ:
  assumes "dict_get (get_data_mounts ss) p = Some v" "dict_get (get_data_mounts ss) q = Some w" "pds_name v = pds_name w"
  shows "p = q"
proof -
  have "inj_on (pds_name \<circ> snd) (set (get_data_mounts ss))"
    using data_mounts(1) [of ss] by (simp add: mounts_ok_def distinct_map)
  from inj_onD [OF this, of "(p, v)" "(q, w)"] assms show ?thesis by (auto dest: dict_get_SomeD)
qed

section \<open>The data of a benchmark\<close>

lemma puller_objects:
  assumes "list_all2 (\<lambda>s y. puller_object T c vols s = Inr y) ss objs"
  shows "\<exists>es. objs = map entry es \<and> list_all2 (\<lambda>s e. \<exists>b obj v. get_s3_bucket_and_object_from_uri T s = Inr (b, obj) \<and>
    dict_get vols (path s) = Some v \<and> e = [obj, puller_mount_chmod c, pds_name v]) ss es"
  using assms
proof (induction rule: list_all2_induct)
  case Nil
  then show ?case by simp
next
  case (Cons s ss y ys)
  then obtain b obj v where s: "get_s3_bucket_and_object_from_uri T s = Inr (b, obj)" "dict_get vols (path s) = Some v"
      "y = entry [obj, puller_mount_chmod c, pds_name v]"
    by (auto simp: puller_object_def entry_def res_bind_def split: sum.splits option.splits)
  from Cons.IH obtain es where es: "ys = map entry es" "list_all2 (\<lambda>s e. \<exists>b obj v.
      get_s3_bucket_and_object_from_uri T s = Inr (b, obj) \<and>
      dict_get vols (path s) = Some v \<and> e = [obj, puller_mount_chmod c, pds_name v]) ss es" by blast
  from s es show ?case by (intro exI [of _ "[obj, puller_mount_chmod c, pds_name v] # es"]) simp
qed

lemma puller_args_entries:
  assumes "puller_args T c vols ss = Inr [bucket, files]"
  shows "\<exists>es. files = str_join '':'' (map entry es) \<and>
    list_all2 (\<lambda>s e. \<exists>b obj v. get_s3_bucket_and_object_from_uri T s = Inr (b, obj) \<and>
      dict_get vols (path s) = Some v \<and> e = [obj, puller_mount_chmod c, pds_name v]) ss es"
proof -
  obtain objs where "files = str_join '':'' objs" and "res_map (puller_object T c vols) ss = Inr objs"
    using assms by (auto simp: puller_args_def res_bind_def split: sum.splits)
  then show ?thesis using puller_objects [of T c vols ss objs] unfolding res_map_Inr_iff by blast
qed

text \<open>
  (C11) The data that a benchmark asked for at a path is downloaded into the directory that is mounted
  at this path, and directories of different paths are different.  This holds if the shell splits
  the argument where the transpiler joined it, so for object names without separators, blanks and
  wildcards.
\<close>

theorem data_pulled_where_mounted:
  assumes args: "puller_args T c (get_data_mounts ss) ss = Inr [bucket, files]"
    and "ss \<noteq> []" and "glob_plain glob" and "plain_piece (puller_mount_chmod c)"
    and "\<forall>s \<in> set ss. \<forall>b obj. get_s3_bucket_and_object_from_uri T s = Inr (b, obj) \<longrightarrow> plain_piece obj"
    and "\<not> str_contains '' --help -h help '' ('' '' @ bucket @ '' '')"
  shows "(\<forall>s \<in> set ss. \<exists>b obj v.
      get_s3_bucket_and_object_from_uri T s = Inr (b, obj) \<and> dict_get (get_data_mounts ss) (path s) = Some v \<and>
      aws_command is_prefix bucket obj (pds_name v) \<in> set (download_s3_files glob is_prefix tmp bucket files) \<and>
      in_data (pds_name v) = pds_puller_path v \<and>
      PDict [(''name'', PStr DATASETS_VOLUME_NAME), (''mountPath'', PStr (path s)), (''subPath'', PStr (pds_name v))]
        \<in> set (get_container_volume_mounts (get_data_mounts ss))) \<and>
    (\<forall>s \<in> set ss. \<forall>s' \<in> set ss. map_option pds_name (dict_get (get_data_mounts ss) (path s)) =
      map_option pds_name (dict_get (get_data_mounts ss) (path s')) \<longrightarrow> path s = path s')"
proof (intro conjI ballI impI)
  let ?vols = "get_data_mounts ss"
  obtain es where files: "files = str_join '':'' (map entry es)"
    and es: "list_all2 (\<lambda>s e. \<exists>b obj v. get_s3_bucket_and_object_from_uri T s = Inr (b, obj) \<and>
      dict_get ?vols (path s) = Some v \<and> e = [obj, puller_mount_chmod c, pds_name v]) ss es"
    using puller_args_entries [OF args] by blast
  have plain: "e \<noteq> [] \<and> (\<forall>p \<in> set e. plain_piece p)" if e: "e \<in> set es" for e
  proof -
    obtain s b obj v where "s \<in> set ss" "get_s3_bucket_and_object_from_uri T s = Inr (b, obj)"
        "dict_get ?vols (path s) = Some v" "e = [obj, puller_mount_chmod c, pds_name v]"
      using list_all2_in2 [OF es e] by blast
    moreover have "plain_piece (pds_name v)"
      using mount_of_source [OF \<open>s \<in> set ss\<close>] \<open>dict_get ?vols (path s) = Some v\<close> plain_digits by auto
    ultimately show ?thesis using assms(4,5) by simp
  qed
  then have words: "bash_words glob (CHR '':'') files = map entry es"
    unfolding files using assms(2,3) es by (intro files_words) auto
  show "\<exists>b obj v. get_s3_bucket_and_object_from_uri T s = Inr (b, obj) \<and> dict_get ?vols (path s) = Some v \<and>
      aws_command is_prefix bucket obj (pds_name v) \<in> set (download_s3_files glob is_prefix tmp bucket files) \<and>
      in_data (pds_name v) = pds_puller_path v \<and>
      PDict [(''name'', PStr DATASETS_VOLUME_NAME), (''mountPath'', PStr (path s)), (''subPath'', PStr (pds_name v))]
        \<in> set (get_container_volume_mounts ?vols)" if s: "s \<in> set ss" for s
  proof -
    obtain b obj v e where v: "get_s3_bucket_and_object_from_uri T s = Inr (b, obj)" "dict_get ?vols (path s) = Some v"
        and e: "e \<in> set es" "e = [obj, puller_mount_chmod c, pds_name v]"
      using list_all2_in1 [OF es s] by blast
    have "aws_command is_prefix bucket obj (pds_name v) \<in> set (pull_file glob is_prefix tmp bucket (entry e))"
      using plain [OF e(1)] e(2) assms(3) by (simp add: pull_entry)
    then have "aws_command is_prefix bucket obj (pds_name v) \<in> set (download_s3_files glob is_prefix tmp bucket files)"
      using e(1) assms(6) words by (auto simp: download_s3_files_def)
    moreover have "(path s, v) \<in> set ?vols" "in_data (pds_name v) = pds_puller_path v"
      using mount_of_source [OF s] v(2) by (auto simp: in_data_def)
    ultimately show ?thesis using v by (force simp: get_container_volume_mounts_def)
  qed
  show "path s = path s'" if "s \<in> set ss" "s' \<in> set ss" "map_option pds_name (dict_get ?vols (path s)) =
      map_option pds_name (dict_get ?vols (path s'))" for s s'
    using mount_of_source [OF that(1)] mount_of_source [OF that(2)] that(3) mounts_differ by fastforce
qed

theorem data_pulled_where_mounted_witness:
  "AwsCp ''s3://bucket/b.tgz'' ''p1'' \<in> set (download_s3_files (\<lambda>w. [w]) (\<lambda>_. False) (\<lambda>_. ''/tmp/x'') ''bucket''
     ''a.tgz,777,p0:b.tgz,777,p1'')"
proof -
  let ?ss = "[demo_source ''s3://bucket/a.tgz'' ''/a'', demo_source ''s3://bucket/b.tgz'' ''/b'']"
  have 1: "puller_args demo_transpiler demo_config (get_data_mounts ?ss) ?ss = Inr [''bucket'', ''a.tgz,777,p0:b.tgz,777,p1'']"
    by code_simp
  have 2: "glob_plain (\<lambda>w. [w])" by (simp add: glob_plain_def)
  have 3: "plain_piece (puller_mount_chmod demo_config)" by code_simp
  have a: "get_s3_bucket_and_object_from_uri demo_transpiler (demo_source ''s3://bucket/a.tgz'' ''/a'') = Inr (''bucket'', ''a.tgz'')"
    by code_simp
  have b: "get_s3_bucket_and_object_from_uri demo_transpiler (demo_source ''s3://bucket/b.tgz'' ''/b'') = Inr (''bucket'', ''b.tgz'')"
    by code_simp
  have v: "map_option pds_name (dict_get (get_data_mounts ?ss) ''/b'') = Some ''p1''" by code_simp
  have p: "plain_piece ''a.tgz'' \<and> plain_piece ''b.tgz''" by code_simp
  have h: "\<not> str_contains '' --help -h help '' ('' '' @ ''bucket'' @ '' '')" by code_simp
  have 4: "\<forall>s \<in> set ?ss. \<forall>b obj. get_s3_bucket_and_object_from_uri demo_transpiler s = Inr (b, obj) \<longrightarrow> plain_piece obj"
    using a b p by simp
  let ?b = "demo_source ''s3://bucket/b.tgz'' ''/b''"
  have "?ss \<noteq> []" by simp
  note pulled = data_pulled_where_mounted [OF 1 this 2 3 4 h, where is_prefix = "\<lambda>_. False" and tmp = "\<lambda>_. ''/tmp/x''",
      THEN conjunct1]
  have "?b \<in> set ?ss" by simp
  from bspec [OF pulled this] obtain bucket obj v' where "get_s3_bucket_and_object_from_uri demo_transpiler ?b = Inr (bucket, obj)"
      and "dict_get (get_data_mounts ?ss) (path ?b) = Some v'"
      and cmd: "aws_command (\<lambda>_. False) ''bucket'' obj (pds_name v') \<in> set (download_s3_files (\<lambda>w. [w]) (\<lambda>_. False) (\<lambda>_. ''/tmp/x'') ''bucket''
        ''a.tgz,777,p0:b.tgz,777,p1'')"
    by blast
  moreover have "path ?b = ''/b''" by (simp add: demo_source_def)
  ultimately have "obj = ''b.tgz''" "pds_name v' = ''p1''" using b v by simp_all
  moreover have "aws_command (\<lambda>_. False) ''bucket'' ''b.tgz'' ''p1'' = AwsCp ''s3://bucket/b.tgz'' ''p1''" by (simp add: aws_command_def)
  ultimately show ?thesis using cmd by simp
qed

end
