(* ===== verification/Execution.thy ===== *)
theory Execution
  imports Transpiler Labels Cmd_Callback
begin

text \<open>
  The executors: \<open>execution_callback.py\<close> and \<open>execution_cmd_object.py\<close> of \<open>bai_kafka_utils.executors\<close>
  are the event handler and the cancel command of every executor service, \<open>k8s_execution_engine.py\<close>
  is the engine that runs benchmarks in Kubernetes and \<open>executor.py\<close> adds the handler of scheduled
  benchmarks.

  An engine acts on its own part of the world, \<open>resources\<close>.  For Kubernetes this is the cluster, and
  it is reached by running \<open>kubectl\<close>: \<open>check_output\<close> is a parameter that takes the command, its input
  and the cluster.  Text stands for its UTF-8 encoding.
\<close>

section \<open>Engines\<close>

record 'c exec_world = kworld +
  resources :: 'c

type_synonym 'w run_method = "benchmark_event \<Rightarrow> fetcher_payload \<Rightarrow> ('w, benchmark_job) py"

type_synonym 'w cancel_method = "string \<Rightarrow> string \<Rightarrow> bool \<Rightarrow> ('w, pyval) py"

text \<open>\<open>NoResourcesFoundException\<close> is a subclass of \<open>ExecutionEngineException\<close>.\<close>

fun is_engine_exception :: "pyexc \<Rightarrow> bool" where
  "is_engine_exception (ExecutionEngineException _) = True"
| "is_engine_exception (NoResourcesFoundException _) = True"
| "is_engine_exception _ = False"

fun is_no_resources :: "pyexc \<Rightarrow> bool" where
  "is_no_resources (NoResourcesFoundException _) = True"
| "is_no_resources _ = False"

section \<open>ExecutorEventHandler\<close>

definition DEFAULT_ENGINE :: string where "DEFAULT_ENGINE = ''default''"

text \<open>\<open>event.payload.toml.contents.get("info", {}).get(k, default)\<close>\<close>

definition info_get :: "pyval dict \<Rightarrow> string \<Rightarrow> string \<Rightarrow> pyval res" where
  "info_get c k dflt =
     (case dict_get c ''info'' of
        None \<Rightarrow> Inr (PStr dflt)
      | Some (PDict d) \<Rightarrow> Inr (case dict_get d k of Some v \<Rightarrow> v | None \<Rightarrow> PStr dflt)
      | Some _ \<Rightarrow> Inl (AttributeError ''get''))"

definition is_single_run :: "fetcher_payload \<Rightarrow> bool res" where
  "is_single_run p =
     res_bind (info_get (contents (toml p)) ''scheduling'' SINGLE_RUN_SCHEDULING) (\<lambda>s.
       Inr (s = PStr SINGLE_RUN_SCHEDULING))"

definition get_engine_id :: "fetcher_payload \<Rightarrow> pyval res" where
  "get_engine_id p = info_get (contents (toml p)) ''execution_engine'' DEFAULT_ENGINE"

record 'w exec_handler =
  eh_producer_topic :: string
  eh_engines :: "'w run_method dict"
  eh_emitter :: emitter
  eh_exc_str :: "pyexc \<Rightarrow> string"

definition find_engine :: "'w run_method dict \<Rightarrow> pyval \<Rightarrow> 'w run_method option res" where
  "find_engine engines engine_id =
     (case engine_id of
        PStr s \<Rightarrow> Inr (dict_get engines s)
      | PList _ \<Rightarrow> Inl (TypeError ''unhashable type'')
      | PDict _ \<Rightarrow> Inl (TypeError ''unhashable type'')
      | _ \<Rightarrow> Inr None)"

definition report_engine_error ::
  "'a kworld_scheme exec_handler \<Rightarrow> benchmark_event \<Rightarrow> pyexc \<Rightarrow> ('a kworld_scheme, 'b) py" where
  "report_engine_error H e x =
     (if is_engine_exception x then
        py_then (send_status_message_event (eh_emitter H) e ST_ERROR (eh_exc_str H x) None)
          (py_raise KafkaServiceCallbackException)
      else py_raise x)"

definition submit_benchmark ::
  "'a kworld_scheme exec_handler \<Rightarrow> 'a kworld_scheme run_method \<Rightarrow> benchmark_event \<Rightarrow> fetcher_payload \<Rightarrow>
   ('a kworld_scheme, unit) py" where
  "submit_benchmark H run e p =
     py_bind
       (py_catch
         (py_then
           (send_status_message_event (eh_emitter H) e ST_PENDING ''Processing benchmark submission request...'' None)
           (run e p))
         (report_engine_error H e))
       (\<lambda>job.
         let response_event = executor_event e (create_from_fetcher_payload p job) in
         py_then (send_status_message_event (eh_emitter H) response_event ST_SUCCEEDED ''Benchmark successfully created...'' None)
           (send_event (eh_emitter H) response_event (eh_producer_topic H)))"

definition exec_handle_event ::
  "'a kworld_scheme exec_handler \<Rightarrow> benchmark_event \<Rightarrow> fetcher_payload \<Rightarrow> ('a kworld_scheme, unit) py" where
  "exec_handle_event H e p =
     py_bind (py_lift (is_single_run p)) (\<lambda>single.
       if \<not> single then py_return ()
       else
         py_bind (py_lift (get_engine_id p)) (\<lambda>engine_id.
         py_bind (py_lift (find_engine (eh_engines H) engine_id)) (\<lambda>engine.
           case engine of
             None \<Rightarrow> py_return ()
           | Some run \<Rightarrow> submit_benchmark H run e p)))"

section \<open>ExecutorCommandObject\<close>

definition cancel_failed_message :: "string \<Rightarrow> benchmark_event \<Rightarrow> string" where
  "cancel_failed_message target ev =
     ''An error occurred when attempting to delete resources related to '' @ target @ ''. '' @
     ''Please check the status of the deletion command ('' @ action_id ev @ '' '' @ ''for additional information.''"

text \<open>
  The loop runs over the set of the engines, whose order Python does not fix: \<open>engines\<close> are their
  \<open>cancel\<close> methods in this order.  It returns from its first iteration.
\<close>

fun exec_cancel ::
  "emitter \<Rightarrow> 'a kworld_scheme cancel_method list \<Rightarrow> benchmark_event \<Rightarrow> string \<Rightarrow> string \<Rightarrow> bool \<Rightarrow>
   ('a kworld_scheme, pyval) py" where
  "exec_cancel em [] ev client target cascade = py_return PNone"
| "exec_cancel em (cancel # engines) ev client target cascade =
     py_bind
       (py_catch (cancel client target cascade) (\<lambda>err.
          if is_engine_exception err then
            py_then
              (if is_no_resources err then py_return ()
               else send_status_message_event em ev ST_FAILED (cancel_failed_message target ev) (Some target))
              (py_raise err)
          else py_raise err))
       (\<lambda>result.
         py_then (send_status_message_event em ev ST_SUCCEEDED ''Execution successfully cancelled...'' (Some target))
           (py_return result))"

section \<open>K8SExecutionEngine\<close>

record 'c k8s_engine =
  ke_config :: executor_config
  ke_check_output :: "string list \<Rightarrow> string \<Rightarrow> 'c \<Rightarrow> string res \<times> 'c"
  ke_exc_str :: "pyexc \<Rightarrow> string"
  ke_transpiler :: transpiler_env

definition EXTRA_K8S_YAML :: string where "EXTRA_K8S_YAML = ''k8s_yaml''"

definition K8S_ENGINE_ID :: string where "K8S_ENGINE_ID = ''kubernetes''"

definition JOB_ID_PREFIX :: string where "JOB_ID_PREFIX = ''b-''"

definition ALL_K8S_RESOURCE_TYPES :: "string list" where
  "ALL_K8S_RESOURCE_TYPES = [''jobs'', ''cronjobs'', ''mpijobs'', ''configmaps'', ''rolebindings'', ''services'']"

definition run_command :: "'c k8s_engine \<Rightarrow> string list \<Rightarrow> string \<Rightarrow> ('c exec_world, string) py" where
  "run_command K cmd inp = (\<lambda>w.
     case ke_check_output K cmd inp (resources w) of (r, c) \<Rightarrow> (r, w\<lparr>resources := c\<rparr>))"

definition kubernetes_apply :: "'c k8s_engine \<Rightarrow> string \<Rightarrow> ('c exec_world, unit) py" where
  "kubernetes_apply K yaml =
     py_bind (run_command K [kubectl (ke_config K), ''apply'', ''-f'', ''-''] yaml) (\<lambda>_. py_return ())"

definition engine_error :: "'c k8s_engine \<Rightarrow> pyexc \<Rightarrow> pyexc" where
  "engine_error K x =
     (case x of
        DescriptorError _ \<Rightarrow> ExecutionEngineException (''Error parsing descriptor file: '' @ ke_exc_str K x)
      | CalledProcessError _ \<Rightarrow> ExecutionEngineException (''Error executing benchmark: '' @ ke_exc_str K x)
      | _ \<Rightarrow> x)"

definition apply_spec :: "'c k8s_engine \<Rightarrow> string \<Rightarrow> string res \<Rightarrow> ('c exec_world, benchmark_job) py" where
  "apply_spec K jid spec =
     py_bind
       (py_catch (py_bind (py_lift spec) (\<lambda>yaml. py_then (kubernetes_apply K yaml) (py_return yaml)))
         (\<lambda>x. py_raise (engine_error K x)))
       (\<lambda>yaml. py_return \<lparr>job_id = jid, job_output = None, job_extras = [(EXTRA_K8S_YAML, PStr yaml)]\<rparr>)"

definition k8s_run :: "'c k8s_engine \<Rightarrow> 'c exec_world run_method" where
  "k8s_run K e p =
     (let jid = JOB_ID_PREFIX @ action_id e
      in apply_spec K jid (create_job_yaml_spec (ke_transpiler K) (contents (toml p)) (ke_config K)
           (datasets p) (models p) (scripts p) jid e))"

definition k8s_schedule :: "'c k8s_engine \<Rightarrow> 'c exec_world run_method" where
  "k8s_schedule K e p =
     (let jid = JOB_ID_PREFIX @ action_id e
      in apply_spec K jid (create_scheduled_job_yaml_spec (ke_transpiler K) (contents (toml p)) (ke_config K) jid e))"

definition create_label_selector :: "string \<Rightarrow> string \<Rightarrow> bool \<Rightarrow> string" where
  "create_label_selector client action as_parent =
     (if as_parent then get_label_selector_as_parent SERVICE_NAME client action
      else get_label_selector SERVICE_NAME client (Some action))"

definition delete_k8s_resources :: "'c k8s_engine \<Rightarrow> string \<Rightarrow> ('c exec_world, string) py" where
  "delete_k8s_resources K sel =
     (if sel = [] then py_raise (RuntimeError ''Attempting to delete kubernetes resources without label selector'')
      else
        py_bind (run_command K [kubectl (ke_config K), ''delete'', str_join '','' ALL_K8S_RESOURCE_TYPES, ''--selector'', sel] [])
          (\<lambda>result.
            if str_contains result ''No resources found''
            then py_raise (NoK8sResourcesFoundError (''No resources found matching selector '' @ sel))
            else py_return result))"

definition k8s_cancel_labelled :: "'c k8s_engine \<Rightarrow> string \<Rightarrow> string \<Rightarrow> bool \<Rightarrow> ('c exec_world, string) py" where
  "k8s_cancel_labelled K client action as_parent =
     delete_k8s_resources K (create_label_selector client action as_parent)"

definition no_resources_message :: "string \<Rightarrow> pyexc" where
  "no_resources_message action = NoResourcesFoundException (''No resources found for '' @ [CHR 0x27] @ action @ [CHR 0x27])"

fun is_no_k8s_resources :: "pyexc \<Rightarrow> bool" where
  "is_no_k8s_resources (NoK8sResourcesFoundError _) = True"
| "is_no_k8s_resources _ = False"

definition k8s_cancel :: "'c k8s_engine \<Rightarrow> 'c exec_world cancel_method" where
  "k8s_cancel K client action cascade =
     py_bind
       (py_catch (py_bind (k8s_cancel_labelled K client action False) (\<lambda>r. py_return [PStr r])) (\<lambda>err.
          if is_no_k8s_resources err then
            (if \<not> cascade then py_raise (no_resources_message action) else py_return [])
          else py_raise (ExecutionEngineException (ke_exc_str K err))))
       (\<lambda>results.
         if cascade then
           py_catch (py_bind (k8s_cancel_labelled K client action True) (\<lambda>r. py_return (PList (results @ [PStr r])))) (\<lambda>err.
             if is_no_k8s_resources err then py_raise (no_resources_message action)
             else py_raise (ExecutionEngineException (ke_exc_str K err)))
         else py_return (PList results))"

section \<open>Scheduled benchmarks\<close>

definition scheduled_handle_event ::
  "'c k8s_engine \<Rightarrow> 'c exec_world exec_handler \<Rightarrow> benchmark_event \<Rightarrow> fetcher_payload \<Rightarrow> ('c exec_world, unit) py" where
  "scheduled_handle_event K H e p =
     py_bind (py_lift (is_single_run p)) (\<lambda>single.
       if single then py_return ()
       else
         py_bind
           (py_catch
             (py_then
               (send_status_message_event (eh_emitter H) e ST_PENDING
                 ''Processing scheduled benchmark submission request...'' None)
               (k8s_schedule K e p))
             (report_engine_error H e))
           (\<lambda>job. send_status_message_event (eh_emitter H) e ST_SUCCEEDED
              (''Scheduled benchmark successfully submitted with job id '' @ job_id job) None))"

section \<open>The services\<close>

record kafka_service_config =
  consumer_topic :: string
  producer_topic :: string
  cmd_submit_topic :: "string option"
  cmd_return_topic :: "string option"

text \<open>
  The command object has the method \<open>cancel\<close> and the attribute that holds the engines.  Its
  arguments are strings, and \<open>cascade\<close> is false where it is left out; the event and the service
  are those of the callback.
\<close>

definition text_arg :: "cmd_value dict \<Rightarrow> string \<Rightarrow> string" where
  "text_arg args k = (case dict_get args k of Some (CV v) \<Rightarrow> py_str v | _ \<Rightarrow> [])"

definition cancel_command ::
  "emitter \<Rightarrow> 'a kworld_scheme cancel_method list \<Rightarrow> 'a kworld_scheme cmd_method" where
  "cancel_command em engines =
     \<lparr>cm_params = [(''kafka_service'', False), (''event'', False), (''client_id'', False), (''target_action_id'', False),
        (''cascade'', True)],
      cm_body = (\<lambda>args.
        case dict_get args ''event'' of
          Some (CVEvent ev) \<Rightarrow>
            exec_cancel em engines ev (text_arg args ''client_id'') (text_arg args ''target_action_id'')
              (case dict_get args ''cascade'' of Some (CV v) \<Rightarrow> truthy v | _ \<Rightarrow> False)
        | _ \<Rightarrow> py_raise (AttributeError ''action_id''))\<rparr>"

definition executor_command_object ::
  "emitter \<Rightarrow> 'a kworld_scheme cancel_method list \<Rightarrow> 'a kworld_scheme cmd_member dict" where
  "executor_command_object em engines =
     [(''execution_engines'', CmdAttribute), (''cancel'', CmdMethod (cancel_command em engines))]"

text \<open>
  The callbacks of a service are numbered: 0 for benchmarks, 1 for commands, 2 for schedules.  Without
  a topic for commands their callback is registered under \<open>None\<close>, which is no topic.
\<close>

definition create_callbacks :: "kafka_service_config \<Rightarrow> nat list dict" where
  "create_callbacks cfg =
     (case cmd_submit_topic cfg of
        Some t \<Rightarrow> dict_set [(consumer_topic cfg, [0])] t [1]
      | None \<Rightarrow> [(consumer_topic cfg, [0])])"

definition create_executor :: "kafka_service_config \<Rightarrow> 'a kworld_scheme \<Rightarrow> unit res \<times> 'a kworld_scheme" where
  "create_executor cfg w = add_callback 2 (consumer_topic cfg) (w\<lparr>callbacks := create_callbacks cfg\<rparr>)"

text \<open>Both names stand for the same engine, so the set of the engines has one element.\<close>

definition executor_handler :: "'c k8s_engine \<Rightarrow> emitter \<Rightarrow> kafka_service_config \<Rightarrow> 'c exec_world exec_handler" where
  "executor_handler K em cfg =
     \<lparr>eh_producer_topic = producer_topic cfg,
      eh_engines = [(DEFAULT_ENGINE, k8s_run K), (K8S_ENGINE_ID, k8s_run K)],
      eh_emitter = em, eh_exc_str = ke_exc_str K\<rparr>"

definition executor_commands :: "'c k8s_engine \<Rightarrow> emitter \<Rightarrow> kafka_service_config \<Rightarrow> 'c exec_world cmd_callback" where
  "executor_commands K em cfg =
     \<lparr>cc_members = executor_command_object em [k8s_cancel K],
      cc_return_topic = (case cmd_return_topic cfg of Some t \<Rightarrow> t | None \<Rightarrow> []),
      cc_emitter = em, cc_exc_str = ke_exc_str K\<rparr>"

definition executor_callback ::
  "'c k8s_engine \<Rightarrow> emitter \<Rightarrow> kafka_service_config \<Rightarrow> 'c exec_world handler" where
  "executor_callback K em cfg cb e =
     (if cb = 1 then cmd_handle_event (executor_commands K em cfg) e
      else case payload e of
        FetcherPayload p \<Rightarrow>
          if cb = 0 then exec_handle_event (executor_handler K em cfg) e p
          else scheduled_handle_event K (executor_handler K em cfg) e p
      | _ \<Rightarrow> py_raise (AttributeError ''toml''))"

section \<open>The contract of an engine\<close>

text \<open>
  What the handlers rely on: an engine sends no messages itself, and what it does depends on its own part
  of the world only.  The \<open>cancel\<close> of a strict engine raises the two documented exceptions and no others.
\<close>

locale execution_engine =
  fixes run :: "'a kworld_scheme run_method"
    and cancel :: "'a kworld_scheme cancel_method"
  assumes run_quiet: "kworld.truncate (snd (run e p w)) = kworld.truncate w"
    and run_local: "kworld.more w = kworld.more w' \<Longrightarrow> fst (run e p w) = fst (run e p w')"
    and cancel_quiet: "kworld.truncate (snd (cancel client action cascade w)) = kworld.truncate w"
begin

lemma run_sent: "sent (snd (run e p w)) = sent w"
  using run_quiet [of e p w] by (simp add: kworld.defs)

lemma cancel_sent: "sent (snd (cancel client action cascade w)) = sent w"
  using cancel_quiet [of client action cascade w] by (simp add: kworld.defs)

end

locale strict_engine = execution_engine +
  assumes cancel_raises: "fst (cancel client action cascade w) = Inl x \<Longrightarrow> is_engine_exception x"

lemma truncate_emits:
  assumes "kworld.truncate (snd (m w)) = kworld.truncate w"
  shows "emits w (snd (m w))"
  using assms by (intro emits_same_log) (simp_all add: kworld.defs)

text \<open>Topic, action and payload of a message.\<close>

definition summary :: "kmessage \<Rightarrow> string \<times> string \<times> payload" where
  "summary m = (km_topic m, action_id (km_value m), payload (km_value m))"

lemma send_event_summary:
  "\<exists>m. send_event em e t w = (Inr (), snd (send_event em e t w)) \<and>
     sent (snd (send_event em e t w)) = sent w @ [m] \<and> summary m = (t, action_id e, payload e) \<and>
     kworld.more (snd (send_event em e t w)) = kworld.more w"
  by (simp add: send_event_run summary_def)

lemma send_status_summary:
  assumes "em_status_topic em = Some t" "t \<noteq> []"
  shows "\<exists>m w'. send_status_message_event em e st msg target w = (Inr (), w') \<and>
     sent w' = sent w @ [m] \<and>
     summary m = (t, case target of Some a \<Rightarrow> (if a = [] then action_id e else a) | None \<Rightarrow> action_id e,
       StatusMessagePayload msg st (Some e)) \<and>
     kworld.more w' = kworld.more w"
  using assms by (auto simp: send_status_message_event_run truthy_str_def send_event_run summary_def status_event_def
      split: option.splits)

context execution_engine
begin

lemma submitted:
  assumes top: "em_status_topic (eh_emitter H) = Some t" "t \<noteq> []"
  shows "\<exists>ms. sent (snd (submit_benchmark H run e p w)) = sent w @ ms \<and>
    (case fst (run e p w) of
       Inr j \<Rightarrow> (let ev = executor_event e (create_from_fetcher_payload p j) in
         fst (submit_benchmark H run e p w) = Inr () \<and>
         map summary ms = [(t, action_id e, StatusMessagePayload ''Processing benchmark submission request...'' ST_PENDING (Some e)),
           (t, action_id e, StatusMessagePayload ''Benchmark successfully created...'' ST_SUCCEEDED (Some ev)),
           (eh_producer_topic H, action_id e, payload ev)])
     | Inl x \<Rightarrow>
         fst (submit_benchmark H run e p w) = Inl (if is_engine_exception x then KafkaServiceCallbackException else x) \<and>
         map summary ms = (t, action_id e, StatusMessagePayload ''Processing benchmark submission request...'' ST_PENDING (Some e)) #
           (if is_engine_exception x then [(t, action_id e, StatusMessagePayload (eh_exc_str H x) ST_ERROR (Some e))] else []))"
proof -
  let ?pending = "send_status_message_event (eh_emitter H) e ST_PENDING ''Processing benchmark submission request...'' None"
  obtain m1 w1 where p1: "?pending w = (Inr (), w1)" "sent w1 = sent w @ [m1]"
      "summary m1 = (t, action_id e, StatusMessagePayload ''Processing benchmark submission request...'' ST_PENDING (Some e))"
      "kworld.more w1 = kworld.more w"
    using send_status_summary [OF top, of e ST_PENDING "''Processing benchmark submission request...''" None w] by auto
  obtain r w2 where r: "run e p w1 = (r, w2)" by (cases "run e p w1")
  have w2: "sent w2 = sent w1" using run_sent [of e p w1] r by simp
  have fr: "fst (run e p w) = r" using run_local [OF p1(4), of e p] r by simp
  show ?thesis
  proof (cases r)
    case (Inl x)
    obtain m2 w3 where "send_status_message_event (eh_emitter H) e ST_ERROR (eh_exc_str H x) None w2 = (Inr (), w3)"
        "sent w3 = sent w2 @ [m2]" "summary m2 = (t, action_id e, StatusMessagePayload (eh_exc_str H x) ST_ERROR (Some e))"
      using send_status_summary [OF top, of e ST_ERROR "eh_exc_str H x" None w2] by auto
    with Inl p1 r w2 fr show ?thesis
      by (auto simp: submit_benchmark_def report_engine_error_def py_simps intro!: exI [of _ "[m1, m2]"] exI [of _ "[m1]"])
  next
    case (Inr j)
    let ?ev = "executor_event e (create_from_fetcher_payload p j)"
    obtain m2 w3 where s2: "send_status_message_event (eh_emitter H) ?ev ST_SUCCEEDED ''Benchmark successfully created...'' None w2 = (Inr (), w3)"
        "sent w3 = sent w2 @ [m2]" "summary m2 = (t, action_id e, StatusMessagePayload ''Benchmark successfully created...'' ST_SUCCEEDED (Some ?ev))"
      using send_status_summary [OF top, of ?ev ST_SUCCEEDED "''Benchmark successfully created...''" None w2] by auto
    obtain m3 where "send_event (eh_emitter H) ?ev (eh_producer_topic H) w3 = (Inr (), snd (send_event (eh_emitter H) ?ev (eh_producer_topic H) w3))"
        "sent (snd (send_event (eh_emitter H) ?ev (eh_producer_topic H) w3)) = sent w3 @ [m3]"
        "summary m3 = (eh_producer_topic H, action_id e, payload ?ev)"
      using send_event_summary [of "eh_emitter H" ?ev "eh_producer_topic H" w3] by auto
    with Inr p1 r w2 fr s2 show ?thesis
      by (intro exI [of _ "[m1, m2, m3]"]) (simp add: submit_benchmark_def py_simps Let_def)
  qed
qed

end

context strict_engine
begin

lemma cancelled:
  assumes top: "em_status_topic em = Some t" "t \<noteq> []" and "target \<noteq> []"
    and ex: "exec_cancel em (cancel # es) ev client target cascade w = (r, w')"
  shows "r = fst (cancel client target cascade w) \<and>
    kworld.more w' = kworld.more (snd (cancel client target cascade w)) \<and>
    (\<exists>ms. sent w' = sent w @ ms \<and>
      map (\<lambda>m. (km_topic m, action_id (km_value m), case payload (km_value m) of StatusMessagePayload _ s _ \<Rightarrow> Some s | _ \<Rightarrow> None)) ms =
        (case r of Inr _ \<Rightarrow> [(t, target, Some ST_SUCCEEDED)]
         | Inl x \<Rightarrow> if is_no_resources x then [] else [(t, target, Some ST_FAILED)])) \<and>
    (\<forall>x. r = Inl x \<longrightarrow> is_engine_exception x)"
proof -
  obtain r1 w1 where c: "cancel client target cascade w = (r1, w1)" by (cases "cancel client target cascade w")
  have w1: "sent w1 = sent w" using cancel_sent [of client target cascade w] c by simp
  have st: "\<exists>m w2. send_status_message_event em ev s msg (Some target) w1 = (Inr (), w2) \<and> sent w2 = sent w1 @ [m] \<and>
      summary m = (t, target, StatusMessagePayload msg s (Some ev)) \<and> kworld.more w2 = kworld.more w1" for s msg
    using send_status_summary [OF top, of ev s msg "Some target" w1] assms(3) by simp
  show ?thesis
  proof (cases r1)
    case (Inl x)
    then have x: "is_engine_exception x" using cancel_raises [of client target cascade w x] c by simp
    obtain m w2 where "send_status_message_event em ev ST_FAILED (cancel_failed_message target ev) (Some target) w1 = (Inr (), w2)"
      "sent w2 = sent w1 @ [m]" "kworld.more w2 = kworld.more w1"
      "km_topic m = t" "action_id (km_value m) = target" "\<exists>msg. payload (km_value m) = StatusMessagePayload msg ST_FAILED (Some ev)"
      using st [of ST_FAILED "cancel_failed_message target ev"] unfolding summary_def by auto
    with ex c Inl x w1 show ?thesis
      by (cases "is_no_resources x") (auto simp: py_simps intro!: exI [of _ "[m]"])
  next
    case (Inr v)
    obtain m w2 where "send_status_message_event em ev ST_SUCCEEDED ''Execution successfully cancelled...'' (Some target) w1 = (Inr (), w2)"
      "sent w2 = sent w1 @ [m]" "kworld.more w2 = kworld.more w1" "km_topic m = t" "action_id (km_value m) = target"
      "\<exists>msg. payload (km_value m) = StatusMessagePayload msg ST_SUCCEEDED (Some ev)"
      using st [of ST_SUCCEEDED "''Execution successfully cancelled...''"] unfolding summary_def by auto
    with ex c Inr w1 show ?thesis by (auto simp: py_simps intro!: exI [of _ "[m]"])
  qed
qed

end

section \<open>Kubernetes as an engine\<close>

named_theorems engine_quiet \<open>computations that leave the log alone\<close>

definition quiet :: "'c exec_world \<Rightarrow> 'c exec_world \<Rightarrow> bool" where
  "quiet w w' \<longleftrightarrow> kworld.truncate w' = kworld.truncate w"

interpretation kquiet: world_order quiet
  by unfold_locales (simp_all add: quiet_def)

lemma quiet_run_command [engine_quiet]: "keeps quiet (run_command K cmd inp)"
  by (simp add: keeps_def quiet_def run_command_def kworld.defs split: prod.splits)

lemma quiet_apply_spec [engine_quiet]: "keeps quiet (apply_spec K jid spec)"
  unfolding apply_spec_def kubernetes_apply_def by (intro kquiet.keeps_intros engine_quiet)

lemma quiet_delete [engine_quiet]: "keeps quiet (k8s_cancel_labelled K client action as_parent)"
  unfolding k8s_cancel_labelled_def delete_k8s_resources_def
  by (intro kquiet.keeps_if kquiet.keeps_intros engine_quiet)

lemma quiet_cancel [engine_quiet]: "keeps quiet (k8s_cancel K client action cascade)"
  unfolding k8s_cancel_def by (intro kquiet.keeps_if kquiet.keeps_intros engine_quiet)

lemma keeps_quiet: "keeps quiet m \<Longrightarrow> kworld.truncate (snd (m w)) = kworld.truncate w"
  by (simp add: keeps_def quiet_def)

lemma quiet_emits: "keeps quiet m \<Longrightarrow> keeps emits m"
  unfolding keeps_def using truncate_emits keeps_quiet unfolding keeps_def quiet_def by blast

lemma apply_spec_run:
  "apply_spec K jid spec w =
     (case spec of
        Inl x \<Rightarrow> (Inl (engine_error K x), w)
      | Inr yaml \<Rightarrow>
          (case ke_check_output K [kubectl (ke_config K), ''apply'', ''-f'', ''-''] yaml (resources w) of
             (Inl x, c) \<Rightarrow> (Inl (engine_error K x), w\<lparr>resources := c\<rparr>)
           | (Inr _, c) \<Rightarrow> (Inr \<lparr>job_id = jid, job_output = None, job_extras = [(EXTRA_K8S_YAML, PStr yaml)]\<rparr>,
               w\<lparr>resources := c\<rparr>)))"
  by (auto simp: apply_spec_def kubernetes_apply_def run_command_def py_simps split: sum.splits prod.splits)

interpretation k8s: strict_engine "k8s_run K" "k8s_cancel K"
proof
  show "kworld.truncate (snd (k8s_run K e p w)) = kworld.truncate w" for e p w
    unfolding k8s_run_def Let_def by (intro keeps_quiet engine_quiet)
  show "kworld.truncate (snd (k8s_cancel K client action cascade w)) = kworld.truncate w" for client action cascade w
    by (intro keeps_quiet engine_quiet)
  show "fst (k8s_run K e p w) = fst (k8s_run K e p w')" if "kworld.more w = kworld.more w'" for e p w w'
  proof -
    have "resources w = resources w'" using that by (cases w; cases w') simp
    then show ?thesis by (simp add: k8s_run_def Let_def apply_spec_run split: sum.splits prod.splits)
  qed
  show "is_engine_exception x" if "fst (k8s_cancel K client action cascade w) = Inl x" for client action cascade w x
    using that by (auto simp: k8s_cancel_def py_simps no_resources_message_def split: prod.splits sum.splits if_splits)
qed

lemma emits_submit:
  assumes "keeps emits (run e p)"
  shows "keeps emits (submit_benchmark H run e p)"
  unfolding submit_benchmark_def report_engine_error_def Let_def
  by (intro klog.keeps_intros klog.keeps_if keeps_send_status keeps_send_event assms)

lemma emits_k8s_run: "keeps emits (k8s_run K e p)" "keeps emits (k8s_schedule K e p)"
  unfolding k8s_run_def k8s_schedule_def Let_def by (intro quiet_emits engine_quiet)+

lemma emits_find_engine:
  "find_engine (eh_engines (executor_handler K em cfg)) i = Inr (Some run) \<Longrightarrow> run = k8s_run K"
  by (auto simp: find_engine_def executor_handler_def split: pyval.splits if_splits)

lemma emits_lift_value:
  assumes "\<And>x. r = Inr x \<Longrightarrow> keeps emits (f x)"
  shows "keeps emits (py_bind (py_lift r) f)"
proof (cases r)
  case (Inl x)
  then show ?thesis by (simp add: keeps_def py_simps klog.refl)
next
  case (Inr y)
  from assms [OF this] Inr show ?thesis by (simp add: keeps_def py_simps)
qed

lemma emits_exec_handle_event: "keeps emits (exec_handle_event (executor_handler K em cfg) e p)"
proof -
  have "keeps emits (case engine of None \<Rightarrow> py_return () | Some run \<Rightarrow> submit_benchmark (executor_handler K em cfg) run e p)"
    if "find_engine (eh_engines (executor_handler K em cfg)) i = Inr engine" for engine i
  proof (cases engine)
    case None
    then show ?thesis by (simp add: klog.keeps_return)
  next
    case (Some run)
    with that have "run = k8s_run K" using emits_find_engine by blast
    with Some show ?thesis by (simp add: emits_submit [OF emits_k8s_run(1)])
  qed
  then show ?thesis unfolding exec_handle_event_def
    by (intro emits_lift_value klog.keeps_if klog.keeps_return)
qed

lemma emits_scheduled: "keeps emits (scheduled_handle_event K H e p)"
  unfolding scheduled_handle_event_def report_engine_error_def
  by (intro klog.keeps_intros klog.keeps_if keeps_send_status emits_k8s_run)

lemma emits_exec_cancel:
  "(\<And>c. c \<in> set engines \<Longrightarrow> keeps emits (c client target cascade)) \<Longrightarrow>
   keeps emits (exec_cancel em engines ev client target cascade)"
  by (cases engines) (auto intro!: klog.keeps_intros)

lemma emits_cancel_command: "keeps emits (cm_body (cancel_command em [k8s_cancel K]) args)"
proof -
  have "keeps emits (exec_cancel em [k8s_cancel K] ev client target cascade)" for ev client target cascade
  proof (rule emits_exec_cancel)
    show "keeps emits (c client target cascade)" if "c \<in> set [k8s_cancel K]" for c
      using that quiet_emits [OF quiet_cancel] by auto
  qed
  then show ?thesis
    by (simp add: cancel_command_def klog.keeps_raise del: exec_cancel.simps split: option.splits cmd_value.splits)
qed

interpretation executor_service: kafka_callbacks "executor_callback K em cfg" "\<lambda>_. py_return ()"
proof
  show "keeps emits (executor_callback K em cfg cb e)" for cb e
  proof (cases "cb = 1")
    case True
    have "keeps emits (cmd_handle_event (executor_commands K em cfg) e)"
      by (rule keeps_cmd_handle_event)
        (auto simp: executor_commands_def executor_command_object_def emits_cancel_command split: if_splits)
    with True show ?thesis by (simp add: executor_callback_def)
  next
    case False
    then show ?thesis
      by (cases "payload e") (auto simp: executor_callback_def emits_exec_handle_event emits_scheduled klog.keeps_raise)
  qed
  show "keeps emits (py_return () :: ('c exec_world, unit) py)" by (rule klog.keeps_return)
qed


section \<open>Submissions\<close>

lemma exec_handle_submits:
  assumes "is_single_run p = Inr True" and "get_engine_id p = Inr (PStr i)" and "i \<in> {DEFAULT_ENGINE, K8S_ENGINE_ID}"
  shows "exec_handle_event (executor_handler K em cfg) e p = submit_benchmark (executor_handler K em cfg) (k8s_run K) e p"
  using assms by (auto simp: fun_eq_iff exec_handle_event_def executor_handler_def find_engine_def py_simps)

text \<open>
  (C12) A benchmark that is submitted to Kubernetes is first reported as pending.  If the engine starts it,
  it is reported as succeeded and its event, now with the job, is forwarded once; if the engine raises
  one of its exceptions, it is reported as an error with that message and the callback raises.  Any
  other exception ends the callback without another report.
\<close>

theorem submission_reported:
  assumes top: "em_status_topic em = Some t" "t \<noteq> []"
    and sub: "is_single_run p = Inr True" "get_engine_id p = Inr (PStr i)" "i \<in> {DEFAULT_ENGINE, K8S_ENGINE_ID}"
  shows "\<exists>ms. sent (snd (exec_handle_event (executor_handler K em cfg) e p w)) = sent w @ ms \<and>
    (case fst (k8s_run K e p w) of
       Inr j \<Rightarrow> (let ev = executor_event e (create_from_fetcher_payload p j) in
         fst (exec_handle_event (executor_handler K em cfg) e p w) = Inr () \<and> job_id j = ''b-'' @ action_id e \<and>
         map summary ms = [(t, action_id e, StatusMessagePayload ''Processing benchmark submission request...'' ST_PENDING (Some e)),
           (t, action_id e, StatusMessagePayload ''Benchmark successfully created...'' ST_SUCCEEDED (Some ev)),
           (producer_topic cfg, action_id e, payload ev)])
     | Inl x \<Rightarrow>
         fst (exec_handle_event (executor_handler K em cfg) e p w) =
           Inl (if is_engine_exception x then KafkaServiceCallbackException else x) \<and>
         map summary ms = (t, action_id e, StatusMessagePayload ''Processing benchmark submission request...'' ST_PENDING (Some e)) #
           (if is_engine_exception x then [(t, action_id e, StatusMessagePayload (ke_exc_str K x) ST_ERROR (Some e))] else []))"
proof -
  let ?H = "executor_handler K em cfg"
  have H: "eh_emitter ?H = em" "eh_producer_topic ?H = producer_topic cfg" "eh_exc_str ?H = ke_exc_str K"
    by (simp_all add: executor_handler_def)
  have "job_id j = ''b-'' @ action_id e" if "fst (k8s_run K e p w) = Inr j" for j
    using that by (auto simp: k8s_run_def Let_def apply_spec_run JOB_ID_PREFIX_def split: sum.splits prod.splits)
  with k8s.submitted [of ?H t K e p w] top H show ?thesis
    unfolding exec_handle_submits [OF sub] by (auto simp: Let_def split: sum.splits)
qed


section \<open>What a cancellation deletes\<close>

text \<open>The labels of an object, and the name of its kind in a \<open>kubectl\<close> command.\<close>

definition object_labels :: "pyval \<Rightarrow> string dict" where
  "object_labels obj =
     (case sub_at obj [''metadata'', ''labels''] of
        Some (PDict d) \<Rightarrow> concat (map (\<lambda>(k, v). case v of PStr s \<Rightarrow> [(k, s)] | _ \<Rightarrow> []) d)
      | _ \<Rightarrow> [])"

definition resource_type :: "pyval \<Rightarrow> string" where
  "resource_type obj = (case sub_at obj [''kind''] of Some (PStr k) \<Rightarrow> str_lower k @ ''s'' | _ \<Rightarrow> [])"

text \<open>
  What \<open>kubectl delete\<close> does when it succeeds: it deletes the objects of the given types that the
  selector matches and leaves all others.
\<close>

definition kubectl_deletes :: "'c k8s_engine \<Rightarrow> ('c \<Rightarrow> pyval list) \<Rightarrow> bool" where
  "kubectl_deletes K objs \<longleftrightarrow> (\<forall>types sel c r c'.
     ke_check_output K [kubectl (ke_config K), ''delete'', types, ''--selector'', sel] [] c = (Inr r, c') \<longrightarrow>
     objs c' = filter (\<lambda>obj. \<not> (resource_type obj \<in> set (split_on (CHR '','') types) \<and> selects sel (object_labels obj))) (objs c))"

definition carries :: "string \<Rightarrow> string \<Rightarrow> pyval \<Rightarrow> bool" where
  "carries client action obj \<longleftrightarrow> json_wf obj \<and>
     sub_at obj (label_path CREATED_BY_LABEL) = Some (PStr SERVICE_NAME) \<and>
     sub_at obj (label_path CLIENT_ID_LABEL) = Some (PStr client) \<and>
     sub_at obj (label_path ACTION_ID_LABEL) = Some (PStr action)"

lemma dict_get_concat:
  "dict_get d k = Some (PStr s) \<Longrightarrow>
   dict_get (concat (map (\<lambda>(k, v). case v of PStr s \<Rightarrow> [(k, s)] | _ \<Rightarrow> []) d)) k = Some s"
proof (induction d)
  case (Cons kv d)
  obtain k' v where "kv = (k', v)" by (cases kv)
  with Cons show ?case by (cases v) (auto split: if_splits)
qed simp

lemma object_label:
  assumes "sub_at obj (label_path k) = Some (PStr s)"
  shows "dict_get (object_labels obj) k = Some s"
proof -
  obtain d where "sub_at obj [''metadata'', ''labels''] = Some (PDict d)" "dict_get d k = Some (PStr s)"
    using assms sub_at_append [of obj "[''metadata'', ''labels'']" "[k]"]
    by (auto simp: label_path_def sub_at_Cons split: option.splits pyval.splits)
  then show ?thesis by (simp add: object_labels_def dict_get_concat)
qed

lemma carries_selected:
  assumes "carries client action obj" and "plain_label client" "plain_label action" "action \<noteq> []"
  shows "selects (create_label_selector client action False) (object_labels obj)"
proof -
  have "plain_label SERVICE_NAME" by (simp add: SERVICE_NAME_def plain_label_def)
  with assms object_label show ?thesis
    by (simp add: create_label_selector_def selects_action carries_def)
qed

lemma supported_types:
  assumes "k \<in> set supported_kinds" and "sub_at obj [''kind''] = Some (PStr k)"
  shows "resource_type obj \<in> set (split_on (CHR '','') (str_join '','' ALL_K8S_RESOURCE_TYPES))"
proof -
  have "list_all (\<lambda>k. str_lower k @ ''s'' \<in> set (split_on (CHR '','') (str_join '','' ALL_K8S_RESOURCE_TYPES))) supported_kinds"
    by code_simp
  with assms show ?thesis by (simp add: resource_type_def list_all_iff)
qed

lemma cancel_deletes:
  assumes "fst (k8s_cancel K client action False w) = Inr r"
  shows "\<exists>out. ke_check_output K [kubectl (ke_config K), ''delete'', str_join '','' ALL_K8S_RESOURCE_TYPES, ''--selector'',
      create_label_selector client action False] [] (resources w) =
    (Inr out, resources (snd (k8s_cancel K client action False w)))"
  using assms
  by (auto simp: k8s_cancel_def k8s_cancel_labelled_def delete_k8s_resources_def run_command_def py_simps
      split: prod.splits sum.splits if_splits)

lemma selected_labels:
  assumes "plain_label client" "plain_label action" "action \<noteq> []"
    and "selects (create_label_selector client action False) labels"
  shows "dict_get labels CLIENT_ID_LABEL = Some client \<and> dict_get labels ACTION_ID_LABEL = Some action"
proof -
  have "plain_label SERVICE_NAME" by (simp add: SERVICE_NAME_def plain_label_def)
  with assms show ?thesis by (simp add: create_label_selector_def selects_action)
qed

lemma built_carry:
  assumes "build T kind b = Inr b'" "b_root b = None" "feed_additional_template_values T kind b = Inr b1"
    and "template_docs T b1 = Inr docs" "info_labels (info (b_descriptor b1)) = Some ls"
    and docs: "\<forall>d \<in> set docs. carries client action d"
    and own: "set (map fst ls) \<inter> {ACTION_ID_LABEL, CLIENT_ID_LABEL, CREATED_BY_LABEL} = {}"
  shows "\<exists>h. b_root b' = Some h \<and> (\<forall>obj \<in> set (objects h). carries client action obj \<and>
    resource_type obj \<in> set (split_on (CHR '','') (str_join '','' ALL_K8S_RESOURCE_TYPES)))"
proof -
  let ?ks = "metrics_keys \<union> set (map fst ls)"
  have paths: "label_path k \<in> kept_paths ?ks" if "k \<in> {ACTION_ID_LABEL, CLIENT_ID_LABEL, CREATED_BY_LABEL}" for k
    using that own by (auto simp: kept_paths_def metrics_keys_def label_names)
  from built_objects [OF assms(1-5), of ?ks] obtain h where h: "b_root b' = Some h"
    and objs: "\<forall>obj \<in> set (objects h). \<exists>d \<in> set docs. obj_kept ?ks d obj \<and>
      (\<exists>k \<in> set supported_kinds. sub_at d [''kind''] = Some (PStr k))" by blast
  have "carries client action obj \<and> resource_type obj \<in> set (split_on (CHR '','') (str_join '','' ALL_K8S_RESOURCE_TYPES))"
    if obj: "obj \<in> set (objects h)" for obj
  proof -
    obtain d k where d: "d \<in> set docs" "obj_kept ?ks d obj" "k \<in> set supported_kinds" "sub_at d [''kind''] = Some (PStr k)"
      using objs obj by blast
    with docs have c: "carries client action d" by blast
    with d(2) have kept: "json_wf obj \<and> (\<forall>q s. q \<in> kept_paths ?ks \<longrightarrow> sub_at d q = Some (PStr s) \<longrightarrow> sub_at obj q = Some (PStr s))"
      by (simp add: obj_kept_def carries_def)
    then have "sub_at obj [''kind''] = Some (PStr k)" using d(4) by (simp add: kept_paths_def)
    moreover have "carries client action obj" using kept c paths by (simp add: carries_def)
    ultimately show ?thesis using supported_types [OF d(3)] by blast
  qed
  with h show ?thesis by blast
qed

text \<open>
  (C5) Cancelling a benchmark deletes every object that was built for it, and no object of another client
  or of another action.  The objects are found by the labels that the templates give them, so the
  labels of the benchmark itself must not replace these.
\<close>

theorem created_objects_cancelled:
  assumes built: "build T kind b = Inr b'" "b_root b = None" "feed_additional_template_values T kind b = Inr b1"
      "template_docs T b1 = Inr docs" "info_labels (info (b_descriptor b1)) = Some ls"
    and docs: "\<forall>d \<in> set docs. carries client action d"
    and own: "set (map fst ls) \<inter> {ACTION_ID_LABEL, CLIENT_ID_LABEL, CREATED_BY_LABEL} = {}"
    and names: "plain_label client" "plain_label action" "action \<noteq> []"
    and kubectl: "kubectl_deletes K objs" and ok: "fst (k8s_cancel K client action False w) = Inr r"
  shows "(\<exists>h. b_root b' = Some h \<and>
      set (objects h) \<inter> set (objs (resources (snd (k8s_cancel K client action False w)))) = {}) \<and>
    (\<forall>obj \<in> set (objs (resources w)).
      dict_get (object_labels obj) CLIENT_ID_LABEL \<noteq> Some client \<or> dict_get (object_labels obj) ACTION_ID_LABEL \<noteq> Some action \<longrightarrow>
      obj \<in> set (objs (resources (snd (k8s_cancel K client action False w)))))"
proof -
  let ?w' = "snd (k8s_cancel K client action False w)"
  let ?types = "str_join '','' ALL_K8S_RESOURCE_TYPES" and ?sel = "create_label_selector client action False"
  from cancel_deletes [OF ok] kubectl have left: "objs (resources ?w') =
      filter (\<lambda>obj. \<not> (resource_type obj \<in> set (split_on (CHR '','') ?types) \<and> selects ?sel (object_labels obj))) (objs (resources w))"
    unfolding kubectl_deletes_def by blast
  obtain h where h: "b_root b' = Some h" "\<forall>obj \<in> set (objects h). carries client action obj \<and>
      resource_type obj \<in> set (split_on (CHR '','') ?types)"
    using built_carry [OF built docs own] by blast
  then have "set (objects h) \<inter> set (objs (resources ?w')) = {}"
    unfolding left using carries_selected [OF _ names] by auto
  moreover have "obj \<in> set (objs (resources ?w'))"
    if "obj \<in> set (objs (resources w))" "dict_get (object_labels obj) CLIENT_ID_LABEL \<noteq> Some client \<or>
      dict_get (object_labels obj) ACTION_ID_LABEL \<noteq> Some action" for obj
    unfolding left using that selected_labels [OF names] by auto
  ultimately show ?thesis using h(1) by blast
qed

text \<open>A benchmark on one node and a cluster that holds what was built for it.\<close>

definition demo_single :: benchmark_descriptor where
  "demo_single = demo_built\<lparr>hardware := (hardware demo_built)\<lparr>strategy := SINGLE_NODE\<rparr>\<rparr>"

definition demo_builder :: "string dict \<Rightarrow> builder" where
  "demo_builder ls = (projr (benchmark_builder demo_transpiler
     (demo_single\<lparr>info := (info demo_single)\<lparr>info_labels := Some ls\<rparr>\<rparr>) demo_config [] [] ''b-a'' ''job_single_node.yaml''
     (sample_event ''a'' (AnyPayload PNone)) \<lparr>availability_zones = [(''use1-az1'', ''us-east-1a'')]\<rparr>))"

definition demo_kubectl :: "string list \<Rightarrow> string \<Rightarrow> pyval list \<Rightarrow> string res \<times> pyval list" where
  "demo_kubectl cmd inp c =
     (case cmd of
        [_, verb, types, _, sel] \<Rightarrow>
          (let hit = (\<lambda>obj. resource_type obj \<in> set (split_on (CHR '','') types) \<and> selects sel (object_labels obj))
           in (Inr (if list_ex hit c then ''deleted'' else ''No resources found''), filter (\<lambda>obj. \<not> hit obj) c))
      | _ \<Rightarrow> (Inr ''applied'', c))"

definition demo_engine :: "pyval list k8s_engine" where
  "demo_engine = \<lparr>ke_config = \<lparr>descriptor_cfg = None, bai_cfg = demo_config,
       env_info = \<lparr>availability_zones = [(''use1-az1'', ''us-east-1a'')]\<rparr>, kubectl = ''kubectl'', valid_execution_engines = []\<rparr>,
     ke_check_output = demo_kubectl, ke_exc_str = (\<lambda>_. ''error''),
     ke_transpiler = demo_transpiler\<lparr>te_descriptor := demo_env\<lparr>de_dacite := (\<lambda>_. Inr demo_single)\<rparr>\<rparr>\<rparr>"

definition demo_cluster :: "pyval list \<Rightarrow> pyval list exec_world" where
  "demo_cluster objs = kworld.extend (idle_world []) \<lparr>resources = objs\<rparr>"

definition demo_helper :: k8s_helper where
  "demo_helper = the (b_root (projr (build demo_transpiler SingleRunBuilder (demo_builder [(''team'', ''x'')]))))"

lemma demo_kubectl_deletes: "kubectl_deletes demo_engine id"
  by (simp add: kubectl_deletes_def demo_engine_def demo_kubectl_def Let_def)

theorem created_objects_cancelled_witness:
  "objects demo_helper \<noteq> [] \<and>
   set (objects demo_helper) \<inter>
     set (resources (snd (k8s_cancel demo_engine ''c'' ''a'' False (demo_cluster (objects demo_helper))))) = {}"
proof -
  let ?b = "demo_builder [(''team'', ''x'')]"
  let ?b1 = "projr (feed_additional_template_values demo_transpiler SingleRunBuilder ?b)"
  let ?w = "demo_cluster (objects demo_helper)"
  have "\<not> isl (build demo_transpiler SingleRunBuilder ?b)" by code_simp
  then have 1: "build demo_transpiler SingleRunBuilder ?b = Inr (projr (build demo_transpiler SingleRunBuilder ?b))"
    by (simp add: sum.collapse)
  have 2: "b_root ?b = None" by code_simp
  have "\<not> isl (feed_additional_template_values demo_transpiler SingleRunBuilder ?b)" by code_simp
  then have 3: "feed_additional_template_values demo_transpiler SingleRunBuilder ?b = Inr ?b1" by (simp add: sum.collapse)
  have "\<not> isl (template_docs demo_transpiler ?b1)" by code_simp
  then have 4: "template_docs demo_transpiler ?b1 = Inr (projr (template_docs demo_transpiler ?b1))" by (simp add: sum.collapse)
  have 5: "info_labels (info (b_descriptor ?b1)) = Some [(''team'', ''x'')]" by code_simp
  have "list_all (carries ''c'' ''a'') (projr (template_docs demo_transpiler ?b1))" by code_simp
  then have 6: "\<forall>d \<in> set (projr (template_docs demo_transpiler ?b1)). carries ''c'' ''a'' d" by (simp add: list_all_iff)
  have 7: "set (map fst [(''team'', ''x'')]) \<inter> {ACTION_ID_LABEL, CLIENT_ID_LABEL, CREATED_BY_LABEL} = {}"
    by (simp add: label_names)
  have 8: "plain_label ''c''" "plain_label ''a''" by (simp_all add: plain_label_def)
  have "\<not> isl (fst (k8s_cancel demo_engine ''c'' ''a'' False ?w))" by code_simp
  then obtain r where 9: "fst (k8s_cancel demo_engine ''c'' ''a'' False ?w) = Inr r"
    by (cases "fst (k8s_cancel demo_engine ''c'' ''a'' False ?w)") auto
  have "objects demo_helper \<noteq> []" by code_simp
  moreover have "b_root (projr (build demo_transpiler SingleRunBuilder ?b)) = Some demo_helper"
    using created_objects_cancelled [OF 1 2 3 4 5 6 7 8 _ demo_kubectl_deletes 9] by (auto simp: demo_helper_def)
  ultimately show ?thesis
    using created_objects_cancelled [OF 1 2 3 4 5 6 7 8 _ demo_kubectl_deletes 9] by auto
qed

definition demo_payload :: "pyval dict \<Rightarrow> fetcher_payload" where
  "demo_payload c = \<lparr>toml = \<lparr>contents = c, doc = [], sha1 = [], descriptor_filename = None, verified = True\<rparr>,
     datasets = [], models = [], scripts = []\<rparr>"

definition demo_service :: kafka_service_config where
  "demo_service = \<lparr>consumer_topic = ''FETCHER'', producer_topic = ''EXECUTOR'', cmd_submit_topic = Some ''CMD'',
     cmd_return_topic = Some ''RETURN''\<rparr>"

theorem submission_reported_witness:
  "fst (exec_handle_event (executor_handler demo_engine sample_emitter demo_service)
     (sample_event ''a'' (FetcherPayload (demo_payload []))) (demo_payload []) (demo_cluster [])) = Inr ()"
proof -
  let ?e = "sample_event ''a'' (FetcherPayload (demo_payload []))"
  have "\<not> isl (fst (k8s_run demo_engine ?e (demo_payload []) (demo_cluster [])))" by code_simp
  then obtain j where j: "fst (k8s_run demo_engine ?e (demo_payload []) (demo_cluster [])) = Inr j"
    by (cases "fst (k8s_run demo_engine ?e (demo_payload []) (demo_cluster []))") auto
  have "em_status_topic sample_emitter = Some ''BAI_APP_STATUS''" by (simp add: sample_emitter_def)
  moreover have "is_single_run (demo_payload []) = Inr True" by code_simp
  moreover have "get_engine_id (demo_payload []) = Inr (PStr DEFAULT_ENGINE)" by code_simp
  ultimately show ?thesis
    using submission_reported [of sample_emitter "''BAI_APP_STATUS''" "demo_payload []" DEFAULT_ENGINE demo_engine demo_service ?e
        "demo_cluster []"] j by (auto simp: Let_def)
qed



section \<open>Failures that are not reported\<close>

text \<open>
  A benchmark with a label named \<open>metadata\<close> is never built: adding the label raises an exception that
  the engine does not translate, so the submission ends without a report of the error.
\<close>

theorem metadata_label_unreported:
  assumes "b_root b = None" and "feed_additional_template_values T kind b = Inr b1"
    and "build_template (te_load_all T) (b_template b1) = Inr h"
    and "kh_root h = Some (PDict d)" "json_wf (PDict d)" "has_metadata d"
    and "info_labels (info (b_descriptor b1)) = Some ((''metadata'', val) # ls)" "val \<noteq> []"
  shows "\<exists>x. build T kind b = Inl x \<and> engine_error K x = x \<and> \<not> is_engine_exception x"
proof -
  obtain x where x: "add_label_to ''metadata'' (Some val) (PDict d) = Inl x" "label_error x"
    using metadata_label_raises [OF assms(5,6,8)] by blast
  then have "build T kind b = Inl x"
    using assms(1-4,7) by (simp add: build_def need_labels_def on_root_def add_label_def need_root_def)
  with x(2) show ?thesis by (auto simp: label_error_def engine_error_def)
qed

theorem metadata_label_unreported_witness:
  "\<exists>x. build demo_transpiler SingleRunBuilder (demo_builder [(''metadata'', ''x'')]) = Inl x \<and>
     engine_error demo_engine x = x \<and> \<not> is_engine_exception x"
proof -
  let ?b = "demo_builder [(''metadata'', ''x'')]"
  let ?b1 = "projr (feed_additional_template_values demo_transpiler SingleRunBuilder ?b)"
  let ?h = "projr (build_template (te_load_all demo_transpiler) (b_template ?b1))"
  let ?d = "case the (kh_root ?h) of PDict d \<Rightarrow> d"
  have 1: "b_root ?b = None" by code_simp
  have "\<not> isl (feed_additional_template_values demo_transpiler SingleRunBuilder ?b)" by code_simp
  then have 2: "feed_additional_template_values demo_transpiler SingleRunBuilder ?b = Inr ?b1" by (simp add: sum.collapse)
  have "\<not> isl (build_template (te_load_all demo_transpiler) (b_template ?b1))" by code_simp
  then have 3: "build_template (te_load_all demo_transpiler) (b_template ?b1) = Inr ?h" by (simp add: sum.collapse)
  have 4: "kh_root ?h = Some (PDict ?d)" by code_simp
  have 5: "json_wf (PDict ?d)" by code_simp
  have "(case dict_get ?d ''metadata'' of Some (PDict md) \<Rightarrow> md \<noteq> [] | _ \<Rightarrow> False)" by code_simp
  then have 6: "has_metadata ?d" unfolding has_metadata_def by (auto split: option.splits pyval.splits)
  have 7: "info_labels (info (b_descriptor ?b1)) = Some ((''metadata'', ''x'') # [])" by code_simp
  show ?thesis using metadata_label_unreported [OF 1 2 3 4 5 6 7] by simp
qed

text \<open>
  Cancelling a benchmark together with the benchmarks that it started: if there are none of these, the
  command fails as if it had found nothing, and reports nothing, although the benchmark is deleted.
\<close>

theorem cascade_without_children:
  assumes "ke_check_output K [kubectl (ke_config K), ''delete'', str_join '','' ALL_K8S_RESOURCE_TYPES, ''--selector'',
      create_label_selector client action False] [] (resources w) = (Inr out1, c1)"
    and "\<not> str_contains out1 ''No resources found''"
    and "ke_check_output K [kubectl (ke_config K), ''delete'', str_join '','' ALL_K8S_RESOURCE_TYPES, ''--selector'',
      create_label_selector client action True] [] c1 = (Inr out2, c2)"
    and "str_contains out2 ''No resources found''"
  shows "exec_cancel em [k8s_cancel K] ev client action True w = (Inl (no_resources_message action), w\<lparr>resources := c2\<rparr>)"
proof -
  have "create_label_selector client action b \<noteq> []" for b
    by (simp add: create_label_selector_def get_label_selector_def get_label_selector_as_parent_def
        build_label_selector_def label_def CREATED_BY_LABEL_def)
  with assms have "k8s_cancel K client action True w = (Inl (no_resources_message action), w\<lparr>resources := c2\<rparr>)"
    by (simp add: k8s_cancel_def k8s_cancel_labelled_def delete_k8s_resources_def run_command_def py_simps)
  then show ?thesis by (simp add: py_simps no_resources_message_def)
qed

theorem cascade_without_children_witness:
  "objects demo_helper \<noteq> [] \<and>
   exec_cancel sample_emitter [k8s_cancel demo_engine] (sample_event ''x'' (AnyPayload PNone)) ''c'' ''a'' True
     (demo_cluster (objects demo_helper)) = (Inl (no_resources_message ''a''), demo_cluster [])"
proof -
  let ?out = "demo_kubectl [''kubectl'', ''delete'', str_join '','' ALL_K8S_RESOURCE_TYPES, ''--selector'',
      create_label_selector ''c'' ''a'' False] [] (objects demo_helper)"
  have 1: "?out = (Inr ''deleted'', [])" by code_simp
  have 2: "\<not> str_contains ''deleted'' ''No resources found''" by code_simp
  have 3: "demo_kubectl [''kubectl'', ''delete'', str_join '','' ALL_K8S_RESOURCE_TYPES, ''--selector'',
      create_label_selector ''c'' ''a'' True] [] [] = (Inr ''No resources found'', [])" by code_simp
  have 4: "str_contains ''No resources found'' ''No resources found''" by code_simp
  have 5: "ke_check_output demo_engine = demo_kubectl" "kubectl (ke_config demo_engine) = ''kubectl''"
    by (simp_all add: demo_engine_def)
  have 6: "resources (demo_cluster xs) = xs" "(demo_cluster xs)\<lparr>resources := ys\<rparr> = demo_cluster ys" for xs ys
    by (simp_all add: demo_cluster_def kworld.defs idle_world_def)
  have "objects demo_helper \<noteq> []" by code_simp
  with cascade_without_children [of demo_engine "''c''" "''a''" "demo_cluster (objects demo_helper)", unfolded 5 6, OF 1 2 3 4]
  show ?thesis by blast
qed

text \<open>A benchmark whose own label replaces the action in the labels of its objects is not found any more.\<close>

lemma custom_label_hides_objects:
  "\<not> isl (build demo_transpiler SingleRunBuilder (demo_builder [(''action-id'', ''other'')])) \<and>
   list_all (\<lambda>obj. \<not> selects (create_label_selector ''c'' ''a'' False) (object_labels obj))
     (objects (the (b_root (projr (build demo_transpiler SingleRunBuilder (demo_builder [(''action-id'', ''other'')]))))))"
  by code_simp

end
