(* ===== verification/Metrics.thy ===== *)
theory Metrics
  imports Transpiler
begin

text \<open>
  The way of a metric: \<open>anubis_metrics_extractor/log_listener.py\<close> finds it in the log of the benchmark,
  \<open>benchmarkai\<close> (the client library, also called by benchmarks) writes it to a FIFO, and
  \<open>bai_metrics_pusher\<close> reads it from there and hands it to a backend.

  Values of metrics are those of \<open>pyval\<close>; floating point numbers are not modelled.  Parameters are the
  regular expressions, as a compiler and a search, and the answers of the Kubernetes API.  The FIFO is
  the text in it.  The client library waits for it: \<open>None\<close> is a wait that has not ended with the given fuel,
  and the lemmas say how many checks are enough.  The signal that ends the pusher is not modelled.
\<close>

section \<open>Metrics extractor\<close>

record metric =
  me_name :: pyval
  me_pattern :: pyval
  me_units :: pyval

text \<open>\<open>Metric(**m_object)\<close>\<close>

definition metric_of :: "pyval \<Rightarrow> metric res" where
  "metric_of x =
     (case x of
        PDict d \<Rightarrow>
          if set (map fst d) = {''name'', ''pattern'', ''units''}
          then Inr \<lparr>me_name = the (dict_get d ''name''), me_pattern = the (dict_get d ''pattern''),
                    me_units = the (dict_get d ''units'')\<rparr>
          else Inl (TypeError ''unexpected or missing arguments'')
      | _ \<Rightarrow> Inl (TypeError ''argument after ** must be a mapping''))"

definition extractor_get_metrics :: "string \<Rightarrow> metric list res" where
  "extractor_get_metrics environment =
     (if environment = [] then Inr []
      else res_bind (json_loads environment) (\<lambda>json_object.
        case json_object of
          PList xs \<Rightarrow> res_map metric_of xs
        | x \<Rightarrow> res_bind (metric_of x) (\<lambda>m. Inr [m])))"

definition decode_pattern :: "metric \<Rightarrow> string res" where
  "decode_pattern m = (case me_pattern m of PStr s \<Rightarrow> b64_untext s | _ \<Rightarrow> Inl (TypeError ''argument should be bytes or ASCII string''))"

definition add_metric :: "(string \<Rightarrow> 'p res) \<Rightarrow> metric \<Rightarrow> (metric \<times> 'p) list \<Rightarrow> (metric \<times> 'p) list res" where
  "add_metric compile m ms =
     res_bind (decode_pattern m) (\<lambda>s.
       res_bind (compile s) (\<lambda>p.
         if hashable (me_name m) \<and> hashable (me_units m) then Inr (dict_set ms m p)
         else Inl (TypeError ''unhashable type'')))"

definition log_extractor :: "(string \<Rightarrow> 'p res) \<Rightarrow> metric list \<Rightarrow> (metric \<times> 'p) list res" where
  "log_extractor compile metrics = res_fold (add_metric compile) metrics []"

definition LOG_MAX_ATTEMPTS :: nat where "LOG_MAX_ATTEMPTS = 3"

text \<open>The answer of the \<open>k\<close>-th request for the log; its lines are bytes.\<close>

fun log_attempts :: "nat \<Rightarrow> nat \<Rightarrow> (nat \<Rightarrow> nat list list res) \<Rightarrow> string \<Rightarrow> nat list list res" where
  "log_attempts k 0 logs pod = Inl (RuntimeError (''Could not acquire logs for pod '' @ pod))"
| "log_attempts k (Suc n) logs pod =
     (case logs k of
        Inr stream \<Rightarrow> Inr stream
      | Inl (ApiException _) \<Rightarrow> log_attempts (Suc k) n logs pod
      | Inl e \<Rightarrow> Inl e)"

definition get_log_stream :: "(nat \<Rightarrow> nat list list res) \<Rightarrow> string \<Rightarrow> nat list list res" where
  "get_log_stream logs pod = log_attempts 0 LOG_MAX_ATTEMPTS logs pod"

text \<open>The name as the key of a JSON object.\<close>

definition json_key :: "pyval \<Rightarrow> string" where
  "json_key v = (case v of PStr s \<Rightarrow> s | _ \<Rightarrow> json_dumps v)"

definition extract_line ::
  "('p \<Rightarrow> string \<Rightarrow> pyval list) \<Rightarrow> (pyval \<Rightarrow> ('w, unit) py) \<Rightarrow> (metric \<times> 'p) list \<Rightarrow> nat list \<Rightarrow> ('w, unit) py" where
  "extract_line findall emit ms line =
     py_bind (py_lift (utf8_decode line)) (\<lambda>line.
       py_for ms (\<lambda>(m, p). py_for (findall p line) (\<lambda>x. emit (PDict [(json_key (me_name m), x)]))))"

definition extractor_listen ::
  "('p \<Rightarrow> string \<Rightarrow> pyval list) \<Rightarrow> (pyval \<Rightarrow> ('w, unit) py) \<Rightarrow> (nat \<Rightarrow> nat list list res) \<Rightarrow> string \<Rightarrow>
   (metric \<times> 'p) list \<Rightarrow> ('w, unit) py" where
  "extractor_listen findall emit logs pod ms =
     (if ms = [] then py_return ()
      else py_bind (py_lift (get_log_stream logs pod)) (\<lambda>stream. py_for stream (extract_line findall emit ms)))"

section \<open>Client library\<close>

record metrics_world =
  fifo :: string
  stdout :: string

definition serialize :: "pyval \<Rightarrow> string res" where
  "serialize metrics =
     (case metrics of
        PDict d \<Rightarrow> if d = [] then Inl (ValueError ''The parameter `metrics` is empty'') else Inr (json_dumps metrics)
      | _ \<Rightarrow> Inl (TypeError ''The parameter `metrics` should be a dictionary''))"

definition fifo_send :: "string \<Rightarrow> ('a metrics_world_scheme, unit) py" where
  "fifo_send s = py_modify (\<lambda>w. w\<lparr>fifo := fifo w @ s @ [CHR 0x0A]\<rparr>)"

text \<open>
  The loop of \<open>_getfifo\<close>: \<open>ex n\<close> is the answer of the \<open>n\<close>-th check for the FIFO, and the times are in a
  common unit.  \<open>None\<close> is a loop that has not ended after the given number of checks.
\<close>

fun wait_for_fifo :: "nat \<Rightarrow> int \<Rightarrow> int \<Rightarrow> (nat \<Rightarrow> bool) \<Rightarrow> nat \<Rightarrow> int \<Rightarrow> unit res option" where
  "wait_for_fifo 0 max_wait_time step_time ex n waited = None"
| "wait_for_fifo (Suc fuel) max_wait_time step_time ex n waited =
     (if ex n then Some (Inr ())
      else if waited > max_wait_time then Some (Inl FifoNotCreatedInTimeError)
      else wait_for_fifo fuel max_wait_time step_time ex (Suc n) (waited + step_time))"

text \<open>A call of \<open>_emit_to_fifo\<close> once the FIFO is open, and the first one, which waits for it.\<close>

definition emit_to_fifo :: "pyval \<Rightarrow> ('a metrics_world_scheme, unit) py" where
  "emit_to_fifo metrics = py_bind (py_lift (serialize metrics)) fifo_send"

definition first_emit_to_fifo ::
  "nat \<Rightarrow> int \<Rightarrow> int \<Rightarrow> (nat \<Rightarrow> bool) \<Rightarrow> pyval \<Rightarrow> 'a metrics_world_scheme \<Rightarrow> (unit res \<times> 'a metrics_world_scheme) option" where
  "first_emit_to_fifo fuel max_wait_time step_time ex metrics w =
     (case serialize metrics of
        Inl e \<Rightarrow> Some (Inl e, w)
      | Inr s \<Rightarrow>
          (case wait_for_fifo fuel max_wait_time step_time ex 0 0 of
             None \<Rightarrow> None
           | Some (Inl e) \<Rightarrow> Some (Inl e, w)
           | Some (Inr _) \<Rightarrow> Some (fifo_send s w)))"

definition emit_to_stdout :: "pyval \<Rightarrow> ('a metrics_world_scheme, unit) py" where
  "emit_to_stdout metrics =
     py_bind (py_lift (serialize metrics)) (\<lambda>s. py_modify (\<lambda>w. w\<lparr>stdout := stdout w @ s @ [CHR 0x0A]\<rparr>))"

definition configured_emit :: "string option \<Rightarrow> (pyval \<Rightarrow> ('a metrics_world_scheme, unit) py) res" where
  "configured_emit v =
     (let configured_emitter = str_lower (case v of Some s \<Rightarrow> s | None \<Rightarrow> ''stdout'') in
      if configured_emitter = ''fifo'' then Inr emit_to_fifo
      else if configured_emitter = ''stdout'' then Inr emit_to_stdout
      else Inl (ValueError (''Unsupported emitter: '' @ configured_emitter)))"

section \<open>Metrics pusher: arguments\<close>

definition METRICS_PUSHER_BACKEND_ARG_PREFIX :: string where
  "METRICS_PUSHER_BACKEND_ARG_PREFIX = ''backend_arg_''"

definition add_custom_label :: "string \<Rightarrow> string \<times> string \<Rightarrow> string dict \<Rightarrow> string dict" where
  "add_custom_label pre = (\<lambda>(key, v) labels.
     if startswith (str_lower key) pre then dict_set labels (str_lower (drop (length pre) key)) v else labels)"

definition create_dict_of_custom_labels :: "string dict \<Rightarrow> string \<Rightarrow> string dict" where
  "create_dict_of_custom_labels values pre = fold (add_custom_label pre) values []"

text \<open>Parameters of a backend, with the types that the backends use.\<close>

datatype param_type = TStr | TInt | TListStr | TListInt | TDict

datatype backend_arg = AStr string | AInt int | AStrs "string list" | AInts "int list" | ALabels "string dict"

definition convert_arg :: "param_type \<Rightarrow> string \<Rightarrow> backend_arg res" where
  "convert_arg ty v =
     (case ty of
        TListStr \<Rightarrow> Inr (AStrs (split_on (CHR '','') v))
      | TListInt \<Rightarrow> res_bind (res_map parse_int (split_on (CHR '','') v)) (\<lambda>is. Inr (AInts is))
      | TStr \<Rightarrow> Inr (AStr v)
      | TInt \<Rightarrow> res_bind (parse_int v) (\<lambda>i. Inr (AInt i))
      | TDict \<Rightarrow> Inl (TypeError ''Type Dict cannot be instantiated''))"

definition parameter_value :: "string \<Rightarrow> backend_arg dict \<Rightarrow> string \<times> param_type \<Rightarrow> (string \<times> backend_arg) res" where
  "parameter_value pre values = (\<lambda>(argname, ty).
     case dict_get values (pre @ argname) of
       None \<Rightarrow> Inl (ValueError (''Parameter `'' @ argname @ ''` is missing from the specified values''))
     | Some (AStr v) \<Rightarrow> res_bind (convert_arg ty v) (\<lambda>a. Inr (argname, a))
     | Some a \<Rightarrow> Inr (argname, a))"

definition create_dict_of_parameter_values ::
  "string \<Rightarrow> backend_arg dict \<Rightarrow> (string \<times> param_type) list \<Rightarrow> backend_arg dict res" where
  "create_dict_of_parameter_values pre values params =
     (case List.find (\<lambda>(key, _). startswith key pre \<and> drop (length pre) key \<notin> set (map fst params)) values of
        Some (key, _) \<Rightarrow> Inl (KeyError (''Parameter `'' @ drop (length pre) key @ ''` does not exist''))
      | None \<Rightarrow> res_map (parameter_value pre values) params)"

definition backend_values :: "string dict \<Rightarrow> backend_arg dict" where
  "backend_values environ =
     dict_set (fold (\<lambda>(k, v) d. dict_set d (str_lower k) (AStr v)) environ [])
       (str_lower METRICS_PUSHER_BACKEND_ARG_PREFIX @ ''labels'')
       (ALabels (create_dict_of_custom_labels environ METRICS_PUSHER_CUSTOM_LABEL_PREFIX))"

definition backend_args :: "string dict \<Rightarrow> (string \<times> param_type) list \<Rightarrow> backend_arg dict res" where
  "backend_args environ params =
     create_dict_of_parameter_values METRICS_PUSHER_BACKEND_ARG_PREFIX (backend_values environ) params"

section \<open>Metrics pusher: backends\<close>

record exporter_metric =
  xm_name :: string
  xm_value :: pyval
  xm_timestamp :: int
  xm_labels :: "string dict"

record kafka_backend =
  kb_labels :: "string dict"
  kb_topic :: string
  kb_key :: "string option"

record pusher_world =
  pw_now :: "nat \<Rightarrow> int"
  pw_reads :: nat
  pw_sent :: "(string \<times> exporter_metric \<times> string option) list"
  pw_closed :: bool

definition kafka_backend_init ::
  "string \<Rightarrow> string \<Rightarrow> string dict \<Rightarrow> string \<Rightarrow> string option \<Rightarrow> kafka_backend" where
  "kafka_backend_init action client labels topic key =
     \<lparr>kb_labels = dict_update [(''action-id'', action), (''client-id'', client)] labels, kb_topic = topic, kb_key = key\<rparr>"

definition kafka_send :: "kafka_backend \<Rightarrow> int \<Rightarrow> string \<times> pyval \<Rightarrow> (pusher_world, unit) py" where
  "kafka_send B t = (\<lambda>(n, v). py_modify (\<lambda>w. w\<lparr>pw_sent := pw_sent w @
     [(kb_topic B, \<lparr>xm_name = n, xm_value = v, xm_timestamp = t, xm_labels = kb_labels B\<rparr>, kb_key B)]\<rparr>))"

definition kafka_backend_emit :: "kafka_backend \<Rightarrow> pyval \<Rightarrow> (pusher_world, unit) py" where
  "kafka_backend_emit B metrics = (\<lambda>w.
     let t = pw_now w (pw_reads w) * 1000; w = w\<lparr>pw_reads := Suc (pw_reads w)\<rparr> in
     case metrics of
       PDict d \<Rightarrow> py_for d (kafka_send B t) w
     | _ \<Rightarrow> (Inl (AttributeError ''items''), w))"

definition kafka_backend_close :: "(pusher_world, unit) py" where
  "kafka_backend_close = py_modify (\<lambda>w. w\<lparr>pw_closed := True\<rparr>)"

definition elasticsearch_doc :: "string \<Rightarrow> string \<Rightarrow> string dict \<Rightarrow> string \<Rightarrow> pyval \<Rightarrow> pyval" where
  "elasticsearch_doc action client labels timestamp metrics = PDict
     (dict_update (dict_update [(''action-id'', PStr action), (''client-id'', PStr client)] (map (apsnd PStr) labels))
       [(''timestamp'', PStr timestamp), (''metrics'', metrics),
        (''tracing'', PDict [(''service'', PStr ''metrics-pusher'')])])"

definition logging_backend_emit :: "string dict \<Rightarrow> pyval \<Rightarrow> string res" where
  "logging_backend_emit labels metrics =
     (case metrics of
        PDict d \<Rightarrow> Inr (json_dumps (PDict (dict_set d ''labels'' (PDict (map (apsnd PStr) labels)))))
      | _ \<Rightarrow> Inl (TypeError ''object does not support item assignment''))"

section \<open>Metrics pusher: the loop\<close>

text \<open>
  A file opened as text is read with universal newlines; the flag tells that a carriage return has just
  been read.
\<close>

fun newlines_after :: "bool \<Rightarrow> string \<Rightarrow> string" where
  "newlines_after cr [] = []"
| "newlines_after cr (c # s) =
     (if c = CHR 0x0D then CHR 0x0A # newlines_after True s
      else if c = CHR 0x0A \<and> cr then newlines_after False s
      else c # newlines_after False s)"

definition universal_newlines :: "string \<Rightarrow> string" where
  "universal_newlines s = newlines_after False s"

definition readline :: "string \<Rightarrow> string \<times> string" where
  "readline s =
     (case dropWhile (\<lambda>c. c \<noteq> CHR 0x0A) s of
        [] \<Rightarrow> (s, [])
      | c # r \<Rightarrow> (takeWhile (\<lambda>c. c \<noteq> CHR 0x0A) s @ [c], r))"

text \<open>\<open>JSONDecodeError\<close> is a \<open>ValueError\<close>, and the only one that \<open>json.loads\<close> raises.\<close>

definition deserialize :: "string \<Rightarrow> pyval res" where
  "deserialize line = (case json_loads line of Inl (ValueError _) \<Rightarrow> Inr PNone | r \<Rightarrow> r)"

lemma readline_shorter: "s \<noteq> [] \<Longrightarrow> readline s = (line, r) \<Longrightarrow> length r < length s"
proof -
  assume s: "s \<noteq> []" and rl: "readline s = (line, r)"
  have "length (dropWhile (\<lambda>c. c \<noteq> CHR 0x0A) s) \<le> length s" by (rule length_dropWhile_le)
  with s rl show ?thesis by (cases "dropWhile (\<lambda>c. c \<noteq> CHR 0x0A) s") (auto simp: readline_def)
qed

function listen_to_fifo :: "(pyval \<Rightarrow> ('w, unit) py) \<Rightarrow> string \<Rightarrow> ('w, unit) py" where
  "listen_to_fifo emit s =
     (if s = [] then py_return ()
      else case readline s of (line, r) \<Rightarrow>
        py_bind (py_lift (deserialize line)) (\<lambda>metrics. py_then (emit metrics) (listen_to_fifo emit r)))"
  by pat_completeness auto
termination
  by (relation "measure (\<lambda>(emit, s). length s)") (auto dest: readline_shorter [OF _ sym])

declare listen_to_fifo.simps [simp del]

definition start_loop :: "(pyval \<Rightarrow> ('w, unit) py) \<Rightarrow> ('w, unit) py \<Rightarrow> string \<Rightarrow> ('w, unit) py" where
  "start_loop emit close text = (\<lambda>w.
     case listen_to_fifo emit (universal_newlines text) w of (r, w') \<Rightarrow>
       (case close w' of (Inl e, w'') \<Rightarrow> (Inl e, w'') | (Inr _, w'') \<Rightarrow> (r, w'')))"

text \<open>The watcher of the pod: the status of its containers, poll by poll; \<open>None\<close> if it still runs.\<close>

fun watch_kubernetes_pod :: "(string \<times> bool) list res list \<Rightarrow> unit res option" where
  "watch_kubernetes_pod [] = None"
| "watch_kubernetes_pod (Inl e # polls) = Some (Inl e)"
| "watch_kubernetes_pod (Inr statuses # polls) =
     (case dict_get (dict_update [] statuses) ''benchmark'' of
        None \<Rightarrow> Some (Inl (KeyError ''benchmark''))
      | Some terminated \<Rightarrow> if terminated then Some (Inr ()) else watch_kubernetes_pod polls)"

section \<open>From the descriptor to the extractor\<close>

lemma metric_of_dict:
  "metric_of (metric_dict m) = Inr \<lparr>me_name = PStr (metric_name m), me_pattern = PStr (metric_pattern m), me_units = PStr (metric_units m)\<rparr>"
proof -
  have "{''name'', ''units'', ''pattern''} = {''name'', ''pattern'', ''units''}" by blast
  then show ?thesis by (simp add: metric_of_def metric_dict_def)
qed

lemma metric_dict_wf: "json_wf (metric_dict m)"
  by (simp add: metric_dict_def dict_wf_def)

text \<open>
  (C17) The extractor gets the metrics of the descriptor from the text that the transpiler writes for it,
  each pattern as it was in the descriptor.
\<close>

theorem metric_patterns_roundtrip:
  assumes "output_metrics d = Some ms"
  shows "\<exists>xs. extractor_get_metrics (fst (get_metrics_from_descriptor d)) = Inr xs \<and>
    map me_name xs = map (PStr \<circ> metric_name) ms \<and> map me_units xs = map (PStr \<circ> metric_units) ms \<and>
    res_map decode_pattern xs = Inr (map metric_pattern ms)"
proof -
  let ?x = "\<lambda>m. \<lparr>me_name = PStr (metric_name m), me_pattern = PStr (b64_text (metric_pattern m)), me_units = PStr (metric_units m)\<rparr>"
  let ?v = "PList (map (metric_dict \<circ> encode_metric) ms)"
  have "json_wf ?v" using metric_dict_wf by auto
  then have "json_loads (json_dumps ?v) = Inr ?v" by (rule json_codec.roundtrip)
  moreover have "res_map metric_of (map (metric_dict \<circ> encode_metric) ms) = Inr (map ?x ms)"
    unfolding res_map_Inr_iff by (simp add: list_all2_map1 list_all2_map2 metric_of_dict encode_metric_def list.rel_refl)
  ultimately have "extractor_get_metrics (json_dumps ?v) = Inr (map ?x ms)"
    by (simp add: extractor_get_metrics_def)
  moreover have "fst (get_metrics_from_descriptor d) = json_dumps ?v"
    using assms by (simp add: get_metrics_from_descriptor_def Let_def comp_assoc)
  moreover have "res_map decode_pattern (map ?x ms) = Inr (map metric_pattern ms)"
    unfolding res_map_Inr_iff
    by (simp add: list_all2_map1 list_all2_map2 decode_pattern_def b64_codec.roundtrip list.rel_refl)
  ultimately show ?thesis by (intro exI [of _ "map ?x ms"]) simp
qed

theorem metric_patterns_roundtrip_witness:
  "\<exists>xs. extractor_get_metrics (fst (get_metrics_from_descriptor (demo_built\<lparr>output_metrics :=
       Some [\<lparr>metric_name = ''accuracy'', metric_units = ''%'', metric_pattern = ''accuracy=(.*)''\<rparr>]\<rparr>))) = Inr xs \<and>
     map me_name xs = [PStr ''accuracy''] \<and> res_map decode_pattern xs = Inr [''accuracy=(.*)'']"
  using metric_patterns_roundtrip [of "demo_built\<lparr>output_metrics :=
       Some [\<lparr>metric_name = ''accuracy'', metric_units = ''%'', metric_pattern = ''accuracy=(.*)''\<rparr>]\<rparr>"] by auto

section \<open>From the benchmark to the pusher\<close>

definition printable :: "char \<Rightarrow> bool" where
  "printable c \<longleftrightarrow> 32 \<le> (of_char c :: nat) \<and> (of_char c :: nat) < 127"

lemma printable_hex: "n < 16 \<Longrightarrow> printable (hex_char n)"
proof -
  have "list_all (\<lambda>n. printable (hex_char n)) [0..<16]" by code_simp
  then show "n < 16 \<Longrightarrow> printable (hex_char n)" by (simp add: list_all_iff)
qed

lemma printable_escape: "d \<in> set (json_escape c) \<Longrightarrow> printable d"
proof -
  have "(of_char c :: nat) div 16 < 16" using of_char_less [of c] by (simp add: less_mult_imp_div_less)
  then show "d \<in> set (json_escape c) \<Longrightarrow> printable d"
    by (auto simp: json_escape_def printable_hex split: if_splits) (simp_all add: printable_def)
qed

lemma printable_str: "c \<in> set (json_str s) \<Longrightarrow> printable c"
  using printable_escape by (auto simp: json_str_def printable_def)

lemma printable_int: "c \<in> set (show_int i) \<Longrightarrow> printable c"
  using show_nat_digits by (auto simp: show_int_def printable_def is_digit_def split: if_splits) force+

lemma printable_dumps: "c \<in> set (json_dumps v) \<Longrightarrow> printable c"
proof (induction v arbitrary: c)
  case (PList vs)
  then show ?case by (auto simp: printable_def dest!: set_str_join)
next
  case (PDict d)
  then show ?case using printable_str by (auto simp: printable_def dest!: set_str_join)
qed (auto simp: printable_int printable_str split: if_splits, auto simp: printable_def)

lemma universal_printable:
  assumes "\<forall>c \<in> set s. printable c \<or> c = CHR 0x0A"
  shows "universal_newlines s = s"
proof -
  have "newlines_after False s = s"
    using assms by (induction s) (auto simp: printable_def)
  then show ?thesis by (simp add: universal_newlines_def)
qed

lemma readline_line:
  assumes "CHR 0x0A \<notin> set line"
  shows "readline (line @ CHR 0x0A # r) = (line @ [CHR 0x0A], r)"
proof -
  have "dropWhile (\<lambda>c. c \<noteq> CHR 0x0A) (line @ CHR 0x0A # r) = CHR 0x0A # r"
    and "takeWhile (\<lambda>c. c \<noteq> CHR 0x0A) (line @ CHR 0x0A # r) = line"
    using assms by (induction line) auto
  then show ?thesis by (simp add: readline_def)
qed

lemma deserialize_line: "json_wf v \<Longrightarrow> deserialize (json_dumps v @ [CHR 0x0A]) = Inr v"
proof -
  assume "json_wf v"
  have "json_stop [CHR 0x0A]" by (simp add: json_stop_def is_digit_def)
  from reads_backD [OF json_reads_back [OF \<open>json_wf v\<close>] _ this, of "Suc (Suc (length (json_dumps v)))"]
  have "json_value (Suc (Suc (length (json_dumps v)))) (json_dumps v @ [CHR 0x0A]) = Inr (v, [CHR 0x0A])" by simp
  moreover have "skip_blanks [CHR 0x0A] = []" by (simp add: skip_blanks_def json_blank_def)
  ultimately show ?thesis by (simp add: deserialize_def json_loads_def)
qed

definition fifo_text :: "pyval list \<Rightarrow> string" where
  "fifo_text vs = concat (map (\<lambda>v. json_dumps v @ [CHR 0x0A]) vs)"

lemma emit_to_fifo_run:
  "d \<noteq> [] \<Longrightarrow> emit_to_fifo (PDict d) w = (Inr (), w\<lparr>fifo := fifo w @ json_dumps (PDict d) @ [CHR 0x0A]\<rparr>)"
  by (simp add: emit_to_fifo_def serialize_def fifo_send_def py_simps py_modify_def)

lemma int_mult_le_iff:
  fixes m n s :: int
  assumes "0 < s"
  shows "n * s \<le> m \<longleftrightarrow> n \<le> m div s"
proof
  assume "n * s \<le> m"
  then have "n * s div s \<le> m div s" using assms by (intro zdiv_mono1)
  with assms show "n \<le> m div s" by simp
next
  assume "n \<le> m div s"
  then have "n * s \<le> m div s * s" using assms by (intro mult_right_mono) simp_all
  also have "\<dots> \<le> m" using assms div_mult_mod_eq [of m s] pos_mod_sign [of s m] by linarith
  finally show "n * s \<le> m" .
qed

text \<open>
  The first call returns: it writes the metrics if the FIFO is there at one of the checks that fit into the
  waiting time, and one more, and raises with nothing written otherwise.
\<close>

lemma fifo_awaited:
  assumes "0 < step" "max_wait div step + 1 = int k" "n \<le> k" "k - n < fuel"
  shows "wait_for_fifo fuel max_wait step ex n (int n * step) =
    Some (if \<exists>i. n \<le> i \<and> i \<le> k \<and> ex i then Inr () else Inl FifoNotCreatedInTimeError)"
  using assms(3,4)
proof (induction fuel arbitrary: n)
  case (Suc fuel)
  have late: "int n * step > max_wait \<longleftrightarrow> n = k"
    using int_mult_le_iff [OF assms(1), of "int n" max_wait] assms(2) Suc.prems(1) by linarith
  show ?case
  proof (cases "ex n \<or> n = k")
    case True
    with late show ?thesis using Suc.prems(1) by (auto intro: le_antisym)
  next
    case False
    then have "wait_for_fifo fuel max_wait step ex (Suc n) (int (Suc n) * step) =
        Some (if \<exists>i. Suc n \<le> i \<and> i \<le> k \<and> ex i then Inr () else Inl FifoNotCreatedInTimeError)"
      using Suc.prems by (intro Suc.IH) linarith+
    moreover have "(\<exists>i. Suc n \<le> i \<and> i \<le> k \<and> ex i) \<longleftrightarrow> (\<exists>i. n \<le> i \<and> i \<le> k \<and> ex i)"
      using False by (metis Suc_leD not_less_eq_eq order_antisym_conv)
    ultimately show ?thesis using False late by (simp add: algebra_simps)
  qed
qed simp

lemma first_emit_returns:
  assumes "0 < step" "max_wait div step + 1 = int k" "k < fuel"
  shows "first_emit_to_fifo fuel max_wait step ex metrics w =
    Some (if \<exists>i \<le> k. ex i then emit_to_fifo metrics w
          else (case serialize metrics of Inl e \<Rightarrow> Inl e | Inr _ \<Rightarrow> Inl FifoNotCreatedInTimeError, w))"
  using fifo_awaited [OF assms(1,2), of 0 fuel ex] assms(3)
  by (auto simp: first_emit_to_fifo_def emit_to_fifo_def py_simps split: sum.splits)

lemma emitted_text:
  "\<forall>v \<in> set vs. \<exists>d. v = PDict d \<and> d \<noteq> [] \<Longrightarrow>
   py_for vs emit_to_fifo w = (Inr (), w\<lparr>fifo := fifo w @ fifo_text vs\<rparr>)"
proof (induction vs arbitrary: w)
  case Nil
  then show ?case by (simp add: fifo_text_def py_simps)
next
  case (Cons v vs)
  then obtain d where "v = PDict d" "d \<noteq> []" by auto
  with Cons show ?case by (simp add: emit_to_fifo_run py_simps fifo_text_def del: json_dumps.simps)
qed

lemma listen_text:
  "\<forall>v \<in> set vs. json_wf v \<Longrightarrow> listen_to_fifo emit (fifo_text vs) = py_for vs emit"
proof (induction vs)
  case Nil
  then show ?case by (simp add: fifo_text_def listen_to_fifo.simps)
next
  case (Cons v vs)
  have "CHR 0x0A \<notin> set (json_dumps v)" using printable_dumps [of "CHR 0x0A" v] by (auto simp: printable_def)
  from readline_line [OF this, of "fifo_text vs"]
  have "readline (fifo_text (v # vs)) = (json_dumps v @ [CHR 0x0A], fifo_text vs)" by (simp add: fifo_text_def)
  moreover have "fifo_text (v # vs) \<noteq> []" by (simp add: fifo_text_def)
  moreover have "py_bind (py_lift (Inr v)) f = f v" for f :: "pyval \<Rightarrow> ('a, unit) py"
    by (simp add: py_bind_def py_lift_def)
  moreover have "deserialize (json_dumps v @ [CHR 0x0A]) = Inr v" using Cons.prems by (simp add: deserialize_line)
  moreover have "listen_to_fifo emit (fifo_text vs) = py_for vs emit" using Cons by simp
  ultimately show ?case by (subst listen_to_fifo.simps) simp
qed

text \<open>
  (C6) The pusher hands the metrics to its backend exactly as the benchmark emitted them, in this order,
  whatever their names and values contain.
\<close>

theorem emitted_metrics_pushed:
  assumes "\<forall>v \<in> set vs. json_wf v \<and> (\<exists>d. v = PDict d \<and> d \<noteq> [])" and "fifo w = []"
  shows "\<exists>w'. py_for vs emit_to_fifo w = (Inr (), w') \<and>
    listen_to_fifo emit (universal_newlines (fifo w')) = py_for vs emit"
proof -
  have "\<forall>c \<in> set (fifo_text vs). printable c \<or> c = CHR 0x0A"
    using printable_dumps by (auto simp: fifo_text_def)
  then have "universal_newlines (fifo_text vs) = fifo_text vs" by (rule universal_printable)
  moreover have "py_for vs emit_to_fifo w = (Inr (), w\<lparr>fifo := fifo w @ fifo_text vs\<rparr>)"
    using assms(1) by (intro emitted_text) blast
  ultimately show ?thesis using assms listen_text [of vs emit] by simp
qed

definition demo_backend :: kafka_backend where
  "demo_backend = kafka_backend_init ''a'' ''c'' [(''team'', ''x'')] ''METRICS'' None"

definition demo_metrics :: "pyval list" where
  "demo_metrics = [PDict [(''accuracy'', PInt 1)], PDict [(''loss'' @ [CHR 0x0A], PStr ''0.5'')]]"

theorem emitted_metrics_pushed_witness:
  "\<exists>w'. py_for demo_metrics emit_to_fifo \<lparr>fifo = [], stdout = []\<rparr> = (Inr (), w') \<and>
     listen_to_fifo (kafka_backend_emit demo_backend) (universal_newlines (fifo w')) =
       py_for demo_metrics (kafka_backend_emit demo_backend)"
proof -
  have "\<forall>v \<in> set demo_metrics. json_wf v \<and> (\<exists>d. v = PDict d \<and> d \<noteq> [])" by (simp add: demo_metrics_def dict_wf_def)
  then show ?thesis by (rule emitted_metrics_pushed) simp
qed

text \<open>
  (C25) A line that is no JSON does end the pusher, although its exception is swallowed: the backend then gets
  \<open>None\<close> and raises.  Nothing is sent and the lines after it are never read.
\<close>

theorem bad_line_ends_pusher:
  assumes "json_loads (line @ [CHR 0x0A]) = Inl (ValueError msg)" and "\<forall>c \<in> set line. printable c"
  shows "start_loop (kafka_backend_emit B) kafka_backend_close (line @ CHR 0x0A # rest) w =
    (Inl (AttributeError ''items''), w\<lparr>pw_reads := Suc (pw_reads w), pw_closed := True\<rparr>)"
proof -
  have n: "newlines_after False (line @ CHR 0x0A # rest) = line @ CHR 0x0A # newlines_after False rest"
    using assms(2) by (induction line) (auto simp: printable_def)
  have "CHR 0x0A \<notin> set line" using assms(2) by (auto simp: printable_def)
  from readline_line [OF this, of "newlines_after False rest"] n
  have "readline (universal_newlines (line @ CHR 0x0A # rest)) = (line @ [CHR 0x0A], newlines_after False rest)"
    by (simp add: universal_newlines_def)
  moreover have "universal_newlines (line @ CHR 0x0A # rest) \<noteq> []" using n by (simp add: universal_newlines_def)
  ultimately have "listen_to_fifo (kafka_backend_emit B) (universal_newlines (line @ CHR 0x0A # rest)) w =
      (Inl (AttributeError ''items''), w\<lparr>pw_reads := Suc (pw_reads w)\<rparr>)"
    using assms(1) by (subst listen_to_fifo.simps) (simp add: deserialize_def kafka_backend_emit_def py_simps)
  then show ?thesis by (simp add: start_loop_def kafka_backend_close_def py_modify_def)
qed

theorem bad_line_ends_pusher_witness:
  "pw_sent (snd (start_loop (kafka_backend_emit demo_backend) kafka_backend_close
     (''no json'' @ CHR 0x0A # json_dumps (PDict [(''accuracy'', PInt 1)]))
     \<lparr>pw_now = int, pw_reads = 0, pw_sent = [], pw_closed = False\<rparr>)) = []"
proof -
  have 1: "json_loads (''no json'' @ [CHR 0x0A]) = Inl (ValueError ''Expecting value'')" by code_simp
  have 2: "\<forall>c \<in> set ''no json''. printable c" by (simp add: printable_def)
  show ?thesis unfolding bad_line_ends_pusher [OF 1 2] by simp
qed

section \<open>From the descriptor to the labels of the metrics\<close>

lemma str_lower_upper:
  assumes "str_lower k = k"
  shows "str_lower (str_upper k) = k"
proof -
  have "lower_char (upper_char c) = c" if "lower_char c = c" for c
    using that of_char_less [of c] by (auto simp: lower_char_def upper_char_def is_upper_def is_lower_def)
  with assms show ?thesis by (induction k) (auto simp: str_lower_def str_upper_def)
qed

text \<open>The environment of a container, as far as it is given by values.\<close>

definition env_value :: "pyval \<Rightarrow> (string \<times> string) list" where
  "env_value x =
     (case x of
        PDict e \<Rightarrow>
          (case (dict_get e ''name'', dict_get e ''value'') of (Some (PStr n), Some (PStr v)) \<Rightarrow> [(n, v)] | _ \<Rightarrow> [])
      | _ \<Rightarrow> [])"

definition container_env :: "pyval \<Rightarrow> string dict" where
  "container_env c =
     (case c of PDict d \<Rightarrow> (case dict_get d ''env'' of Some (PList xs) \<Rightarrow> concat (map env_value xs) | _ \<Rightarrow> []) | _ \<Rightarrow> [])"

lemma append_env_env:
  assumes "dict_get d ''env'' = Some (PList xs)"
  shows "\<exists>d' xs'. append_env n v (PDict d) = Inr (PDict d') \<and> dict_get d' ''env'' = Some (PList xs') \<and>
    container_env (PDict d') = container_env (PDict d) @ [(n, v)]"
  using assms by (simp add: append_env_def container_env_def env_value_def)

lemma custom_label_added:
  assumes "str_lower k = k"
  shows "add_custom_label METRICS_PUSHER_CUSTOM_LABEL_PREFIX
    (str_upper METRICS_PUSHER_CUSTOM_LABEL_PREFIX @ str_upper k, v) labels = dict_set labels k v"
proof -
  have "str_lower (str_upper METRICS_PUSHER_CUSTOM_LABEL_PREFIX) = METRICS_PUSHER_CUSTOM_LABEL_PREFIX"
    and "length (str_upper METRICS_PUSHER_CUSTOM_LABEL_PREFIX) = length METRICS_PUSHER_CUSTOM_LABEL_PREFIX"
    by code_simp (simp add: str_upper_def)
  with str_lower_upper [OF assms] show ?thesis
    by (simp add: add_custom_label_def str_lower_append startswith_def)
qed



text \<open>A label in upper case reaches the pusher under another name.\<close>

lemma upper_case_label_renamed:
  "create_dict_of_custom_labels (container_env (projr (append_env
     (str_upper METRICS_PUSHER_CUSTOM_LABEL_PREFIX @ str_upper ''Team'') ''x'' (PDict [(''env'', PList [])]))))
     METRICS_PUSHER_CUSTOM_LABEL_PREFIX = [(''team'', ''x'')]"
  by code_simp

end
