(* ===== verification/Scheduling.thy ===== *)
theory Scheduling
  imports Execution
begin

text \<open>
  Scheduled benchmarks, \<open>anubis-cron-job/src/anubis_cron_job/__main__.py\<close>: the job that Kubernetes starts
  at the scheduled times submits the benchmark as one that runs once, with the scheduled one as its
  parent.  The theory follows such a benchmark through the executor to its cancellation.

  A parameter is \<open>from_dict\<close>, what \<open>dacite\<close> makes of the event in the environment.  An event shares the
  payload with the one that \<open>dataclasses.replace\<close> makes of it, so \<open>create_benchmark_event\<close> returns both.
\<close>

section \<open>The cron job\<close>

definition set_single_run :: "pyval dict \<Rightarrow> pyval dict res" where
  "set_single_run c =
     (case dict_get c ''info'' of
        None \<Rightarrow> Inl (RuntimeError ''Event does not contain valid benchmark descriptor: 'info' section is missing.'')
      | Some v \<Rightarrow>
          if \<not> truthy v then Inl (RuntimeError ''Event does not contain valid benchmark descriptor: 'info' section is missing.'')
          else (case v of
             PDict d \<Rightarrow> Inr (dict_set c ''info'' (PDict (dict_set d ''scheduling'' (PStr SINGLE_RUN_SCHEDULING))))
           | _ \<Rightarrow> Inl (TypeError ''object does not support item assignment'')))"

definition create_benchmark_event ::
  "benchmark_event \<Rightarrow> fetcher_payload \<Rightarrow> ('a kworld_scheme, benchmark_event \<times> benchmark_event) py" where
  "create_benchmark_event e p =
     py_bind generate_uuid (\<lambda>u.
     py_bind (py_lift (set_single_run (contents (toml p)))) (\<lambda>c.
       let pl = FetcherPayload (p\<lparr>toml := (toml p)\<lparr>contents := c\<rparr>\<rparr>) in
       py_return (set_payload pl (set_parent_action_id (Some (action_id e)) (set_action_id u e)), set_payload pl e)))"

definition spawn_message :: "benchmark_event \<Rightarrow> string" where
  "spawn_message e = ''Spawning benchmark with action_id: ['' @ action_id e @ '']''"

definition spawn_benchmark ::
  "(pyval \<Rightarrow> benchmark_event res) \<Rightarrow> emitter \<Rightarrow> string \<Rightarrow> pyval \<Rightarrow> ('a kworld_scheme, unit) py" where
  "spawn_benchmark from_dict em topic v =
     py_bind (py_lift (from_dict v)) (\<lambda>e.
       case payload e of
         FetcherPayload p \<Rightarrow>
           py_bind (create_benchmark_event e p) (\<lambda>(benchmark_event, scheduled_benchmark_event).
             py_then (send_event em benchmark_event topic)
               (send_status_message_event em scheduled_benchmark_event ST_SUCCEEDED
                 (spawn_message benchmark_event) None))
       | _ \<Rightarrow> py_raise (AttributeError ''toml''))"

text \<open>
  The exit code of the job.  The event is parsed while the arguments are read, where \<open>argparse\<close> turns a
  \<open>ValueError\<close> into the exit code 2.
\<close>

definition cron_main ::
  "(pyval \<Rightarrow> benchmark_event res) \<Rightarrow> emitter \<Rightarrow> string \<Rightarrow> string \<Rightarrow> ('a kworld_scheme, nat) py" where
  "cron_main from_dict em topic benchmark_event =
     (case json_loads benchmark_event of
        Inl (ValueError _) \<Rightarrow> py_return 2
      | Inl _ \<Rightarrow> py_return 1
      | Inr v \<Rightarrow> py_catch (py_then (spawn_benchmark from_dict em topic v) (py_return 0)) (\<lambda>_. py_return 1))"

section \<open>The benchmark that is spawned\<close>

lemma generate_uuid_run: "generate_uuid w = (Inr (uuid_src w (uuid_used w)), w\<lparr>uuid_used := Suc (uuid_used w)\<rparr>)"
  by (simp add: generate_uuid_def)

lemma set_single_run_info:
  assumes "dict_get c ''info'' = Some (PDict d)" "d \<noteq> []"
  shows "set_single_run c = Inr (dict_set c ''info'' (PDict (dict_set d ''scheduling'' (PStr SINGLE_RUN_SCHEDULING))))"
  using assms by (simp add: set_single_run_def)

definition single_run_payload :: "fetcher_payload \<Rightarrow> fetcher_payload" where
  "single_run_payload p = p\<lparr>toml := (toml p)\<lparr>contents := projr (set_single_run (contents (toml p)))\<rparr>\<rparr>"

lemma single_run_payload:
  assumes "dict_get (contents (toml p)) ''info'' = Some (PDict d)" "d \<noteq> []"
  shows "is_single_run (single_run_payload p) = Inr True" "get_engine_id (single_run_payload p) = get_engine_id p"
  using assms set_single_run_info [OF assms]
  by (simp_all add: is_single_run_def get_engine_id_def single_run_payload_def info_get_def)

text \<open>
  (C14) The cron job of a scheduled benchmark sends one benchmark to the executor, with an action of its own
  and the scheduled one as its parent, and reports it for the scheduled one.  What it sends is run by the
  executor, with the engine that the descriptor names, and not scheduled again.
\<close>

theorem scheduled_benchmark_spawned:
  assumes "json_loads text = Inr v" and "from_dict v = Inr e" and "payload e = FetcherPayload p"
    and info: "dict_get (contents (toml p)) ''info'' = Some (PDict d)" "d \<noteq> []"
    and top: "em_status_topic em = Some t" "t \<noteq> []"
  shows "\<exists>m1 m2 w'. cron_main from_dict em topic text w = (Inr 0, w') \<and> sent w' = sent w @ [m1, m2] \<and>
    km_topic m1 = topic \<and> client_id (km_value m1) = client_id e \<and>
    action_id (km_value m1) = uuid_src w (uuid_used w) \<and> parent_action_id (km_value m1) = Some (action_id e) \<and>
    payload (km_value m1) = FetcherPayload (single_run_payload p) \<and>
    km_topic m2 = t \<and> action_id (km_value m2) = action_id e \<and>
    (\<forall>(K :: 'c k8s_engine) em' cfg k. executor_callback K em' cfg 2 (km_value m1) k = (Inr (), k) \<and>
      (get_engine_id p = Inr (PStr DEFAULT_ENGINE) \<longrightarrow>
        executor_callback K em' cfg 0 (km_value m1) k =
          submit_benchmark (executor_handler K em' cfg) (k8s_run K) (km_value m1) (single_run_payload p) k))"
proof -
  let ?pl = "FetcherPayload (single_run_payload p)" and ?u = "uuid_src w (uuid_used w)"
  let ?be = "set_payload ?pl (set_parent_action_id (Some (action_id e)) (set_action_id ?u e))"
  let ?se = "set_payload ?pl e"
  let ?w0 = "w\<lparr>uuid_used := Suc (uuid_used w)\<rparr>"
  let ?msg = "spawn_message ?be"
  have c: "create_benchmark_event e p w = (Inr (?be, ?se), ?w0)"
    using set_single_run_info [OF info]
    by (simp add: create_benchmark_event_def py_simps generate_uuid_run single_run_payload_def Let_def)
  define m1 where "m1 = \<lparr>km_topic = topic, km_value = sent_event em ?be topic ?w0, km_key = client_id e\<rparr>"
  define w1 where "w1 = snd (send_event em ?be topic ?w0)"
  have s1: "send_event em ?be topic ?w0 = (Inr (), w1)" "sent w1 = sent w @ [m1]"
    by (simp_all add: w1_def m1_def send_event_run)
  obtain m2 w2 where s2: "send_status_message_event em ?se ST_SUCCEEDED ?msg None w1 = (Inr (), w2)"
    "sent w2 = sent w1 @ [m2]" "summary m2 = (t, action_id ?se, StatusMessagePayload ?msg ST_SUCCEEDED (Some ?se))"
    using send_status_summary [OF top, of ?se ST_SUCCEEDED ?msg None w1] by auto
  have "cron_main from_dict em topic text w = (Inr 0, w2)"
    using assms(1-3) c s1 s2 by (simp add: cron_main_def spawn_benchmark_def py_simps del: send_status_message_event_run)
  moreover have "km_topic m1 = topic" "client_id (km_value m1) = client_id e" "action_id (km_value m1) = ?u"
      "parent_action_id (km_value m1) = Some (action_id e)" "payload (km_value m1) = ?pl"
    by (simp_all add: m1_def)
  moreover from this(5) have "executor_callback K em' cfg 2 (km_value m1) k = (Inr (), k)" for K :: "'c k8s_engine" and em' cfg k
    using single_run_payload(1) [OF info] by (simp add: executor_callback_def scheduled_handle_event_def py_simps)
  moreover from \<open>payload (km_value m1) = ?pl\<close>
  have "executor_callback K em' cfg 0 (km_value m1) k =
      submit_benchmark (executor_handler K em' cfg) (k8s_run K) (km_value m1) (single_run_payload p) k"
    if "get_engine_id p = Inr (PStr DEFAULT_ENGINE)" for K :: "'c k8s_engine" and em' cfg k
    using single_run_payload [OF info] that
    by (simp add: executor_callback_def exec_handle_event_def py_simps find_engine_def executor_handler_def)
  ultimately show ?thesis using s1 s2 unfolding summary_def
    by - (rule exI [of _ m1], rule exI [of _ m2], rule exI [of _ w2], simp)
qed

section \<open>Labels of the spawned benchmark\<close>

text \<open>
  A builder whose objects are labelled for an action, and whose event has a parent; and such a builder
  whose objects are labelled with the parent too.
\<close>

definition child_of :: "string \<Rightarrow> string \<Rightarrow> string \<Rightarrow> builder \<Rightarrow> bool" where
  "child_of client action par b \<longleftrightarrow> parent_action_id (b_event b) = Some par \<and>
     (\<exists>h. b_root b = Some h \<and> (\<forall>obj \<in> set (objects h). carries client action obj))"

definition child_labelled :: "string \<Rightarrow> string \<Rightarrow> string \<Rightarrow> builder \<Rightarrow> bool" where
  "child_labelled client action par b \<longleftrightarrow> child_of client action par b \<and>
     (\<exists>h. b_root b = Some h \<and>
       (\<forall>obj \<in> set (objects h). sub_at obj (label_path PARENT_ACTION_ID_LABEL) = Some (PStr par)))"

definition yields :: "('s \<Rightarrow> bool) \<Rightarrow> 's res \<Rightarrow> bool" where
  "yields P m \<longleftrightarrow> (\<forall>s. m = Inr s \<longrightarrow> P s)"

lemma yields_bind: "yields Q m \<Longrightarrow> (\<And>s. Q s \<Longrightarrow> yields P (f s)) \<Longrightarrow> yields P (res_bind m f)"
  by (cases m) (auto simp: yields_def)

lemma carries_kept:
  assumes "obj_kept ks x y" "carries client action x"
    and "ks \<inter> {ACTION_ID_LABEL, CLIENT_ID_LABEL, CREATED_BY_LABEL} = {}"
  shows "carries client action y"
proof -
  have "label_path k \<in> kept_paths ks" if "k \<in> {ACTION_ID_LABEL, CLIENT_ID_LABEL, CREATED_BY_LABEL}" for k
    using that assms(3) by (auto simp: kept_paths_def)
  with assms(1,2) show ?thesis by (auto simp: carries_def obj_kept_def)
qed

lemma child_kept:
  assumes "builder_kept ks b b'" "child_of client action par b"
    and "ks \<inter> {ACTION_ID_LABEL, CLIENT_ID_LABEL, CREATED_BY_LABEL} = {}"
  shows "child_of client action par b'"
proof -
  obtain h h' where h: "b_root b = Some h" "b_root b' = Some h'" "list_all2 (obj_kept ks) (objects h) (objects h')"
    and c: "\<forall>obj \<in> set (objects h). carries client action obj"
    using assms(1,2) by (auto simp: builder_kept_def labels_kept_def child_of_def)
  have "carries client action obj" if "obj \<in> set (objects h')" for obj
    using list_all2_in2 [OF h(3) that] carries_kept [OF _ _ assms(3)] c by blast
  with h(2) assms(1,2) show ?thesis by (simp add: child_of_def builder_kept_def)
qed

lemma child_labelled_kept:
  assumes "builder_kept ks b b'" "child_labelled client action par b"
    and "ks \<inter> {ACTION_ID_LABEL, CLIENT_ID_LABEL, CREATED_BY_LABEL, PARENT_ACTION_ID_LABEL} = {}"
  shows "child_labelled client action par b'"
proof -
  obtain h h' where h: "b_root b = Some h" "b_root b' = Some h'" "list_all2 (obj_kept ks) (objects h) (objects h')"
    and l: "\<forall>obj \<in> set (objects h). json_wf obj \<and> sub_at obj (label_path PARENT_ACTION_ID_LABEL) = Some (PStr par)"
    using assms(1,2) by (auto simp: builder_kept_def labels_kept_def child_labelled_def child_of_def carries_def)
  have "label_path PARENT_ACTION_ID_LABEL \<in> kept_paths ks" using assms(3) by (auto simp: kept_paths_def)
  with l have "\<forall>obj \<in> set (objects h'). sub_at obj (label_path PARENT_ACTION_ID_LABEL) = Some (PStr par)"
    using list_all2_in2 [OF h(3)] by (fastforce simp: obj_kept_def)
  moreover have "child_of client action par b'"
    using child_kept [OF assms(1)] assms(2,3) by (auto simp: child_labelled_def)
  ultimately show ?thesis using h(2) by (simp add: child_labelled_def)
qed

lemma carries_metadata:
  assumes "carries client action obj"
  obtains d where "obj = PDict d" "has_metadata d"
proof -
  have "sub_at obj [''metadata'', ''labels'', ACTION_ID_LABEL] = Some (PStr action)"
    using assms by (simp add: carries_def label_path_def)
  then obtain d md x where "obj = PDict d" "dict_get d ''metadata'' = Some (PDict md)" "dict_get md ''labels'' = Some x"
    by (auto simp: sub_at_Cons split: option.splits pyval.splits)
  moreover from this(3) have "md \<noteq> []" by auto
  ultimately show thesis using that by (auto simp: has_metadata_def)
qed

lemma labelled_object:
  assumes "carries client action obj" "add_label_to key (Some v) obj = Inr obj'"
  shows "sub_at obj' (label_path key) = Some (PStr v)"
proof -
  obtain d where d: "obj = PDict d" "has_metadata d" using assms(1) by (rule carries_metadata)
  have "json_wf obj" using assms(1) by (simp add: carries_def)
  then have "label_rec key (Some v) obj = Inr obj'" using assms(2) by (rule add_label_to_rec)
  from label_rec_labels [OF this, of "[]" d] d show ?thesis by (simp add: opt_str_def)
qed

lemma labelled_objects:
  assumes "add_label key (Some v) h = Inr h'" "\<forall>obj \<in> set (objects h). carries client action obj"
  shows "\<forall>obj \<in> set (objects h'). sub_at obj (label_path key) = Some (PStr v)"
proof -
  obtain r r' cms rbs svs where r: "kh_root h = Some r" "add_label_to key (Some v) r = Inr r'"
    and l: "res_map (add_label_to key (Some v)) (kh_config_maps h) = Inr cms"
      "res_map (add_label_to key (Some v)) (kh_role_bindings h) = Inr rbs"
      "res_map (add_label_to key (Some v)) (kh_services h) = Inr svs"
    and h': "objects h' = [r'] @ cms @ rbs @ svs"
    using assms(1) by (auto simp: add_label_def need_root_def objects_def split: option.splits)
  have all: "obj \<in> set (objects h) \<Longrightarrow> add_label_to key (Some v) obj = Inr obj' \<Longrightarrow>
      sub_at obj' (label_path key) = Some (PStr v)" for obj obj'
    using assms(2) labelled_object by blast
  have "\<forall>y \<in> set ys. sub_at y (label_path key) = Some (PStr v)"
    if "res_map (add_label_to key (Some v)) xs = Inr ys" "set xs \<subseteq> set (objects h)" for xs ys
  proof
    fix y
    assume y: "y \<in> set ys"
    from that(1) have "list_all2 (\<lambda>x y. add_label_to key (Some v) x = Inr y) xs ys" by (simp add: res_map_Inr_iff)
    from list_all2_in2 [OF this y] that(2) all show "sub_at y (label_path key) = Some (PStr v)" by blast
  qed
  note lists = this [OF l(1)] this [OF l(2)] this [OF l(3)]
  have "sub_at r' (label_path key) = Some (PStr v)" using all [OF _ r(2)] r(1) by (simp add: objects_def)
  with lists r(1) show ?thesis unfolding h' by (auto simp: objects_def)
qed

lemma child_bind:
  assumes "child_of client action par b" "keeps_at (builder_kept metrics_keys) b m"
    and "\<And>b'. child_of client action par b' \<Longrightarrow> yields P (f b')"
  shows "yields P (res_bind m f)"
proof (rule yields_bind)
  have "metrics_keys \<inter> {ACTION_ID_LABEL, CLIENT_ID_LABEL, CREATED_BY_LABEL} = {}"
    by (auto simp: metrics_keys_def label_names)
  then show "yields (child_of client action par) m"
    using assms(1,2) child_kept by (auto simp: yields_def dest: keeps_atD)
qed (rule assms(3))

definition dashboard_keys :: "string set" where
  "dashboard_keys = {''dashboard-name'', ''region''}"

lemma labelled_last:
  assumes "child_labelled client action par b" "keeps_at (builder_kept dashboard_keys) b m"
  shows "yields (child_labelled client action par) m"
proof -
  have "dashboard_keys \<inter> {ACTION_ID_LABEL, CLIENT_ID_LABEL, CREATED_BY_LABEL, PARENT_ACTION_ID_LABEL} = {}"
    by (auto simp: dashboard_keys_def label_names)
  then show ?thesis using assms child_labelled_kept by (auto simp: yields_def dest: keeps_atD)
qed

lemma labelled_bind:
  assumes "child_labelled client action par b" "keeps_at (builder_kept dashboard_keys) b m"
    and "\<And>b'. child_labelled client action par b' \<Longrightarrow> yields P (f b')"
  shows "yields P (res_bind m f)"
  using labelled_last [OF assms(1,2)] assms(3) by (rule yields_bind)

lemma parent_root_label:
  assumes "child_of client action par b"
  shows "yields (child_labelled client action par) (on_root (add_label ''parent-action-id'' (Some par)) b)"
  unfolding yields_def
proof (intro allI impI)
  fix b'
  assume b': "on_root (add_label ''parent-action-id'' (Some par)) b = Inr b'"
  then obtain h h' where h: "b_root b = Some h" "add_label ''parent-action-id'' (Some par) h = Inr h'" "b' = b\<lparr>b_root := Some h'\<rparr>"
    by (cases "b_root b") (auto simp: on_root_def)
  have "builder_kept metrics_keys b b'"
    using keeps_atD [OF kept_add_label b'] by (simp add: metrics_keys_def)
  moreover have "metrics_keys \<inter> {ACTION_ID_LABEL, CLIENT_ID_LABEL, CREATED_BY_LABEL} = {}"
    by (auto simp: metrics_keys_def label_names)
  ultimately have "child_of client action par b'" using assms child_kept by blast
  moreover have "\<forall>obj \<in> set (objects h'). sub_at obj (label_path ''parent-action-id'') = Some (PStr par)"
    using labelled_objects [OF h(2)] assms h(1) by (auto simp: child_of_def)
  ultimately show "child_labelled client action par b'" using h(3) by (simp add: child_labelled_def PARENT_ACTION_ID_LABEL_def)
qed

lemma parent_label:
  assumes "child_of client action par b" "par \<noteq> []"
  shows "yields (child_labelled client action par) (add_parent_label replica b)"
proof -
  have "yields (child_labelled client action par) (res_bind (on_root (add_label ''parent-action-id'' (Some par)) b)
      (pusher_label replica (''parent-action-id'', par)))"
    by (rule yields_bind [OF parent_root_label [OF assms(1)]]) (rule labelled_last, assumption, rule kept_pusher_label)
  then show ?thesis using assms by (simp add: add_parent_label_def child_of_def)
qed

lemmas dashboard_keeps = bkeeps kept_on_pod_of kept_dashboard_labels builder_keeps pod_keeps

lemma single_run_child:
  assumes "child_of client action par b" "par \<noteq> []"
  shows "yields (child_labelled client action par) (update_single_run T b)"
proof -
  have tail: "yields (child_labelled client action par) (res_bind (add_parent_label None b) (\<lambda>b.
     res_bind (drop_affinity None b) (\<lambda>b.
       if is_inference_strategy (b_descriptor b) then
         res_bind (on_pod_of None (set_service_account INFERENCE_SERVER_SERVICE_ACCOUNT) b) add_server_env_vars
       else if strategy (hardware (b_descriptor b)) = SINGLE_NODE then
         on_pod_of None (remove_container INFERENCE_SERVER_LOCK_CONTAINER) b
       else Inr b)))" if "child_of client action par b" for b
  proof (rule yields_bind [OF parent_label [OF that assms(2)]])
    fix b
    assume "child_labelled client action par b"
    then show "yields (child_labelled client action par) (res_bind (drop_affinity None b) (\<lambda>b.
       if is_inference_strategy (b_descriptor b) then
         res_bind (on_pod_of None (set_service_account INFERENCE_SERVER_SERVICE_ACCOUNT) b) add_server_env_vars
       else if strategy (hardware (b_descriptor b)) = SINGLE_NODE then
         on_pod_of None (remove_container INFERENCE_SERVER_LOCK_CONTAINER) b
       else Inr b))"
      by (rule labelled_last) (intro dashboard_keeps)
  qed
  show ?thesis
    unfolding update_single_run_def using assms(1)
    by - ((rule tail, assumption) | (rule child_bind, assumption, (intro update_keeps subset_refl)[1]))+
qed

lemma horovod_child:
  assumes "child_of client action par b" "par \<noteq> []"
  shows "yields (child_labelled client action par) (update_horovod T b)"
proof -
  have tail: "yields (child_labelled client action par) (res_bind (add_parent_label (Some ty) b) (drop_affinity (Some ty)))"
    if "child_of client action par b" for ty b
    by (rule yields_bind [OF parent_label [OF that assms(2)]]) (rule labelled_last, assumption, intro dashboard_keeps)
  have replica: "yields (child_labelled client action par) (update_replica ty b)" if "child_of client action par b" for ty b
    unfolding update_replica_def using that
    by - ((rule tail, assumption) | (rule child_bind, assumption, (intro update_keeps subset_refl)[1]))+
  have "yields (child_labelled client action par) (res_fold update_replica [MPI_JOB_LAUNCHER, MPI_JOB_WORKER] b)"
    if "child_of client action par b" for b
  proof -
    have "yields (child_labelled client action par) (res_bind (update_replica MPI_JOB_LAUNCHER b) (update_replica MPI_JOB_WORKER))"
      by (rule yields_bind [OF replica [OF that]]) (simp add: replica child_labelled_def)
    then show ?thesis by (simp add: yields_def)
  qed
  with assms(1) show ?thesis
    unfolding update_horovod_def
    by - (rule child_bind, assumption, (intro update_keeps subset_refl)[1])+
qed

lemma inference_server_child:
  assumes "child_of client action par b" "par \<noteq> []"
  shows "yields (child_labelled client action par) (update_inference_server T b)"
proof -
  have probe: "keeps_at (builder_kept metrics_keys) b (case xs of [] \<Rightarrow> Inl IndexError
      | q # _ \<Rightarrow> on_pod_of None (add_readiness_probe INFERENCE_SERVER_CONTAINER p q) b)" for xs p b
    by (cases xs) (auto intro: keeps_at_raise kept_on_pod_of pod_keeps)
  have root: "yields (child_labelled client action par) (if truthy_str (parent_action_id (b_event b))
        then on_root (add_label ''parent-action-id'' (parent_action_id (b_event b))) b else Inr b)"
    if "child_of client action par b" for b
    using parent_root_label [OF that] that assms(2) by (simp add: child_of_def)
  have tail: "yields (child_labelled client action par) (res_bind (if truthy_str (parent_action_id (b_event b))
        then on_root (add_label ''parent-action-id'' (parent_action_id (b_event b))) b else Inr b) (\<lambda>b.
      res_bind (if server_output s = None then remove_metrics_sidecars None b else add_metrics_labels None b)
        (drop_affinity None)))" if "child_of client action par b" for b s
    by (rule yields_bind [OF root [OF that]], rule labelled_last, assumption, intro dashboard_keeps)
      (simp_all add: dashboard_keys_def)
  have server: "yields (child_labelled client action par) (case server (b_descriptor b) of None \<Rightarrow> Inl e | Some s \<Rightarrow> f s b)"
    if "\<And>s. yields (child_labelled client action par) (f s b)" for f b e
    using that by (auto simp: yields_def split: option.splits)
  show ?thesis
    unfolding update_inference_server_def Let_def using assms(1)
    by - ((rule tail, assumption) | rule server |
      (rule child_bind, assumption, (intro update_keeps probe kept_on_root labels_kept_ports subset_refl)[1]))+
qed

lemma update_child:
  assumes "child_of client action par b" "par \<noteq> []" "kind \<noteq> ScheduledBuilder"
  shows "yields (child_labelled client action par) (update_root_k8s_object T kind b)"
  using assms single_run_child horovod_child inference_server_child
  by (cases kind) (simp_all add: update_root_k8s_object_def)

text \<open>A benchmark that is built for an event with a parent is labelled with it.\<close>

lemma build_child:
  assumes built: "build T kind b = Inr b'" "b_root b = None" "feed_additional_template_values T kind b = Inr b1"
      "template_docs T b1 = Inr docs" "info_labels (info (b_descriptor b1)) = Some ls"
    and docs: "\<forall>d \<in> set docs. carries client action d"
    and own: "set (map fst ls) \<inter> {ACTION_ID_LABEL, CLIENT_ID_LABEL, CREATED_BY_LABEL} = {}"
    and par: "parent_action_id (b_event b1) = Some par" "par \<noteq> []" "kind \<noteq> ScheduledBuilder"
  shows "child_labelled client action par b'"
proof -
  have t: "build_template (te_load_all T) (b_template b1) = load_helper docs"
    using built(4) by (cases "str_format (variables (b_template b1)) None (yaml_template_contents (b_template b1))")
      (simp_all add: build_template_def template_docs_def)
  obtain h where h: "load_helper docs = Inr h"
    using built(1-3) t by (cases "load_helper docs") (simp_all add: build_def)
  have "res_bind (res_fold (\<lambda>(l, v). on_root (add_label l (Some v))) ls (b1\<lparr>b_root := Some h\<rparr>))
      (update_root_k8s_object T kind) = Inr b'"
    using built(1-3,5) t [unfolded h] by (simp add: build_def need_labels_def Let_def del: res_bind_eq_Inr)
  then obtain b2 where b2: "res_fold (\<lambda>(l, v). on_root (add_label l (Some v))) ls (b1\<lparr>b_root := Some h\<rparr>) = Inr b2"
      "update_root_k8s_object T kind b2 = Inr b'"
    unfolding res_bind_eq_Inr by blast
  have "carries client action obj" if "obj \<in> set (objects h)" for obj
    using load_helper_objects [OF h that] carries_kept [of "{}"] docs unfolding from_docs_def by blast
  then have c: "child_of client action par (b1\<lparr>b_root := Some h\<rparr>)" using par(1) by (simp add: child_of_def)
  have k: "keeps_at (builder_kept (set (map fst ls))) (b1\<lparr>b_root := Some h\<rparr>)
      (res_fold (\<lambda>(l, v). on_root (add_label l (Some v))) ls (b1\<lparr>b_root := Some h\<rparr>))"
  proof (rule bko.keeps_fold)
    fix x s
    assume "x \<in> set ls"
    moreover obtain l v where "x = (l, v)" by (cases x)
    ultimately have "l \<in> set (map fst ls)" "x = (l, v)" by force+
    then show "keeps_at (builder_kept (set (map fst ls))) s ((case x of (l, v) \<Rightarrow> on_root (add_label l (Some v))) s)"
      by (simp add: kept_add_label)
  qed
  have "child_of client action par b2" by (rule child_kept [OF keeps_atD [OF k b2(1)] c own])
  from update_child [OF this par(2,3)] b2(2) show ?thesis by (simp add: yields_def)
qed

section \<open>Cancelling a scheduled benchmark\<close>

text \<open>A command that fails does not raise the exception of the engine itself.\<close>

definition kubectl_raises :: "'c k8s_engine \<Rightarrow> bool" where
  "kubectl_raises K \<longleftrightarrow> (\<forall>cmd inp c x. fst (ke_check_output K cmd inp c) = Inl x \<longrightarrow> \<not> is_no_k8s_resources x)"

abbreviation delete_command :: "'c k8s_engine \<Rightarrow> string \<Rightarrow> string \<Rightarrow> bool \<Rightarrow> string list" where
  "delete_command K client action as_parent \<equiv>
     [kubectl (ke_config K), ''delete'', str_join '','' ALL_K8S_RESOURCE_TYPES, ''--selector'',
      create_label_selector client action as_parent]"

lemma cascade_deletes:
  assumes "fst (k8s_cancel K client action True w) = Inr r" and "kubectl_raises K"
  shows "\<exists>out1 c out2. ke_check_output K (delete_command K client action False) [] (resources w) = (Inr out1, c) \<and>
    ke_check_output K (delete_command K client action True) [] c = (Inr out2, resources (snd (k8s_cancel K client action True w)))"
proof -
  obtain r1 c where one: "ke_check_output K (delete_command K client action False) [] (resources w) = (r1, c)"
    by (cases "ke_check_output K (delete_command K client action False) [] (resources w)")
  obtain r2 c2 where two: "ke_check_output K (delete_command K client action True) [] c = (r2, c2)"
    by (cases "ke_check_output K (delete_command K client action True) [] c")
  have sel: "create_label_selector client action b \<noteq> []" for b
    by (simp add: create_label_selector_def get_label_selector_def get_label_selector_as_parent_def
        build_label_selector_def label_def CREATED_BY_LABEL_def)
  have n: "r1 = Inl x \<Longrightarrow> \<not> is_no_k8s_resources x" for x
    using assms(2) one unfolding kubectl_raises_def by (metis fst_conv)
  note defs = k8s_cancel_def k8s_cancel_labelled_def delete_k8s_resources_def run_command_def py_simps
  obtain out1 where r1: "r1 = Inr out1"
    using assms(1) one sel n by (cases r1) (auto simp: defs split: if_splits)
  have "\<exists>out2. r2 = Inr out2 \<and> resources (snd (k8s_cancel K client action True w)) = c2"
    using assms(1) one two sel r1 by (cases r2) (auto simp: defs split: if_splits)
  with one two r1 show ?thesis by blast
qed

lemma selects_parent:
  assumes "plain_label client" "plain_label action"
  shows "selects (create_label_selector client action True) labels \<longleftrightarrow>
    dict_get labels CREATED_BY_LABEL = Some SERVICE_NAME \<and> dict_get labels CLIENT_ID_LABEL = Some client \<and>
    dict_get labels PARENT_ACTION_ID_LABEL = Some action"
proof -
  have "plain_label SERVICE_NAME" by (simp add: SERVICE_NAME_def plain_label_def)
  with assms selects_build [of SERVICE_NAME client "[(PARENT_ACTION_ID_LABEL, action)]"] show ?thesis
    by (simp add: create_label_selector_def get_label_selector_as_parent_def)
qed

text \<open>
  (C9) Cancelling a scheduled benchmark together with the benchmarks that it started deletes every object that
  was built for one of these, although they have actions of their own, and no object that belongs to
  another client, or neither to the scheduled benchmark nor to a benchmark that it started.
\<close>

theorem spawned_objects_cancelled:
  assumes built: "build T kind b = Inr b'" "b_root b = None" "feed_additional_template_values T kind b = Inr b1"
      "template_docs T b1 = Inr docs" "info_labels (info (b_descriptor b1)) = Some ls"
    and docs: "\<forall>d \<in> set docs. carries client action d"
    and own: "set (map fst ls) \<inter> {ACTION_ID_LABEL, CLIENT_ID_LABEL, CREATED_BY_LABEL} = {}"
    and par: "parent_action_id (b_event b1) = Some par" "par \<noteq> []" "kind \<noteq> ScheduledBuilder"
    and names: "plain_label client" "plain_label par"
    and kubectl: "kubectl_deletes K objs" "kubectl_raises K" and ok: "fst (k8s_cancel K client par True w) = Inr r"
  shows "(\<exists>h. b_root b' = Some h \<and>
      set (objects h) \<inter> set (objs (resources (snd (k8s_cancel K client par True w)))) = {}) \<and>
    (\<forall>obj \<in> set (objs (resources w)).
      dict_get (object_labels obj) CLIENT_ID_LABEL \<noteq> Some client \<or>
      dict_get (object_labels obj) ACTION_ID_LABEL \<noteq> Some par \<and> dict_get (object_labels obj) PARENT_ACTION_ID_LABEL \<noteq> Some par \<longrightarrow>
      obj \<in> set (objs (resources (snd (k8s_cancel K client par True w)))))"
proof -
  let ?w' = "snd (k8s_cancel K client par True w)" and ?types = "str_join '','' ALL_K8S_RESOURCE_TYPES"
  let ?hit = "\<lambda>as_parent obj. resource_type obj \<in> set (split_on (CHR '','') ?types) \<and>
    selects (create_label_selector client par as_parent) (object_labels obj)"
  from cascade_deletes [OF ok kubectl(2)] kubectl(1) obtain c where
    "objs c = filter (\<lambda>obj. \<not> ?hit False obj) (objs (resources w))" "objs (resources ?w') = filter (\<lambda>obj. \<not> ?hit True obj) (objs c)"
    unfolding kubectl_deletes_def by blast
  then have left: "set (objs (resources ?w')) = {obj \<in> set (objs (resources w)). \<not> ?hit False obj \<and> \<not> ?hit True obj}" by auto
  from build_child [OF built docs own par] obtain h where h: "b_root b' = Some h"
    "\<forall>obj \<in> set (objects h). sub_at obj (label_path PARENT_ACTION_ID_LABEL) = Some (PStr par)"
    by (auto simp: child_labelled_def)
  have "\<forall>obj \<in> set (objects h). carries client action obj \<and> resource_type obj \<in> set (split_on (CHR '','') ?types)"
    using built_carry [OF built docs own] h(1) by auto
  with h(2) have "\<forall>obj \<in> set (objects h). ?hit True obj"
    unfolding selects_parent [OF names] using object_label by (auto simp: carries_def)
  then have "set (objects h) \<inter> set (objs (resources ?w')) = {}" unfolding left by blast
  moreover have "\<not> ?hit False obj \<and> \<not> ?hit True obj" if "dict_get (object_labels obj) CLIENT_ID_LABEL \<noteq> Some client \<or>
      dict_get (object_labels obj) ACTION_ID_LABEL \<noteq> Some par \<and> dict_get (object_labels obj) PARENT_ACTION_ID_LABEL \<noteq> Some par" for obj
    using that selected_labels [OF names par(2)] by (auto simp: selects_parent [OF names])
  ultimately show ?thesis using h(1) unfolding left by blast
qed

section \<open>A schedule\<close>

definition demo_schedule :: "pyval dict" where
  "demo_schedule = [(''info'', PDict [(''scheduling'', PStr ''0 * * * *'')])]"

text \<open>An event with the given identifier, whose descriptor is \<open>demo_schedule\<close>.\<close>

definition demo_from_dict :: "pyval \<Rightarrow> benchmark_event res" where
  "demo_from_dict v =
     (case v of
        PDict d \<Rightarrow> (case dict_get d ''action_id'' of
            Some (PStr a) \<Rightarrow> Inr (sample_event a (FetcherPayload (demo_payload demo_schedule)))
          | _ \<Rightarrow> Inl (TypeError ''action_id''))
      | _ \<Rightarrow> Inl (TypeError ''data''))"

theorem scheduled_benchmark_spawned_witness:
  "\<exists>m1 m2 w'. cron_main demo_from_dict sample_emitter ''FETCHER'' (json_dumps (PDict [(''action_id'', PStr ''s'')]))
      (idle_world []) = (Inr 0, w') \<and> sent w' = [m1, m2] \<and> parent_action_id (km_value m1) = Some ''s''"
proof -
  have 1: "json_loads (json_dumps (PDict [(''action_id'', PStr ''s'')])) = Inr (PDict [(''action_id'', PStr ''s'')])" by code_simp
  have 2: "demo_from_dict (PDict [(''action_id'', PStr ''s'')]) = Inr (sample_event ''s'' (FetcherPayload (demo_payload demo_schedule)))"
    by (simp add: demo_from_dict_def)
  have 3: "payload (sample_event ''s'' (FetcherPayload (demo_payload demo_schedule))) = FetcherPayload (demo_payload demo_schedule)"
    by (simp add: sample_event_def)
  have 4: "dict_get (contents (toml (demo_payload demo_schedule))) ''info'' = Some (PDict [(''scheduling'', PStr ''0 * * * *'')])"
    by (simp add: demo_payload_def demo_schedule_def)
  have 5: "em_status_topic sample_emitter = Some ''BAI_APP_STATUS''" by (simp add: sample_emitter_def)
  have 6: "sent (idle_world []) = []" "action_id (sample_event ''s'' x) = ''s''" for x
    by (simp_all add: idle_world_def sample_event_def)
  from scheduled_benchmark_spawned [where from_dict = demo_from_dict and topic = "''FETCHER''" and w = "idle_world []", OF 1 2 3 4 _ 5]
  show ?thesis unfolding 6 by (auto simp: 6)
qed

definition demo_child :: builder where
  "demo_child = (demo_builder [(''team'', ''x'')])\<lparr>b_event := set_parent_action_id (Some ''s'') (sample_event ''a'' (AnyPayload PNone))\<rparr>"

definition demo_children :: k8s_helper where
  "demo_children = the (b_root (projr (build demo_transpiler SingleRunBuilder demo_child)))"

theorem spawned_objects_cancelled_witness:
  "objects demo_children \<noteq> [] \<and>
   set (objects demo_children) \<inter>
     set (resources (snd (k8s_cancel demo_engine ''c'' ''s'' True (demo_cluster (objects demo_children))))) = {}"
proof -
  let ?b1 = "projr (feed_additional_template_values demo_transpiler SingleRunBuilder demo_child)"
  let ?w = "demo_cluster (objects demo_children)"
  have "\<not> isl (build demo_transpiler SingleRunBuilder demo_child)" by code_simp
  then have 1: "build demo_transpiler SingleRunBuilder demo_child = Inr (projr (build demo_transpiler SingleRunBuilder demo_child))"
    by (simp add: sum.collapse)
  have 2: "b_root demo_child = None" by code_simp
  have "\<not> isl (feed_additional_template_values demo_transpiler SingleRunBuilder demo_child)" by code_simp
  then have 3: "feed_additional_template_values demo_transpiler SingleRunBuilder demo_child = Inr ?b1" by (simp add: sum.collapse)
  have "\<not> isl (template_docs demo_transpiler ?b1)" by code_simp
  then have 4: "template_docs demo_transpiler ?b1 = Inr (projr (template_docs demo_transpiler ?b1))" by (simp add: sum.collapse)
  have 5: "info_labels (info (b_descriptor ?b1)) = Some [(''team'', ''x'')]" by code_simp
  have "list_all (carries ''c'' ''a'') (projr (template_docs demo_transpiler ?b1))" by code_simp
  then have 6: "\<forall>d \<in> set (projr (template_docs demo_transpiler ?b1)). carries ''c'' ''a'' d" by (simp add: list_all_iff)
  have 7: "set (map fst [(''team'', ''x'')]) \<inter> {ACTION_ID_LABEL, CLIENT_ID_LABEL, CREATED_BY_LABEL} = {}"
    by (simp add: label_names)
  have 8: "parent_action_id (b_event ?b1) = Some ''s''" by code_simp
  have 9: "plain_label ''c''" "plain_label ''s''" by (simp_all add: plain_label_def)
  have raises: "kubectl_raises demo_engine"
    by (auto simp: kubectl_raises_def demo_engine_def demo_kubectl_def Let_def split: list.splits)
  have "\<not> isl (fst (k8s_cancel demo_engine ''c'' ''s'' True ?w))" by code_simp
  then obtain r where 10: "fst (k8s_cancel demo_engine ''c'' ''s'' True ?w) = Inr r"
    by (cases "fst (k8s_cancel demo_engine ''c'' ''s'' True ?w)") auto
  note cancelled = spawned_objects_cancelled [OF 1 2 3 4 5 6 7 8 _ _ 9 demo_kubectl_deletes raises 10]
  have "objects demo_children \<noteq> []" by code_simp
  moreover have "b_root (projr (build demo_transpiler SingleRunBuilder demo_child)) = Some demo_children"
    using cancelled by (auto simp: demo_children_def)
  ultimately show ?thesis using cancelled by auto
qed

end
