(* ===== verification/Job_Trigger.thy ===== *)
theory Job_Trigger
  imports Watcher
begin

text \<open>
  The sidecar that runs a command when a job reaches a status,
  \<open>job-status-trigger/src/bai_job_status_trigger/\<close> (\<open>__main__.py\<close>, the statuses of \<open>args.py\<close>).  It watches
  the job with the thread of \<open>job_watcher.py\<close>, that is \<open>thread_run_loop\<close>.

  The clock is any function, in milliseconds.  What the rounds of the watcher read is the list given to
  \<open>trigger_main\<close>; a command that fails raises in \<open>check_output\<close>.
\<close>

section \<open>Statuses in the arguments\<close>

fun job_status_value :: "benchmark_job_status \<Rightarrow> string" where
  "job_status_value JS_SUCCEEDED = ''SUCCEEDED''"
| "job_status_value JS_FAILED = ''FAILED''"
| "job_status_value NO_POD_SCHEDULED = ''NO_POD_SCHEDULED''"
| "job_status_value JOB_NOT_FOUND = ''JOB_NOT_FOUND''"
| "job_status_value FAILED_AT_BENCHMARK_CONTAINER = ''FAILED_AT_BENCHMARK_CONTAINER''"
| "job_status_value FAILED_AT_SIDECAR_CONTAINER = ''FAILED_AT_SIDECAR_CONTAINER''"
| "job_status_value FAILED_AT_INIT_CONTAINERS = ''FAILED_AT_INIT_CONTAINERS''"
| "job_status_value PENDING_AT_BENCHMARK_CONTAINER = ''PENDING_AT_BENCHMARK_CONTAINER''"
| "job_status_value PENDING_AT_SIDECAR_CONTAINER = ''PENDING_AT_SIDECAR_CONTAINER''"
| "job_status_value PENDING_AT_INIT_CONTAINERS = ''PENDING_AT_INIT_CONTAINERS''"
| "job_status_value PENDING_NODE_SCALING = ''PENDING_NODE_SCALING''"
| "job_status_value RUNNING_AT_INIT_CONTAINERS = ''RUNNING_AT_INIT_CONTAINERS''"
| "job_status_value RUNNING_AT_MAIN_CONTAINERS = ''RUNNING_AT_MAIN_CONTAINERS''"
| "job_status_value SM_STOPPED = ''STOPPED''"
| "job_status_value SM_INTERRUPTED = ''SM_INTERRUPTED''"
| "job_status_value SM_FAILED_MAX_RUNTIME_EXCEEDED = ''SM_FAILED_MAX_RUNTIME_EXCEEDED''"
| "job_status_value SM_FAILED_MAX_WAITTIME_EXCEEDED = ''SM_FAILED_MAX_WAITTIME_EXCEEDED''"
| "job_status_value SM_IN_PROGRESS_STARTING = ''SM_IN_PROGRESS_STARTING''"
| "job_status_value SM_IN_PROGRESS_LAUNCHING_ML_INSTANCES = ''SM_IN_PROGRESS_LAUNCHING_ML_INSTANCES''"
| "job_status_value SM_IN_PROGRESS_PREP_TRAINING_STACK = ''SM_IN_PROGRESS_PREP_TRAINING_STACK''"
| "job_status_value SM_IN_PROGRESS_DOWNLOADING = ''SM_IN_PROGRESS_DOWNLOADING''"
| "job_status_value SM_IN_PROGRESS_DOWNLOADING_TRAINING_IMG = ''SM_IN_PROGRESS_DOWNLOADING_TRAINING_IMG''"
| "job_status_value SM_IN_PROGRESS_TRAINING = ''SM_IN_PROGRESS_TRAINING''"
| "job_status_value SM_IN_PROGRESS_UPLOADING = ''SM_IN_PROGRESS_UPLOADING''"
| "job_status_value SM_UNKNOWN = ''SM_UNKNOWN''"
| "job_status_value SM_STOPPING = ''SM_STOPPING''"

definition all_job_statuses :: "benchmark_job_status list" where
  "all_job_statuses =
     [JS_SUCCEEDED, JS_FAILED, NO_POD_SCHEDULED, JOB_NOT_FOUND, FAILED_AT_BENCHMARK_CONTAINER, FAILED_AT_SIDECAR_CONTAINER,
      FAILED_AT_INIT_CONTAINERS, PENDING_AT_BENCHMARK_CONTAINER, PENDING_AT_SIDECAR_CONTAINER, PENDING_AT_INIT_CONTAINERS,
      PENDING_NODE_SCALING, RUNNING_AT_INIT_CONTAINERS, RUNNING_AT_MAIN_CONTAINERS, SM_STOPPED, SM_INTERRUPTED,
      SM_FAILED_MAX_RUNTIME_EXCEEDED, SM_FAILED_MAX_WAITTIME_EXCEEDED, SM_IN_PROGRESS_STARTING,
      SM_IN_PROGRESS_LAUNCHING_ML_INSTANCES, SM_IN_PROGRESS_PREP_TRAINING_STACK, SM_IN_PROGRESS_DOWNLOADING,
      SM_IN_PROGRESS_DOWNLOADING_TRAINING_IMG, SM_IN_PROGRESS_TRAINING, SM_IN_PROGRESS_UPLOADING, SM_UNKNOWN, SM_STOPPING]"

definition is_list_char :: "char \<Rightarrow> bool" where
  "is_list_char c \<longleftrightarrow> c = CHR '' '' \<or> c = CHR 0x09 \<or> c = CHR '',''"

definition benchmark_status_from_input :: "string \<Rightarrow> benchmark_job_status res" where
  "benchmark_status_from_input s =
     (let t = rev (dropWhile is_list_char (rev (dropWhile is_list_char s))) in
      case List.find (\<lambda>st. job_status_value st = t) all_job_statuses of
        Some st \<Rightarrow> Inr st
      | None \<Rightarrow> Inl (ValueError (t @ '' is not a valid BenchmarkJobStatus'')))"

section \<open>The callback\<close>

record trigger_world =
  job_seen :: bool
  tr_clock :: "nat \<Rightarrow> int"
  tr_reads :: nat
  tr_commands :: "string list"

definition trigger_time :: "(trigger_world, int) py" where
  "trigger_time = (\<lambda>w. (Inr (tr_clock w (tr_reads w)), w\<lparr>tr_reads := Suc (tr_reads w)\<rparr>))"

text \<open>\<open>int\<close> of a number of seconds that is given in milliseconds: it rounds towards zero.\<close>

definition whole_seconds :: "int \<Rightarrow> int" where
  "whole_seconds ms = (if 0 \<le> ms then ms div 1000 else - ((- ms) div 1000))"

definition status_trigger_callback ::
  "benchmark_job_status list \<Rightarrow> int \<Rightarrow> int \<Rightarrow> string \<Rightarrow> benchmark_job_status \<Rightarrow> (trigger_world, bool) py" where
  "status_trigger_callback trigger_statuses grace started job_name job_status = (\<lambda>w.
     if \<not> job_seen w \<and> job_status = JOB_NOT_FOUND then
       py_bind trigger_time (\<lambda>t.
         let elapsed = whole_seconds (t - started * 1000) in
         if elapsed \<ge> grace then py_raise (RuntimeError (''Could not find job within '' @ show_int grace @ '' seconds''))
         else py_return False) w
     else
       (let w = w\<lparr>job_seen := True\<rparr> in
        if job_status \<in> set trigger_statuses \<and> job_seen w then (Inr True, w)
        else if job_status \<in> {JOB_NOT_FOUND, JS_FAILED, JS_SUCCEEDED} then
          (Inl (RuntimeError (''Job '' @ job_name @ '' reached final state BenchmarkJobStatus.'' @ job_status_value job_status @
             '' before reaching any trigger status.'')), w)
        else (Inr False, w)))"

definition make_trigger_callback ::
  "benchmark_job_status list \<Rightarrow> int \<Rightarrow> (trigger_world, string \<Rightarrow> benchmark_job_status \<Rightarrow> (trigger_world, bool) py) py" where
  "make_trigger_callback trigger_statuses grace =
     py_then (py_modify (\<lambda>w. w\<lparr>job_seen := False\<rparr>))
       (py_bind trigger_time (\<lambda>t. py_return (status_trigger_callback trigger_statuses grace (whole_seconds t))))"

record trigger_config =
  tc_job_name :: string
  tc_trigger_statuses :: "benchmark_job_status list"
  tc_grace :: int
  tc_command :: string

text \<open>The exit code; \<open>None\<close> while the job is still watched.\<close>

definition trigger_main ::
  "(string \<Rightarrow> unit res) \<Rightarrow> trigger_config \<Rightarrow> benchmark_job_status res list \<Rightarrow> (trigger_world, nat option) py" where
  "trigger_main check_output cfg rounds =
     py_bind (make_trigger_callback (tc_trigger_statuses cfg) (tc_grace cfg)) (\<lambda>callback w.
       case thread_run_loop (callback (tc_job_name cfg)) rounds w of
         (StillWatching, w) \<Rightarrow> (Inr None, w)
       | (WatchDone, w) \<Rightarrow>
           (case check_output (tc_command cfg) of
              Inr _ \<Rightarrow> (Inr (Some 0), w\<lparr>tr_commands := tr_commands w @ [tc_command cfg]\<rparr>)
            | Inl e \<Rightarrow> (Inl e, w\<lparr>tr_commands := tr_commands w @ [tc_command cfg]\<rparr>))
       | (WatchFailed _, w) \<Rightarrow> (Inr (Some 1), w))"

section \<open>When the command is run\<close>

lemma status_input_roundtrip: "benchmark_status_from_input (job_status_value s @ '','') = Inr s"
  by (cases s) (simp_all add: benchmark_status_from_input_def is_list_char_def all_job_statuses_def)

definition trigger_ends :: "benchmark_job_status list \<Rightarrow> benchmark_job_status \<Rightarrow> bool" where
  "trigger_ends triggers s \<longleftrightarrow> s \<in> set triggers \<or> s \<in> {JOB_NOT_FOUND, JS_FAILED, JS_SUCCEEDED}"

text \<open>Whether the \<open>k\<close>-th round after the start is in the grace period.\<close>

definition in_grace :: "trigger_config \<Rightarrow> trigger_world \<Rightarrow> nat \<Rightarrow> bool" where
  "in_grace cfg w k \<longleftrightarrow>
     whole_seconds (tr_clock w (tr_reads w + Suc k) - whole_seconds (tr_clock w (tr_reads w)) * 1000) < tc_grace cfg"

lemma waiting_rounds:
  assumes "\<not> job_seen w" and "\<forall>k < n. whole_seconds (tr_clock w (tr_reads w + k) - started * 1000) < grace"
  shows "thread_run_loop (status_trigger_callback triggers grace started i) (replicate n (Inr JOB_NOT_FOUND) @ rs) w =
    thread_run_loop (status_trigger_callback triggers grace started i) rs (w\<lparr>tr_reads := tr_reads w + n\<rparr>)"
  using assms
proof (induction n arbitrary: w)
  case (Suc n)
  let ?w = "w\<lparr>tr_reads := Suc (tr_reads w)\<rparr>"
  have "whole_seconds (tr_clock w (tr_reads w) - started * 1000) < grace" using Suc.prems(2) by force
  moreover have "\<forall>k < n. whole_seconds (tr_clock ?w (tr_reads ?w + k) - started * 1000) < grace" using Suc.prems(2) by force
  ultimately show ?case using Suc.IH [of ?w] Suc.prems(1)
    by (simp add: status_trigger_callback_def trigger_time_def py_simps Let_def)
qed simp

lemma seen_rounds:
  assumes "\<forall>x \<in> set ss. \<not> trigger_ends triggers x"
  shows "thread_run_loop (status_trigger_callback triggers grace started i) (map Inr ss @ rs) w =
    thread_run_loop (status_trigger_callback triggers grace started i) rs (if ss = [] then w else w\<lparr>job_seen := True\<rparr>)"
  using assms
proof (induction ss arbitrary: w)
  case (Cons x ss)
  then show ?case using Cons.IH [of "w\<lparr>job_seen := True\<rparr>"]
    by (simp add: status_trigger_callback_def trigger_ends_def)
qed simp

lemma last_round:
  assumes "trigger_ends triggers s" and "job_seen w \<or> s \<noteq> JOB_NOT_FOUND"
  shows "\<exists>x. thread_run_loop (status_trigger_callback triggers grace started i) (Inr s # rs) w =
    (if s \<in> set triggers then WatchDone else WatchFailed x, w\<lparr>job_seen := True\<rparr>)"
  using assms by (auto simp: status_trigger_callback_def trigger_ends_def)

lemma trigger_main_run:
  "trigger_main check_output cfg rounds w =
     (case thread_run_loop (status_trigger_callback (tc_trigger_statuses cfg) (tc_grace cfg)
           (whole_seconds (tr_clock w (tr_reads w))) (tc_job_name cfg)) rounds
         (w\<lparr>job_seen := False, tr_reads := Suc (tr_reads w)\<rparr>) of
       (StillWatching, w) \<Rightarrow> (Inr None, w)
     | (WatchDone, w) \<Rightarrow>
         (case check_output (tc_command cfg) of
            Inr _ \<Rightarrow> (Inr (Some 0), w\<lparr>tr_commands := tr_commands w @ [tc_command cfg]\<rparr>)
          | Inl e \<Rightarrow> (Inl e, w\<lparr>tr_commands := tr_commands w @ [tc_command cfg]\<rparr>))
     | (WatchFailed _, w) \<Rightarrow> (Inr (Some 1), w))"
  by (simp add: trigger_main_def make_trigger_callback_def trigger_time_def py_simps)

text \<open>
  (C16) A job that is not found at first is waited for in the grace period.  From then on the first status that
  is a trigger or one of the three that end a watch decides: the command is run, once, if it is a
  trigger, and otherwise the program fails and the command is not run.  A job that is not found in the
  grace period makes the program fail too.
\<close>

theorem trigger_decides:
  assumes grace: "\<forall>k < n. in_grace cfg w k"
    and ss: "\<forall>x \<in> set ss. \<not> trigger_ends (tc_trigger_statuses cfg) x"
    and s: "trigger_ends (tc_trigger_statuses cfg) s"
    and late: "ss = [] \<and> s = JOB_NOT_FOUND \<longrightarrow> \<not> in_grace cfg w n"
  shows "(let (r, w') = trigger_main check_output cfg (replicate n (Inr JOB_NOT_FOUND) @ map Inr ss @ Inr s # rest) w in
    if s \<in> set (tc_trigger_statuses cfg) \<and> \<not> (ss = [] \<and> s = JOB_NOT_FOUND)
    then tr_commands w' = tr_commands w @ [tc_command cfg] \<and>
      r = (case check_output (tc_command cfg) of Inl e \<Rightarrow> Inl e | Inr _ \<Rightarrow> Inr (Some 0))
    else tr_commands w' = tr_commands w \<and> r = Inr (Some 1))"
proof -
  let ?w0 = "w\<lparr>job_seen := False, tr_reads := Suc (tr_reads w)\<rparr>"
  let ?loop = "thread_run_loop (status_trigger_callback (tc_trigger_statuses cfg) (tc_grace cfg)
    (whole_seconds (tr_clock w (tr_reads w))) (tc_job_name cfg))"
  let ?w1 = "?w0\<lparr>tr_reads := tr_reads ?w0 + n\<rparr>"
  let ?w2 = "if ss = [] then ?w1 else ?w1\<lparr>job_seen := True\<rparr>"
  have loop: "?loop (replicate n (Inr JOB_NOT_FOUND) @ map Inr ss @ Inr s # rest) ?w0 = ?loop (Inr s # rest) ?w2"
    using waiting_rounds [of ?w0 n "whole_seconds (tr_clock w (tr_reads w))" "tc_grace cfg"] grace seen_rounds [OF ss]
    by (simp add: in_grace_def)
  show ?thesis
  proof (cases "ss = [] \<and> s = JOB_NOT_FOUND")
    case True
    then have "\<exists>x w3. ?loop (Inr s # rest) ?w2 = (WatchFailed x, w3) \<and> tr_commands w3 = tr_commands w"
      using late by (simp add: status_trigger_callback_def trigger_time_def py_simps in_grace_def Let_def)
    with True loop show ?thesis by (auto simp: trigger_main_run)
  next
    case False
    then have "job_seen ?w2 \<or> s \<noteq> JOB_NOT_FOUND" by auto
    from last_round [OF s this] obtain x where
      "?loop (Inr s # rest) ?w2 = (if s \<in> set (tc_trigger_statuses cfg) then WatchDone else WatchFailed x, ?w2\<lparr>job_seen := True\<rparr>)"
      by blast
    with False loop show ?thesis by (auto simp: trigger_main_run split: sum.splits)
  qed
qed

definition demo_trigger :: trigger_config where
  "demo_trigger = \<lparr>tc_job_name = ''b-1'', tc_trigger_statuses = [RUNNING_AT_MAIN_CONTAINERS, JS_SUCCEEDED], tc_grace = 30,
     tc_command = ''echo''\<rparr>"

definition demo_trigger_world :: trigger_world where
  "demo_trigger_world = \<lparr>job_seen = False, tr_clock = (\<lambda>k. int k * 5000), tr_reads = 0, tr_commands = []\<rparr>"

theorem trigger_decides_witness:
  "tr_commands (snd (trigger_main (\<lambda>_. Inr ()) demo_trigger
     ([Inr JOB_NOT_FOUND, Inr PENDING_NODE_SCALING, Inr RUNNING_AT_MAIN_CONTAINERS]) demo_trigger_world)) = [''echo''] \<and>
   fst (trigger_main (\<lambda>_. Inr ()) demo_trigger (replicate 7 (Inr JOB_NOT_FOUND)) demo_trigger_world) = Inr (Some 1)"
proof -
  have "\<forall>k < 1. in_grace demo_trigger demo_trigger_world k" by (simp add: in_grace_def demo_trigger_def demo_trigger_world_def whole_seconds_def)
  from trigger_decides [OF this, of "[PENDING_NODE_SCALING]" RUNNING_AT_MAIN_CONTAINERS "\<lambda>_. Inr ()" "[]"]
  have 1: "tr_commands (snd (trigger_main (\<lambda>_. Inr ()) demo_trigger
     ([Inr JOB_NOT_FOUND, Inr PENDING_NODE_SCALING, Inr RUNNING_AT_MAIN_CONTAINERS]) demo_trigger_world)) = [''echo'']"
    by (simp add: trigger_ends_def demo_trigger_def demo_trigger_world_def split: prod.splits)
  have g: "\<forall>k < 5. in_grace demo_trigger demo_trigger_world k" "\<not> in_grace demo_trigger demo_trigger_world 5"
    by (simp_all add: in_grace_def demo_trigger_def demo_trigger_world_def whole_seconds_def)
  have rounds: "replicate 5 (Inr JOB_NOT_FOUND) @ Inr JOB_NOT_FOUND # [Inr JOB_NOT_FOUND] = (replicate 7 (Inr JOB_NOT_FOUND) :: benchmark_job_status res list)"
    by (simp add: numeral_eq_Suc)
  from trigger_decides [OF g(1), of "[]" JOB_NOT_FOUND "\<lambda>_. Inr ()" "[Inr JOB_NOT_FOUND]"] g(2)
  have "fst (trigger_main (\<lambda>_. Inr ()) demo_trigger (replicate 7 (Inr JOB_NOT_FOUND)) demo_trigger_world) = Inr (Some 1)"
    unfolding rounds [symmetric] by (simp add: trigger_ends_def split: prod.splits)
  with 1 show ?thesis by blast
qed

end
