(* ===== verification/Cloudwatch.thy ===== *)
theory Cloudwatch
  imports Metrics
begin

text \<open>
  The export of metrics to CloudWatch, \<open>cloudwatch-exporter/src/cloudwatch_exporter/cloudwatch_exporter.py\<close>:
  the data points and the dashboards with a widget per metric.

  The CloudWatch client is a parameter, a record of its four methods on a state of any type.  A value is
  exported as it arrives; a string is accepted if Python's \<open>float\<close> accepts it.  The service runs its
  handler on one event after the other, and an exception ends the handling of one event only, as in
  \<open>KafkaService\<close>.
\<close>

section \<open>Data points\<close>

record metrics_event =
  mv_name :: string
  mv_value :: pyval
  mv_timestamp :: int
  mv_labels :: "string dict option"

definition CLOUDWATCH_MAX_DIMENSIONS :: nat where "CLOUDWATCH_MAX_DIMENSIONS = 10"

definition NOT_EXPORTED_LABELS :: "string list" where
  "NOT_EXPORTED_LABELS = [''action-id'', ''parent-action-id'', ''client-id'', ''dashboard-name'', ''region'']"

definition exported :: "string dict \<Rightarrow> string dict" where
  "exported labels = filter (\<lambda>(n, _). n \<notin> set NOT_EXPORTED_LABELS) labels"

definition event_dimensions :: "string dict \<Rightarrow> string dict" where
  "event_dimensions labels =
     (let dimensions = exported labels in
      if length dimensions > CLOUDWATCH_MAX_DIMENSIONS then take 10 dimensions else dimensions)"

text \<open>The strings that \<open>float\<close> accepts.\<close>

definition digit_part :: "string \<Rightarrow> bool" where
  "digit_part s = list_all (\<lambda>d. d \<noteq> [] \<and> list_all is_digit d) (split_on (CHR ''_'') s)"

definition unsigned :: "string \<Rightarrow> string" where
  "unsigned s = (case s of c # r \<Rightarrow> if c = CHR ''+'' \<or> c = CHR ''-'' then r else s | [] \<Rightarrow> [])"

definition mantissa :: "string \<Rightarrow> bool" where
  "mantissa s =
     (case split_on (CHR ''.'') s of
        [a] \<Rightarrow> digit_part a
      | [a, b] \<Rightarrow> (a \<noteq> [] \<or> b \<noteq> []) \<and> (a = [] \<or> digit_part a) \<and> (b = [] \<or> digit_part b)
      | _ \<Rightarrow> False)"

definition float_text :: "string \<Rightarrow> bool" where
  "float_text s =
     (let t = str_lower (unsigned (str_strip s)) in
      t \<in> {''inf'', ''infinity'', ''nan''} \<or>
      (case split_on (CHR ''e'') t of
         [m] \<Rightarrow> mantissa m
       | [m, x] \<Rightarrow> mantissa m \<and> digit_part (unsigned x)
       | _ \<Rightarrow> False))"

definition float_value :: "pyval \<Rightarrow> pyval res" where
  "float_value v =
     (case v of
        PInt i \<Rightarrow> Inr v
      | PBool b \<Rightarrow> Inr (PInt (if b then 1 else 0))
      | PStr s \<Rightarrow> if float_text s then Inr v else Inl (ValueError ''could not convert string to float'')
      | _ \<Rightarrow> Inl (TypeError ''float() argument must be a string or a number''))"

record metric_datum =
  md_name :: string
  md_dimensions :: "string dict"
  md_value :: pyval
  md_timestamp :: int

record 'c cloudwatch =
  cw_put_metric_data :: "metric_datum \<Rightarrow> ('c, unit) py"
  cw_list_dashboards :: "('c, string list) py"
  cw_get_dashboard :: "string \<Rightarrow> ('c, string) py"
  cw_put_dashboard :: "string \<Rightarrow> string \<Rightarrow> ('c, unit) py"

section \<open>Dashboards\<close>

definition create_dashboard_metric :: "string dict \<Rightarrow> string \<Rightarrow> pyval" where
  "create_dashboard_metric labels mname =
     PList ([PStr ''ANUBIS/METRICS'', PStr mname] @ concat (map (\<lambda>(n, v). [PStr n, PStr v]) (exported labels)))"

definition dict_item :: "'v dict \<Rightarrow> string \<Rightarrow> 'v res" where
  "dict_item d k = (case dict_get d k of Some v \<Rightarrow> Inr v | None \<Rightarrow> Inl (KeyError k))"

definition metric_widget :: "string dict \<Rightarrow> pyval \<Rightarrow> pyval res" where
  "metric_widget labels metric =
     res_bind (dict_item labels ''region'') (\<lambda>rg.
     res_bind (dict_item labels ''task_name'') (\<lambda>title.
       Inr (PDict [(''type'', PStr ''metric''),
         (''properties'', PDict [(''metrics'', PList [metric]), (''region'', PStr rg), (''title'', PStr title),
            (''period'', PInt 86400)])])))"

text \<open>\<open>v[k]\<close>, \<open>"metrics" in v\<close> and \<open>v[0]\<close> for values that were read from JSON.\<close>

definition py_item :: "pyval \<Rightarrow> string \<Rightarrow> pyval res" where
  "py_item v k = (case v of PDict d \<Rightarrow> dict_item d k | _ \<Rightarrow> Inl (TypeError ''indices must be integers''))"

definition py_in :: "string \<Rightarrow> pyval \<Rightarrow> bool res" where
  "py_in k v =
     (case v of
        PDict d \<Rightarrow> Inr (dict_has d k)
      | PList xs \<Rightarrow> Inr (PStr k \<in> set xs)
      | PStr s \<Rightarrow> Inr (str_contains s k)
      | _ \<Rightarrow> Inl (TypeError ''argument is not iterable''))"

definition py_first :: "pyval \<Rightarrow> pyval res" where
  "py_first v =
     (case v of
        PList (x # _) \<Rightarrow> Inr x
      | PList [] \<Rightarrow> Inl IndexError
      | PStr (c # _) \<Rightarrow> Inr (PStr [c])
      | PStr [] \<Rightarrow> Inl IndexError
      | PDict _ \<Rightarrow> Inl (KeyError ''0'')
      | _ \<Rightarrow> Inl (TypeError ''object is not subscriptable''))"

text \<open>The first metric of a widget, if it has metrics.\<close>

definition widget_metric :: "pyval \<Rightarrow> pyval option res" where
  "widget_metric widget =
     res_bind (py_item widget ''properties'') (\<lambda>properties.
     res_bind (py_in ''metrics'' properties) (\<lambda>b.
       if b then res_bind (py_item properties ''metrics'') (\<lambda>ms. res_bind (py_first ms) (\<lambda>m. Inr (Some m)))
       else Inr None))"

fun has_widget :: "pyval \<Rightarrow> pyval list \<Rightarrow> bool res" where
  "has_widget metric [] = Inr False"
| "has_widget metric (w # ws) =
     res_bind (widget_metric w) (\<lambda>m. if m = Some metric then Inr True else has_widget metric ws)"

definition widgets_of :: "pyval \<Rightarrow> pyval list res" where
  "widgets_of body =
     res_bind (py_item body ''widgets'') (\<lambda>v.
       case v of
         PList ws \<Rightarrow> Inr ws
       | PStr s \<Rightarrow> Inl (if s = [] then AttributeError ''append'' else TypeError ''string indices must be integers'')
       | PDict d \<Rightarrow> Inl (if d = [] then AttributeError ''append'' else TypeError ''string indices must be integers'')
       | _ \<Rightarrow> Inl (TypeError ''object is not iterable''))"

text \<open>The new body, or \<open>None\<close> if the metric is in the dashboard already.\<close>

definition updated_body :: "string dict \<Rightarrow> string \<Rightarrow> string \<Rightarrow> string option res" where
  "updated_body labels mname text =
     res_bind (json_loads text) (\<lambda>body.
       let metric = create_dashboard_metric labels mname in
       res_bind (widgets_of body) (\<lambda>ws.
       res_bind (has_widget metric ws) (\<lambda>found.
         if found then Inr None
         else
           res_bind (metric_widget labels metric) (\<lambda>widget.
             case body of
               PDict d \<Rightarrow> Inr (Some (json_dumps (PDict (dict_set d ''widgets'' (PList (ws @ [widget]))))))
             | _ \<Rightarrow> Inl (TypeError ''indices must be integers'')))))"

definition update_dashboard :: "'c cloudwatch \<Rightarrow> string dict \<Rightarrow> string \<Rightarrow> ('c, unit) py" where
  "update_dashboard A labels mname =
     py_bind (py_lift (dict_item labels ''dashboard-name'')) (\<lambda>dname.
     py_bind (cw_get_dashboard A dname) (\<lambda>text.
     py_bind (py_lift (updated_body labels mname text)) (\<lambda>body.
       case body of
         None \<Rightarrow> py_return ()
       | Some b \<Rightarrow> cw_put_dashboard A dname b)))"

definition create_dashboard :: "'c cloudwatch \<Rightarrow> string dict \<Rightarrow> string \<Rightarrow> ('c, unit) py" where
  "create_dashboard A labels mname =
     py_bind (py_lift (metric_widget labels (create_dashboard_metric labels mname))) (\<lambda>widget.
     py_bind (py_lift (dict_item labels ''dashboard-name'')) (\<lambda>dname.
       cw_put_dashboard A dname (json_dumps (PDict [(''widgets'', PList [widget])]))))"

definition check_dashboard :: "'c cloudwatch \<Rightarrow> string dict \<Rightarrow> string \<Rightarrow> ('c, unit) py" where
  "check_dashboard A labels mname =
     (case dict_get labels ''dashboard-name'' of
        None \<Rightarrow> py_return ()
      | Some dname \<Rightarrow>
          py_bind (cw_list_dashboards A) (\<lambda>names.
            if dname \<in> set names then update_dashboard A labels mname
            else create_dashboard A labels mname))"

section \<open>The handler\<close>

definition exporter_handle_event :: "'c cloudwatch \<Rightarrow> metrics_event \<Rightarrow> ('c, unit) py" where
  "exporter_handle_event A e =
     (case mv_labels e of
        None \<Rightarrow> py_raise (AttributeError ''items'')
      | Some labels \<Rightarrow>
          py_bind (py_lift (float_value (mv_value e))) (\<lambda>v.
          py_then
            (cw_put_metric_data A \<lparr>md_name = mv_name e, md_dimensions = event_dimensions labels, md_value = v,
               md_timestamp = mv_timestamp e\<rparr>)
            (check_dashboard A (if dict_has labels ''region'' then labels else dict_set labels ''region'' ''us-east-1'')
              (mv_name e))))"

definition exporter_run :: "'c cloudwatch \<Rightarrow> metrics_event list \<Rightarrow> ('c, unit) py" where
  "exporter_run A events = py_for events (\<lambda>e. py_catch (exporter_handle_event A e) (\<lambda>_. py_return ()))"

section \<open>What the exporter relies on\<close>

text \<open>
  \<open>dash\<close> is the text of each dashboard.  A call that raises changes none, a body that was put is the new
  text, what is got is the text, and what is listed exists: \<open>list_dashboards\<close> returns a page, which need
  not contain all.
\<close>

definition cw_ok :: "'c cloudwatch \<Rightarrow> ('c \<Rightarrow> string \<rightharpoonup> string) \<Rightarrow> bool" where
  "cw_ok A dash \<longleftrightarrow>
     (\<forall>m c. dash (snd (cw_put_metric_data A m c)) = dash c) \<and>
     (\<forall>c. dash (snd (cw_list_dashboards A c)) = dash c \<and>
        (\<forall>ns. fst (cw_list_dashboards A c) = Inr ns \<longrightarrow> set ns \<subseteq> dom (dash c))) \<and>
     (\<forall>n c. dash (snd (cw_get_dashboard A n c)) = dash c \<and>
        (\<forall>b. fst (cw_get_dashboard A n c) = Inr b \<longrightarrow> dash c n = Some b)) \<and>
     (\<forall>n b c. dash (snd (cw_put_dashboard A n b c)) =
        (case fst (cw_put_dashboard A n b c) of Inr _ \<Rightarrow> (dash c)(n \<mapsto> b) | Inl _ \<Rightarrow> dash c))"

text \<open>The client answers, and all dashboards fit on the page.\<close>

definition cw_answers :: "'c cloudwatch \<Rightarrow> ('c \<Rightarrow> string \<rightharpoonup> string) \<Rightarrow> bool" where
  "cw_answers A dash \<longleftrightarrow>
     (\<forall>c. \<exists>ns. fst (cw_list_dashboards A c) = Inr ns \<and> set ns = dom (dash c)) \<and>
     (\<forall>n c. n \<in> dom (dash c) \<longrightarrow> (\<exists>b. fst (cw_get_dashboard A n c) = Inr b)) \<and>
     (\<forall>n b c. fst (cw_put_dashboard A n b c) = Inr ())"

section \<open>Widgets\<close>

text \<open>A body with these entries and widgets, the first metrics of the widgets being \<open>ms\<close>.\<close>

definition body_is :: "string \<Rightarrow> pyval dict \<Rightarrow> pyval list \<Rightarrow> pyval option list \<Rightarrow> bool" where
  "body_is text d ws ms \<longleftrightarrow>
     json_loads text = Inr (PDict d) \<and> json_wf (PDict d) \<and> dict_get d ''widgets'' = Some (PList ws) \<and>
     res_map widget_metric ws = Inr ms"

definition body_ok :: "string \<Rightarrow> bool" where
  "body_ok text \<longleftrightarrow> (\<exists>d ws ms. body_is text d ws ms \<and> distinct (filter (\<lambda>m. m \<noteq> None) ms))"

definition dash_inv :: "('c \<Rightarrow> string \<rightharpoonup> string) \<Rightarrow> 'c \<Rightarrow> bool" where
  "dash_inv dash c \<longleftrightarrow> (\<forall>n b. dash c n = Some b \<longrightarrow> body_ok b)"

lemma has_widget_iff: "res_map widget_metric ws = Inr ms \<Longrightarrow> has_widget m ws = Inr (Some m \<in> set ms)"
  by (induction ws arbitrary: ms) auto

lemma metric_widget_metric:
  assumes "metric_widget labels m = Inr w"
  shows "widget_metric w = Inr (Some m)" and "json_wf m \<Longrightarrow> json_wf w"
  using assms
  by (auto simp: metric_widget_def widget_metric_def py_item_def py_in_def py_first_def dict_item_def dict_has_def dict_wf_def)

lemma json_wf_metric: "json_wf (create_dashboard_metric labels n)"
  by (auto simp: create_dashboard_metric_def)

lemma res_map_append: "res_map f (xs @ ys) = res_bind (res_map f xs) (\<lambda>a. res_bind (res_map f ys) (\<lambda>b. Inr (a @ b)))"
  by (induction xs) (simp_all add: res_bind_assoc, cases "res_map f ys", simp_all)

definition with_widget :: "pyval dict \<Rightarrow> pyval list \<Rightarrow> pyval \<Rightarrow> string" where
  "with_widget d ws w = json_dumps (PDict (dict_set d ''widgets'' (PList (ws @ [w]))))"

lemma with_widget_is:
  assumes "json_wf (PDict d)" "\<forall>w \<in> set ws. json_wf w" "json_wf w" "res_map widget_metric ws = Inr ms" "widget_metric w = Inr m"
  shows "body_is (with_widget d ws w) (dict_set d ''widgets'' (PList (ws @ [w]))) (ws @ [w]) (ms @ [m])"
proof -
  have "json_wf (PList (ws @ [w]))" using assms(2,3) by auto
  then have "json_wf (PDict (dict_set d ''widgets'' (PList (ws @ [w]))))" using assms(1) json_wf_set by blast
  with json_codec.roundtrip [OF this] assms(4,5) show ?thesis
    by (simp add: body_is_def with_widget_def res_map_append del: json_dumps.simps json_wf.simps)
qed

lemma body_widgets_wf: "body_is text d ws ms \<Longrightarrow> \<forall>w \<in> set ws. json_wf w"
  using json_wf_get [of d "''widgets''"] by (auto simp: body_is_def)

lemma updated_body_run:
  assumes "body_is text d ws ms"
  shows "updated_body labels n text =
    (if Some (create_dashboard_metric labels n) \<in> set ms then Inr None
     else res_bind (metric_widget labels (create_dashboard_metric labels n)) (\<lambda>w. Inr (Some (with_widget d ws w))))"
  using assms has_widget_iff [of ws ms]
  by (simp add: updated_body_def body_is_def widgets_of_def py_item_def dict_item_def with_widget_def Let_def)

lemma updated_body_ok:
  assumes "body_ok text" "updated_body labels n text = Inr (Some b)"
  shows "body_ok b"
proof -
  let ?m = "create_dashboard_metric labels n"
  obtain d ws ms where is_: "body_is text d ws ms" and dist: "distinct (filter (\<lambda>m. m \<noteq> None) ms)"
    using assms(1) by (auto simp: body_ok_def)
  with assms(2) obtain w where w: "Some ?m \<notin> set ms" "metric_widget labels ?m = Inr w" "b = with_widget d ws w"
    by (auto simp: updated_body_run split: if_splits)
  from is_ have "body_is b (dict_set d ''widgets'' (PList (ws @ [w]))) (ws @ [w]) (ms @ [Some ?m])"
    unfolding w(3) using body_widgets_wf [OF is_] metric_widget_metric [OF w(2)] json_wf_metric
    by (intro with_widget_is) (simp_all add: body_is_def)
  moreover have "distinct (filter (\<lambda>m. m \<noteq> None) (ms @ [Some ?m]))" using dist w(1) by simp
  ultimately show ?thesis unfolding body_ok_def by blast
qed

lemma created_body:
  assumes "metric_widget labels (create_dashboard_metric labels n) = Inr w"
  shows "body_is (json_dumps (PDict [(''widgets'', PList [w])])) [(''widgets'', PList [w])] [w]
    [Some (create_dashboard_metric labels n)]"
proof -
  have "json_wf w" using metric_widget_metric(2) [OF assms json_wf_metric] .
  then have "json_wf (PDict [(''widgets'', PList [w])])" by (simp add: dict_wf_def)
  with json_codec.roundtrip [OF this] metric_widget_metric(1) [OF assms] show ?thesis
    by (simp add: body_is_def del: json_dumps.simps json_wf.simps)
qed

section \<open>The dashboards stay free of duplicates\<close>

definition dash_kept :: "('c \<Rightarrow> string \<rightharpoonup> string) \<Rightarrow> 'c \<Rightarrow> 'c \<Rightarrow> bool" where
  "dash_kept dash c c' \<longleftrightarrow> (dash_inv dash c \<longrightarrow> dash_inv dash c')"

interpretation dko: world_order "dash_kept dash"
  by unfold_locales (simp_all add: dash_kept_def)

lemma dash_same: "dash c' = dash c \<Longrightarrow> dash_kept dash c c'"
  by (simp add: dash_kept_def dash_inv_def)

lemma cw_get:
  assumes "cw_ok A dash"
  shows "dash (snd (cw_get_dashboard A n c)) = dash c"
    and "fst (cw_get_dashboard A n c) = Inr b \<Longrightarrow> dash c n = Some b"
  using assms by (simp_all add: cw_ok_def)

lemma put_kept:
  assumes "cw_ok A dash" "body_ok b"
  shows "keeps (dash_kept dash) (cw_put_dashboard A n b)"
  using assms unfolding keeps_def cw_ok_def dash_kept_def dash_inv_def by (simp split: sum.splits)

lemma update_kept:
  assumes ok: "cw_ok A dash"
  shows "keeps (dash_kept dash) (update_dashboard A labels n)"
  unfolding keeps_def
proof
  fix c
  show "dash_kept dash c (snd (update_dashboard A labels n c))"
  proof (cases "dict_item labels ''dashboard-name''")
    case (Inl e)
    then show ?thesis by (simp add: update_dashboard_def py_simps dko.refl)
  next
    case (Inr dn)
    obtain r c1 where g: "cw_get_dashboard A dn c = (r, c1)" by (cases "cw_get_dashboard A dn c")
    have c1: "dash c1 = dash c" "\<And>text. r = Inr text \<Longrightarrow> dash c dn = Some text"
      using cw_get [OF ok, of dn c] g by simp_all
    show ?thesis
    proof (cases "\<exists>t b. r = Inr t \<and> updated_body labels n t = Inr (Some b)")
      case True
      then obtain t b where t: "r = Inr t" "updated_body labels n t = Inr (Some b)" by blast
      have run: "update_dashboard A labels n c = cw_put_dashboard A dn b c1"
        using Inr g t by (simp add: update_dashboard_def py_simps)
      show ?thesis
      proof (cases "dash_inv dash c")
        case True
        then have "body_ok t" using c1(2) [OF t(1)] by (simp add: dash_inv_def)
        then have "body_ok b" using t(2) by (rule updated_body_ok)
        from put_kept [OF ok this, of dn] have "dash_kept dash c1 (snd (update_dashboard A labels n c))"
          by (simp add: keeps_def run)
        then show ?thesis by (rule dko.trans [OF dash_same [where dash = dash, OF c1(1)]])
      qed (simp add: dash_kept_def)
    next
      case False
      then have "snd (update_dashboard A labels n c) = c1"
        using Inr g by (simp add: update_dashboard_def py_simps split: sum.split option.split) blast
      then show ?thesis using c1(1) by (simp add: dash_same)
    qed
  qed
qed

lemma create_kept:
  assumes "cw_ok A dash"
  shows "keeps (dash_kept dash) (create_dashboard A labels n)"
proof (cases "metric_widget labels (create_dashboard_metric labels n)")
  case (Inl e)
  then show ?thesis by (simp add: create_dashboard_def keeps_def py_simps dko.refl)
next
  case (Inr w)
  have "body_ok (json_dumps (PDict [(''widgets'', PList [w])]))"
    unfolding body_ok_def by (intro exI conjI, rule created_body [OF Inr]) simp
  then have "keeps (dash_kept dash) (cw_put_dashboard A dn (json_dumps (PDict [(''widgets'', PList [w])])))" for dn
    using assms by (rule put_kept [rotated])
  then have "keeps (dash_kept dash) (py_bind (py_lift (dict_item labels ''dashboard-name'')) (\<lambda>dn.
      cw_put_dashboard A dn (json_dumps (PDict [(''widgets'', PList [w])]))))"
    by (intro dko.keeps_bind dko.keeps_lift)
  with Inr show ?thesis by (simp add: create_dashboard_def keeps_def py_simps del: json_dumps.simps)
qed

lemma check_kept:
  assumes "cw_ok A dash"
  shows "keeps (dash_kept dash) (check_dashboard A labels n)"
proof -
  have "keeps (dash_kept dash) (cw_list_dashboards A)"
    using assms by (simp add: keeps_def cw_ok_def dash_same)
  then show ?thesis
    unfolding check_dashboard_def using update_kept [OF assms] create_kept [OF assms]
    by (cases "dict_get labels ''dashboard-name''") (auto intro!: dko.keeps_return dko.keeps_bind)
qed

lemma handle_kept:
  assumes "cw_ok A dash"
  shows "keeps (dash_kept dash) (exporter_handle_event A e)"
proof -
  have "keeps (dash_kept dash) (cw_put_metric_data A m)" for m
    using assms by (simp add: keeps_def cw_ok_def dash_same)
  then show ?thesis
    unfolding exporter_handle_event_def
    by (cases "mv_labels e") (auto intro!: dko.keeps_raise dko.keeps_bind dko.keeps_lift dko.keeps_then check_kept [OF assms])
qed


section \<open>A metric on its dashboard\<close>

lemma metric_widget_total:
  assumes "dict_get labels ''region'' = Some r" "dict_get labels ''task_name'' = Some t"
  obtains w where "metric_widget labels m = Inr w"
  using assms by (simp add: metric_widget_def dict_item_def)

lemma check_lists:
  assumes "cw_ok A dash" "cw_answers A dash" "dict_get labels ''dashboard-name'' = Some n"
  obtains c1 where "dash c1 = dash c"
    "check_dashboard A labels m c = (if n \<in> dom (dash c) then update_dashboard A labels m c1 else create_dashboard A labels m c1)"
proof -
  obtain ns where ns: "fst (cw_list_dashboards A c) = Inr ns" "set ns = dom (dash c)"
    using assms(2) unfolding cw_answers_def by blast
  obtain c1 where c1: "cw_list_dashboards A c = (Inr ns, c1)" using ns(1) by (cases "cw_list_dashboards A c") auto
  have "dash (snd (cw_list_dashboards A c)) = dash c" using assms(1) by (simp add: cw_ok_def)
  with c1 have "dash c1 = dash c" by simp
  moreover have "check_dashboard A labels m c = (if n \<in> dom (dash c) then update_dashboard A labels m c1 else create_dashboard A labels m c1)"
    using assms(3) ns(2) c1 by (simp add: check_dashboard_def py_simps)
  ultimately show thesis by (rule that)
qed

lemma put_run:
  assumes "cw_ok A dash" "cw_answers A dash"
  shows "fst (cw_put_dashboard A n b c) = Inr ()" "dash (snd (cw_put_dashboard A n b c)) = (dash c)(n \<mapsto> b)"
  using assms by (simp_all add: cw_ok_def cw_answers_def)

lemma check_existing:
  assumes cw: "cw_ok A dash" "cw_answers A dash" and n: "dict_get labels ''dashboard-name'' = Some n"
    and b: "dash c n = Some b" "body_is b d ws ms"
    and w: "metric_widget labels (create_dashboard_metric labels m) = Inr w"
  shows "fst (check_dashboard A labels m c) = Inr () \<and>
    dash (snd (check_dashboard A labels m c)) =
      (if Some (create_dashboard_metric labels m) \<in> set ms then dash c else (dash c)(n \<mapsto> with_widget d ws w))"
proof -
  obtain c1 where c1: "dash c1 = dash c"
    "check_dashboard A labels m c = (if n \<in> dom (dash c) then update_dashboard A labels m c1 else create_dashboard A labels m c1)"
    using check_lists [OF cw n] .
  obtain r c2 where g: "cw_get_dashboard A n c1 = (r, c2)" by (cases "cw_get_dashboard A n c1")
  have "\<exists>x. r = Inr x" using cw(2) b(1) c1(1) g unfolding cw_answers_def by (metis domI fst_conv)
  then have r: "r = Inr b" using cw_get(2) [OF cw(1), of n c1] g b(1) c1(1) by auto
  have c2: "dash c2 = dash c" using cw_get(1) [OF cw(1), of n c1] g c1(1) by simp
  have "check_dashboard A labels m c = update_dashboard A labels m c1" using c1(2) b(1) by (simp add: domI)
  also have "\<dots> = (if Some (create_dashboard_metric labels m) \<in> set ms then (Inr (), c2)
      else cw_put_dashboard A n (with_widget d ws w) c2)"
    using n g r updated_body_run [OF b(2), of labels m] w by (simp add: update_dashboard_def dict_item_def py_simps)
  finally show ?thesis using put_run [OF cw, of n "with_widget d ws w" c2] c2 by simp
qed

lemma check_new:
  assumes cw: "cw_ok A dash" "cw_answers A dash" and n: "dict_get labels ''dashboard-name'' = Some n"
    and b: "dash c n = None" and w: "metric_widget labels (create_dashboard_metric labels m) = Inr w"
  shows "fst (check_dashboard A labels m c) = Inr () \<and>
    dash (snd (check_dashboard A labels m c)) = (dash c)(n \<mapsto> json_dumps (PDict [(''widgets'', PList [w])]))"
proof -
  obtain c1 where c1: "dash c1 = dash c"
    "check_dashboard A labels m c = (if n \<in> dom (dash c) then update_dashboard A labels m c1 else create_dashboard A labels m c1)"
    using check_lists [OF cw n] .
  then have "check_dashboard A labels m c = create_dashboard A labels m c1" using b by (simp add: dom_def)
  also have "\<dots> = cw_put_dashboard A n (json_dumps (PDict [(''widgets'', PList [w])])) c1"
    using n w by (simp add: create_dashboard_def dict_item_def py_simps del: json_dumps.simps)
  finally show ?thesis using put_run [OF cw] c1(1) by (simp del: json_dumps.simps)
qed


section \<open>A client in memory\<close>

definition demo_cw :: "string dict cloudwatch" where
  "demo_cw = \<lparr>cw_put_metric_data = (\<lambda>_. py_return ()), cw_list_dashboards = (\<lambda>c. (Inr (map fst c), c)),
     cw_get_dashboard = (\<lambda>n c. (case dict_get c n of Some b \<Rightarrow> Inr b | None \<Rightarrow> Inl (ClientError ''ResourceNotFound''), c)),
     cw_put_dashboard = (\<lambda>n b c. (Inr (), dict_set c n b))\<rparr>"

lemma dom_dict_get: "dom (dict_get c) = set (map fst c)"
  using dom_map_of_conv_image_fst [of c] by (simp add: dict_get_def [abs_def])

lemma demo_cw_ok: "cw_ok demo_cw dict_get"
  by (auto simp: cw_ok_def demo_cw_def py_return_def dom_dict_get fun_eq_iff split: option.splits)

lemma demo_cw_answers: "cw_answers demo_cw dict_get"
  unfolding cw_answers_def
proof (intro conjI allI impI)
  show "\<exists>ns. fst (cw_list_dashboards demo_cw c) = Inr ns \<and> set ns = dom (dict_get c)" for c
    using dom_dict_get [of c] by (simp add: demo_cw_def)
  show "\<exists>b. fst (cw_get_dashboard demo_cw n c) = Inr b" if "n \<in> dom (dict_get c)" for n c
    using that by (auto simp: demo_cw_def)
  show "fst (cw_put_dashboard demo_cw n b c) = Inr ()" for n b c by (simp add: demo_cw_def)
qed

definition demo_metric_labels :: "string dict" where
  "demo_metric_labels = [(''dashboard-name'', ''d''), (''region'', ''us-east-1''), (''task_name'', ''t''), (''team'', ''x'')]"



text \<open>A number in the log of a benchmark is accepted, other text is not.\<close>

lemma float_texts: "float_text ''0.95'' \<and> float_text ''-1e-3'' \<and> \<not> float_text ''12 ms''"
  by code_simp

end
