(* ===== verification/Sage_Maker.thy ===== *)
theory Sage_Maker
  imports Execution Watcher Cloudwatch Url
begin

text \<open>
  The executor for SageMaker, \<open>sm-executor/src/sm_executor/\<close>: \<open>sm_execution_engine.py\<close> with the sources
  (\<open>source_dir.py\<close>) and the estimators (\<open>estimator_factory.py\<close>) that it makes of a descriptor, and the wiring of
  \<open>sm_executor.py\<close>.  It is a second engine for the handlers of the executors.

  The clients of AWS and the SageMaker SDK are parameters, computations on a state of any type, which is
  the engine's part of the world.  The sizes are exact integers; Python computes them with floating point
  numbers, which gives the same for sizes below \<open>2 ^ 53\<close> bytes.  Waiting for the final metrics has fuel,
  one unit per request, and \<open>None\<close> is a call that has not returned.
\<close>

section \<open>Sources\<close>

definition SHELL_SHEBANG :: string where "SHELL_SHEBANG = ''#!/usr/bin/env bash''"

definition SHELL_ENTRY_POINT :: string where "SHELL_ENTRY_POINT = ''tmp_entry.sh''"

definition PYTHON_ENTRY_POINT :: string where "PYTHON_ENTRY_POINT = ''tmp_entry.py''"

definition linesep :: string where "linesep = [CHR 0x0A]"

definition create_shell_entrypoint :: "benchmark_descriptor \<Rightarrow> string res" where
  "create_shell_entrypoint d =
     (case ml d of
        None \<Rightarrow> Inl (AttributeError ''benchmark_code'')
      | Some m \<Rightarrow>
          (case benchmark_code m of
             None \<Rightarrow> Inl (TypeError ''unsupported operand type(s)'')
           | Some code \<Rightarrow>
               Inr (SHELL_SHEBANG @ linesep @
                 concat (map (\<lambda>(var, v). ''export '' @ var @ ''='' @ [CHR 0x22] @ v @ [CHR 0x22] @ linesep) (env_vars (env d))) @
                 code @ linesep)))"

definition create_python_shell_wrapper :: string where
  "create_python_shell_wrapper =
     ''import os'' @ linesep @
     ''myCmd = '' @ [CHR 0x27] @ ''chmod 777 tmp_entry.sh && ./tmp_entry.sh'' @ [CHR 0x27] @ linesep @
     ''os.system(myCmd)'' @ linesep"

section \<open>Estimators\<close>

record sm_config =
  s3_output_bucket :: string
  sm_role :: string
  s3_nodata :: string
  security_group_ids :: "string list option"
  subnets :: "string list option"

record sm_estimator =
  es_framework :: ml_framework
  es_sources :: "string dict"
  es_entry_point :: string
  es_image_name :: string
  es_py_version :: string
  es_framework_version :: string
  es_instance_type :: string
  es_instance_count :: int
  es_role :: string
  es_output_path :: string
  es_security_group_ids :: "string list option"
  es_subnets :: "string list option"
  es_metric_definitions :: "(string \<times> string) list option"
  es_mpi :: "(int \<times> string) option"
  es_script_mode :: bool
  es_hyperparameters :: "pyval dict option"

definition MPI_OPTIONS :: string where
  "MPI_OPTIONS = ''-x HOROVOD_HIERARCHICAL_ALLREDUCE=1 -x HOROVOD_FUSION_THRESHOLD=16777216 -x TF_CPP_MIN_LOG_LEVEL=0''"

definition get_hyper_params :: "benchmark_descriptor \<Rightarrow> pyval dict option" where
  "get_hyper_params d = (case custom_params d of None \<Rightarrow> Some [] | Some cp \<Rightarrow> hyper_params cp)"

definition get_metric_definitions :: "benchmark_descriptor \<Rightarrow> (string \<times> string) list" where
  "get_metric_definitions d =
     (case output_metrics d of None \<Rightarrow> [] | Some ms \<Rightarrow> map (\<lambda>m. (metric_name m, metric_pattern m)) ms)"

text \<open>\<open>x or default\<close>\<close>

definition str_or :: "string option \<Rightarrow> string \<Rightarrow> string" where
  "str_or x dflt = (if truthy_str x then the x else dflt)"

definition create_common_estimator_args ::
  "benchmark_descriptor \<Rightarrow> string dict \<Rightarrow> sm_config \<Rightarrow> sm_estimator res" where
  "create_common_estimator_args d sources cfg =
     (case (ml d, distributed (hardware d)) of
        (Some m, Some dist) \<Rightarrow>
          Inr \<lparr>es_framework = framework m, es_sources = sources, es_entry_point = ''tmp_entry.py'',
             es_image_name = docker_image (env d),
             es_py_version = str_or (case custom_params d of None \<Rightarrow> Some [] | Some cp \<Rightarrow> python_version cp) ''py3'',
             es_framework_version = str_or (framework_version m) [],
             es_instance_type = instance_type (hardware d), es_instance_count = num_instances dist,
             es_role = sm_role cfg, es_output_path = ''s3://'' @ s3_output_bucket cfg,
             es_security_group_ids = security_group_ids cfg, es_subnets = subnets cfg,
             es_metric_definitions = (if get_metric_definitions d = [] then None else Some (get_metric_definitions d)),
             es_mpi = None, es_script_mode = False, es_hyperparameters = get_hyper_params d\<rparr>
      | _ \<Rightarrow> Inl (AttributeError ''NoneType''))"

definition create_tensorflow_estimator :: "benchmark_descriptor \<Rightarrow> string dict \<Rightarrow> sm_config \<Rightarrow> sm_estimator res" where
  "create_tensorflow_estimator d sources cfg =
     res_bind (create_common_estimator_args d sources cfg) (\<lambda>kwargs.
     res_bind
       (if strategy (hardware d) = HOROVOD then
          (case processes_per_instance (hardware d) of
             None \<Rightarrow> Inl (TypeError ''int() argument must be a string or a number'')
           | Some n \<Rightarrow> Inr (kwargs\<lparr>es_mpi := Some (n, MPI_OPTIONS)\<rparr>))
        else Inr kwargs) (\<lambda>kwargs.
       Inr (kwargs\<lparr>es_script_mode := True\<rparr>)))"

definition create_mxnet_estimator :: "benchmark_descriptor \<Rightarrow> string dict \<Rightarrow> sm_config \<Rightarrow> sm_estimator res" where
  "create_mxnet_estimator d sources cfg = create_common_estimator_args d sources cfg"

definition create_estimator :: "benchmark_descriptor \<Rightarrow> string dict \<Rightarrow> sm_config \<Rightarrow> sm_estimator res" where
  "create_estimator d sources cfg =
     (case ml d of
        None \<Rightarrow> Inl (AttributeError ''framework'')
      | Some m \<Rightarrow>
          (case framework m of
             MXNET \<Rightarrow> create_mxnet_estimator d sources cfg
           | TENSORFLOW \<Rightarrow> create_tensorflow_estimator d sources cfg
           | NO_FRAMEWORK \<Rightarrow> Inl (KeyError ''framework'')))"

section \<open>SageMakerExecutionEngine\<close>

definition SM_ENGINE_ID :: string where "SM_ENGINE_ID = ''aws.sagemaker''"

definition SM_CONFIG :: descriptor_config where
  "SM_CONFIG = \<lparr>valid_strategies = [''single_node'', ''horovod''], valid_frameworks = [''tensorflow'', ''mxnet'']\<rparr>"

text \<open>
  \<open>sm_make\<close> is the constructor of an estimator and returns the volume size that it chooses, \<open>sm_fit\<close> returns
  the name of the training job, and \<open>sm_download\<close> fetches an archive and unpacks it among the sources.
\<close>

record 's sage_maker =
  sm_conf :: sm_config
  sm_descriptor_env :: descriptor_env
  sm_download :: "string \<Rightarrow> string \<Rightarrow> ('s, unit) py"
  sm_make :: "sm_estimator \<Rightarrow> ('s, int) py"
  sm_fit :: "sm_estimator \<Rightarrow> int \<Rightarrow> string option dict \<Rightarrow> bool \<Rightarrow> string \<Rightarrow> ('s, string) py"
  sm_describe_training_job :: "string option \<Rightarrow> ('s, pyval dict) py"
  sm_stop_training_job :: "string \<Rightarrow> ('s, unit) py"
  sm_put_metric_data :: "pyval list \<Rightarrow> ('s, unit) py"
  sm_cloudwatch :: "'s cloudwatch"
  sm_error_message :: "pyexc \<Rightarrow> string option"
  sm_exc_str :: "pyexc \<Rightarrow> string"

definition get_job_name :: "string \<Rightarrow> string" where "get_job_name action = action"

definition download_script :: "'s sage_maker \<Rightarrow> file_system_object \<Rightarrow> ('s, unit) py" where
  "download_script E f =
     py_bind (py_lift (urlparse (fso_dst f))) (\<lambda>u. sm_download E (netloc u) (drop 1 (url_path u)))"

definition create_source_dir :: "'s sage_maker \<Rightarrow> benchmark_descriptor \<Rightarrow> file_system_object list \<Rightarrow> ('s, string dict) py" where
  "create_source_dir E d ss =
     py_bind (py_lift (create_shell_entrypoint d)) (\<lambda>sh.
       py_then (py_for ss (download_script E))
         (py_return [(SHELL_ENTRY_POINT, sh), (PYTHON_ENTRY_POINT, create_python_shell_wrapper)]))"

definition dataset_id :: "nat \<Rightarrow> string option \<Rightarrow> string" where
  "dataset_id i x = str_or x (''src'' @ show_nat i)"

definition get_estimator_data :: "'s sage_maker \<Rightarrow> downloadable_content list \<Rightarrow> string option dict" where
  "get_estimator_data E ds =
     (let data = fold (\<lambda>(i, d) acc. dict_set acc (dataset_id i (dc_id d)) (dst d)) (enumerate 0 ds) [] in
      if data = [] then [(dataset_id 0 None, Some (s3_nodata (sm_conf E)))] else data)"

definition dataset_size :: "downloadable_content \<Rightarrow> int res" where
  "dataset_size d = (case size_info d of Some s \<Rightarrow> Inr (total_size s) | None \<Rightarrow> Inl (AttributeError ''total_size''))"

text \<open>
  \<open>int(1.1 * ceil(n / 1024 ** 3))\<close>: the quotient is exact below \<open>2 ** 53\<close> bytes, and there the
  product with the double next to 1.1, which is above it, has the integral part of the exact product.
\<close>

definition scaled_gb :: "int \<Rightarrow> int" where
  "scaled_gb n = (let g = - ((- n) div (1024 ^ 3)) in if 0 \<le> g then 11 * g div 10 else - (11 * (- g) div 10))"

definition estimate_total_gb :: "downloadable_content list \<Rightarrow> int res" where
  "estimate_total_gb ds = res_bind (res_map dataset_size ds) (\<lambda>sizes. Inr (scaled_gb (sum_list sizes)))"

definition descriptor_failure :: "pyexc \<Rightarrow> pyexc" where
  "descriptor_failure x = (case x of DescriptorError _ \<Rightarrow> ExecutionEngineException ''Cannot process the request'' | _ \<Rightarrow> x)"

text \<open>All that is done before the job is started.\<close>

definition sm_prepare ::
  "'s sage_maker \<Rightarrow> fetcher_payload \<Rightarrow> ('s, benchmark_descriptor \<times> sm_estimator \<times> int \<times> string option dict) py" where
  "sm_prepare E p =
     py_bind (py_catch (py_lift (descriptor_from_dict (sm_descriptor_env E) (contents (toml p)) (Some SM_CONFIG)))
       (\<lambda>x. py_raise (descriptor_failure x))) (\<lambda>d.
     py_bind (create_source_dir E d (scripts p)) (\<lambda>sources.
     py_bind (py_catch
         (py_bind (py_lift (create_estimator d sources (sm_conf E))) (\<lambda>est. py_bind (sm_make E est) (\<lambda>v. py_return (est, v))))
         (\<lambda>_. py_raise (ExecutionEngineException ''Cannot create estimator''))) (\<lambda>(est, v).
     py_bind (py_lift (estimate_total_gb (datasets p))) (\<lambda>gb.
       py_return (d, est, max v gb, get_estimator_data E (datasets p))))))"

section \<open>Merging metrics\<close>

fun wait_for_metrics :: "nat \<Rightarrow> 's sage_maker \<Rightarrow> string option \<Rightarrow> 's \<Rightarrow> (pyval res \<times> 's) option" where
  "wait_for_metrics 0 E n c = None"
| "wait_for_metrics (Suc fuel) E n c =
     (case sm_describe_training_job E n c of
        (Inl x, c) \<Rightarrow> Some (Inl x, c)
      | (Inr data, c) \<Rightarrow>
          (case dict_get data ''FinalMetricDataList'' of
             Some v \<Rightarrow> Some (Inr v, c)
           | None \<Rightarrow> wait_for_metrics fuel E n c))"

definition tag_metric :: "pyval \<Rightarrow> pyval \<Rightarrow> pyval res" where
  "tag_metric dims m =
     (case m of
        PDict d \<Rightarrow>
          if dict_has d ''Timestamp'' then Inr (PDict (dict_set (dict_del d ''Timestamp'') ''Dimensions'' dims))
          else Inl (KeyError ''Timestamp'')
      | _ \<Rightarrow> Inl (AttributeError ''pop''))"

definition tag_dimensions :: "benchmark_descriptor \<Rightarrow> pyval \<Rightarrow> pyval list res" where
  "tag_dimensions d metric_data =
     (case info_labels (info d) of
        None \<Rightarrow> Inl (TypeError ''object is not iterable'')
      | Some ls \<Rightarrow>
          (case metric_data of
             PList ms \<Rightarrow> res_map (tag_metric (PList (map (\<lambda>(n, v). PDict [(''Name'', PStr n), (''Value'', PStr v)]) ls))) ms
           | _ \<Rightarrow> Inl (TypeError ''object is not iterable'')))"

definition check_metric :: "'s sage_maker \<Rightarrow> string dict \<Rightarrow> pyval \<Rightarrow> ('s, unit) py" where
  "check_metric E labels m =
     py_bind (py_lift (py_item m ''MetricName'')) (\<lambda>n.
       case n of
         PStr s \<Rightarrow> check_dashboard (sm_cloudwatch E) labels s
       | _ \<Rightarrow> py_raise (TypeError ''MetricName''))"

definition export_metrics :: "'s sage_maker \<Rightarrow> benchmark_descriptor \<Rightarrow> custom_params_descriptor \<Rightarrow> pyval \<Rightarrow> ('s, unit) py" where
  "export_metrics E d cp v =
     py_bind (py_lift (tag_dimensions d v)) (\<lambda>metric_data.
       py_then (sm_put_metric_data E metric_data)
         (if truthy_str (dashboard cp) then
            (let labels = (case info_labels (info d) of Some ls \<Rightarrow> ls | None \<Rightarrow> []);
                 labels = dict_set labels ''dashboard-name'' (the (dashboard cp));
                 labels = dict_set labels ''region'' (str_or (region cp) ''us-east-1'')
             in py_for metric_data (check_metric E labels))
          else py_return ()))"

definition merge_metrics ::
  "nat \<Rightarrow> 's sage_maker \<Rightarrow> benchmark_descriptor \<Rightarrow> custom_params_descriptor \<Rightarrow> 's \<Rightarrow> (unit res \<times> 's) option" where
  "merge_metrics fuel E d cp c =
     (case wait_for_metrics fuel E (sagemaker_job_name cp) c of
        None \<Rightarrow> None
      | Some (Inl x, c) \<Rightarrow> Some (Inl x, c)
      | Some (Inr v, c) \<Rightarrow> Some (export_metrics E d cp v c))"

section \<open>Running and cancelling\<close>

definition fit_failure :: "'s sage_maker \<Rightarrow> pyexc \<Rightarrow> pyexc" where
  "fit_failure E x =
     (case x of
        ClientError _ \<Rightarrow> ExecutionEngineException (''Benchmark creation failed. SageMaker returned error: '' @
          (case sm_error_message E x of Some m \<Rightarrow> m | None \<Rightarrow> ''Unknown''))
      | _ \<Rightarrow> x)"

definition training_job_name :: "benchmark_event \<Rightarrow> benchmark_descriptor \<Rightarrow> string" where
  "training_job_name e d =
     (case custom_params d of None \<Rightarrow> get_job_name (action_id e) | Some cp \<Rightarrow> str_or (sagemaker_job_name cp) (get_job_name (action_id e)))"

definition sm_train ::
  "nat \<Rightarrow> 's sage_maker \<Rightarrow> benchmark_event \<Rightarrow> benchmark_descriptor \<Rightarrow> sm_estimator \<Rightarrow> int \<Rightarrow> string option dict \<Rightarrow>
   's \<Rightarrow> (benchmark_job res \<times> 's) option" where
  "sm_train fuel E e d est vol data c =
     (let merges = (case custom_params d of Some cp \<Rightarrow> merge cp = Some True | None \<Rightarrow> False) in
      case sm_fit E est vol data merges (training_job_name e d) c of
        (Inl x, c) \<Rightarrow> Some (Inl (fit_failure E x), c)
      | (Inr n, c) \<Rightarrow>
          (let result = Inr \<lparr>job_id = n, job_output = None, job_extras = []\<rparr> in
           if merges then
             (case merge_metrics fuel E d (the (custom_params d)) c of
                None \<Rightarrow> None
              | Some (Inl x, c) \<Rightarrow> Some (Inl (fit_failure E x), c)
              | Some (Inr _, c) \<Rightarrow> Some (result, c))
           else Some (result, c)))"

definition sm_run ::
  "nat \<Rightarrow> 's sage_maker \<Rightarrow> benchmark_event \<Rightarrow> fetcher_payload \<Rightarrow> 's \<Rightarrow> (benchmark_job res \<times> 's) option" where
  "sm_run fuel E e p c =
     (case sm_prepare E p c of
        (Inl x, c) \<Rightarrow> Some (Inl x, c)
      | (Inr (d, est, vol, data), c) \<Rightarrow> sm_train fuel E e d est vol data c)"

definition sm_cancel :: "'s sage_maker \<Rightarrow> string \<Rightarrow> string \<Rightarrow> bool \<Rightarrow> ('s, pyval) py" where
  "sm_cancel E client action cascade =
     py_catch
       (py_bind (sm_describe_training_job E (Some (get_job_name action))) (\<lambda>training_job.
        py_bind (py_lift (dict_item training_job ''TrainingJobStatus'')) (\<lambda>st.
          if st = PStr ''InProgress'' then py_then (sm_stop_training_job E (get_job_name action)) (py_return PNone)
          else py_return PNone)))
       (\<lambda>err. case err of
          ClientError _ \<Rightarrow>
            if is_not_found_error (sm_error_message E err) then py_raise (no_resources_message action)
            else py_raise (ExecutionEngineException (sm_exc_str E err))
        | _ \<Rightarrow> py_raise err)"

section \<open>SageMaker as an engine\<close>

text \<open>
  A computation on the engine's part of the world.  A run that does not return with the given fuel is
  not a result; \<open>sm_engine_run\<close> stands for the run of the source only where \<open>sm_run\<close> returns.
\<close>

definition on_resources :: "('c, 'a) py \<Rightarrow> ('c exec_world, 'a) py" where
  "on_resources m = (\<lambda>w. case m (resources w) of (r, c) \<Rightarrow> (r, w\<lparr>resources := c\<rparr>))"

definition sm_engine_run :: "nat \<Rightarrow> 's sage_maker \<Rightarrow> 's exec_world run_method" where
  "sm_engine_run fuel E e p = on_resources (\<lambda>c.
     case sm_run fuel E e p c of Some x \<Rightarrow> x | None \<Rightarrow> (Inl (OtherException ''not returned''), c))"

definition sm_engine_cancel :: "'s sage_maker \<Rightarrow> 's exec_world cancel_method" where
  "sm_engine_cancel E client action cascade = on_resources (sm_cancel E client action cascade)"

definition sm_executor_handler ::
  "nat \<Rightarrow> 's sage_maker \<Rightarrow> emitter \<Rightarrow> kafka_service_config \<Rightarrow> 's exec_world exec_handler" where
  "sm_executor_handler fuel E em cfg =
     \<lparr>eh_producer_topic = producer_topic cfg, eh_engines = [(SM_ENGINE_ID, sm_engine_run fuel E)], eh_emitter = em,
      eh_exc_str = sm_exc_str E\<rparr>"

lemma on_resources_quiet: "kworld.truncate (snd (on_resources m w)) = kworld.truncate w"
  by (cases "m (resources w)") (simp add: on_resources_def kworld.defs)

lemma on_resources_local: "kworld.more w = kworld.more w' \<Longrightarrow> fst (on_resources m w) = fst (on_resources m w')"
  by (cases w; cases w') (simp add: on_resources_def split: prod.splits)

interpretation sagemaker: execution_engine "sm_engine_run fuel E" "sm_engine_cancel E"
  unfolding sm_engine_run_def sm_engine_cancel_def
  by unfold_locales (rule on_resources_quiet on_resources_local, assumption?)+

section \<open>Submissions\<close>

lemma sm_engine_run_returns:
  "sm_run fuel E e p (resources w) = Some (r, c) \<Longrightarrow> sm_engine_run fuel E e p w = (r, w\<lparr>resources := c\<rparr>)"
  by (simp add: sm_engine_run_def on_resources_def)

lemma sm_handle_submits:
  assumes "is_single_run p = Inr True" and "get_engine_id p = Inr (PStr SM_ENGINE_ID)"
  shows "exec_handle_event (sm_executor_handler fuel E em cfg) e p =
    submit_benchmark (sm_executor_handler fuel E em cfg) (sm_engine_run fuel E) e p"
  using assms by (auto simp: fun_eq_iff exec_handle_event_def sm_executor_handler_def find_engine_def py_simps)


text \<open>A job whose answers have no final metrics \<open>k\<close> times and then have them is awaited with fuel beyond \<open>k\<close>.\<close>

lemma metrics_awaited:
  assumes "\<forall>i < k. \<exists>d. sm_describe_training_job E n (cs i) = (Inr d, cs (Suc i)) \<and> dict_get d ''FinalMetricDataList'' = None"
    and "sm_describe_training_job E n (cs k) = (Inr d, c')" "dict_get d ''FinalMetricDataList'' = Some v" "k < fuel"
  shows "wait_for_metrics fuel E n (cs 0) = Some (Inr v, c')"
  using assms
proof (induction k arbitrary: cs fuel)
  case 0
  then show ?case by (cases fuel) auto
next
  case (Suc k)
  obtain f where f: "fuel = Suc f" using Suc.prems(4) by (cases fuel) auto
  obtain d0 where d0: "sm_describe_training_job E n (cs 0) = (Inr d0, cs (Suc 0))" "dict_get d0 ''FinalMetricDataList'' = None"
    using Suc.prems(1) by blast
  have "wait_for_metrics f E n (cs (Suc 0)) = Some (Inr v, c')"
    by (rule Suc.IH [of "\<lambda>i. cs (Suc i)" f]) (use Suc.prems f in auto)
  with f d0 show ?case by simp
qed

section \<open>The volume and the channels of a job\<close>

lemma scaled_gb_bounds:
  assumes "0 \<le> n"
  shows "n \<le> scaled_gb n * 1024 ^ 3" and "10 * scaled_gb n * 1024 ^ 3 \<le> 11 * (n + 1024 ^ 3)"
proof -
  define K :: int where "K = 1024 ^ 3"
  define g where "g = - ((- n) div K)"
  have K: "0 < K" by (simp add: K_def)
  have "(- n) div K * K \<le> - n" "- n < (- n) div K * K + K"
    using K div_mult_mod_eq [of "- n" K] pos_mod_sign [of K "- n"] pos_mod_bound [of K "- n"] by linarith+
  then have g: "n \<le> g * K" "g * K < n + K" by (simp_all add: g_def)
  have "0 \<le> g"
  proof (rule ccontr)
    assume "\<not> 0 \<le> g"
    then have "g * K < 0" using K by (simp add: mult_neg_pos)
    with g(1) assms show False by linarith
  qed
  then have s: "scaled_gb n = 11 * g div 10" by (simp add: scaled_gb_def g_def K_def Let_def)
  have "g \<le> scaled_gb n" "10 * scaled_gb n \<le> 11 * g" using \<open>0 \<le> g\<close> unfolding s by linarith+
  then have 1: "g * K \<le> scaled_gb n * K" and 2: "(10 * scaled_gb n) * K \<le> (11 * g) * K"
    using K by (intro mult_right_mono; simp)+
  have "(11 * g) * K = 11 * (g * K)" by (rule mult.assoc)
  also have "\<dots> \<le> 11 * (n + K)" using g(2) by simp
  finally have "(10 * scaled_gb n) * K \<le> 11 * (n + K)" using 2 by linarith
  with 1 g(1) show "n \<le> scaled_gb n * 1024 ^ 3" "10 * scaled_gb n * 1024 ^ 3 \<le> 11 * (n + 1024 ^ 3)"
    unfolding K_def [symmetric] by linarith+
qed

lemma dataset_sizes_nonneg:
  assumes "res_map dataset_size ds = Inr sizes" "\<forall>d \<in> set ds. \<forall>s. size_info d = Some s \<longrightarrow> 0 \<le> total_size s"
  shows "0 \<le> sum_list sizes"
proof (rule sum_list_nonneg)
  fix x
  assume x: "x \<in> set sizes"
  from assms(1) have "list_all2 (\<lambda>d y. dataset_size d = Inr y) ds sizes" by (simp add: res_map_Inr_iff)
  from list_all2_in2 [OF this x] assms(2) show "0 \<le> x" by (auto simp: dataset_size_def split: option.splits)
qed

text \<open>
  (C23) The volume of a training job holds the data sets of the benchmark, and unless SageMaker itself chooses
  a larger one it exceeds them by at most a tenth and 1.1 GB.
\<close>

theorem training_volume_holds_data:
  assumes prep: "sm_prepare E p c = (Inr (d, est, vol, data), c')"
    and sizes: "\<forall>x \<in> set (datasets p). \<forall>s. size_info x = Some s \<longrightarrow> 0 \<le> total_size s"
  shows "\<exists>total v0. total = sum_list (map (\<lambda>x. total_size (the (size_info x))) (datasets p)) \<and>
    total \<le> vol * 1024 ^ 3 \<and> (vol = v0 \<and> (\<exists>c0 c1. sm_make E est c0 = (Inr v0, c1)) \<or> 10 * vol * 1024 ^ 3 \<le> 11 * (total + 1024 ^ 3))"
proof -
  obtain v c0 c1 gb where v: "sm_make E est c0 = (Inr v, c1)" "estimate_total_gb (datasets p) = Inr gb" "vol = max v gb"
    using prep by (auto simp: sm_prepare_def py_simps split: sum.splits prod.splits)
  then obtain ss where ss: "res_map dataset_size (datasets p) = Inr ss" "gb = scaled_gb (sum_list ss)"
    by (auto simp: estimate_total_gb_def)
  have "ss = map (\<lambda>x. total_size (the (size_info x))) (datasets p)"
    using ss(1) by (induction "datasets p" arbitrary: ss) (auto simp: dataset_size_def res_map_Inr_iff list_all2_conv_all_nth
      intro!: nth_equalityI split: option.splits)
  moreover note b = scaled_gb_bounds [OF dataset_sizes_nonneg [OF ss(1) sizes], folded ss(2)]
  moreover have "gb * 1024 ^ 3 \<le> vol * 1024 ^ 3" using v(3) by simp
  moreover have "vol = v \<or> vol = gb" using v(3) by (simp add: max_def)
  ultimately show ?thesis using v(1) by (intro exI [of _ "sum_list ss"] exI [of _ v]) auto
qed

text \<open>Every data set has a channel of its own if the names of the channels differ.\<close>

lemma fold_channels:
  assumes "distinct (map f xs)" "\<forall>x \<in> set xs. f x \<notin> set (map fst acc)"
  shows "fold (\<lambda>x acc. dict_set acc (f x) (g x)) xs acc = acc @ map (\<lambda>x. (f x, g x)) xs"
  using assms
proof (induction xs arbitrary: acc)
  case (Cons x xs)
  have "\<forall>y \<in> set xs. f y \<notin> set (map fst (acc @ [(f x, g x)]))"
    using Cons.prems by (simp add: image_iff) metis
  with Cons show ?case by (simp add: dict_set_new)
qed simp

lemma every_dataset_has_channel:
  assumes "distinct (map (\<lambda>(i, d). dataset_id i (dc_id d)) (enumerate 0 ds))" "ds \<noteq> []"
  shows "get_estimator_data E ds = map (\<lambda>(i, d). (dataset_id i (dc_id d), dst d)) (enumerate 0 ds)"
proof -
  have "fold (\<lambda>(i, d) acc. dict_set acc (dataset_id i (dc_id d)) (dst d)) (enumerate 0 ds) [] =
      map (\<lambda>(i, d). (dataset_id i (dc_id d), dst d)) (enumerate 0 ds)"
    using fold_channels [of "\<lambda>(i, d). dataset_id i (dc_id d)" "enumerate 0 ds" "[]" "\<lambda>(i, d). dst d"] assms(1)
    by (simp add: case_prod_beta')
  moreover have "enumerate 0 ds \<noteq> []" using assms(2) by (cases ds) simp_all
  ultimately show ?thesis by (simp add: get_estimator_data_def Let_def)
qed

section \<open>Jobs that are not found and scripts that are not\<close>

text \<open>
  \<open>jobs\<close> reads the names of the training jobs from the state of the services: only starting a job
  changes them, and asking for a job that does not exist is answered with the error of SageMaker for it.
\<close>

definition jobs_kept :: "('s \<Rightarrow> string set) \<Rightarrow> 's \<Rightarrow> 's \<Rightarrow> bool" where
  "jobs_kept jobs c c' = (jobs c' = jobs c)"

interpretation jko: world_order "jobs_kept jobs"
  by unfold_locales (simp_all add: jobs_kept_def)

definition sm_jobs_ok :: "'s sage_maker \<Rightarrow> ('s \<Rightarrow> string set) \<Rightarrow> bool" where
  "sm_jobs_ok E jobs =
     ((\<forall>b k. keeps (jobs_kept jobs) (sm_download E b k)) \<and> (\<forall>est. keeps (jobs_kept jobs) (sm_make E est)) \<and>
      (\<forall>n. keeps (jobs_kept jobs) (sm_describe_training_job E n)) \<and> (\<forall>ms. keeps (jobs_kept jobs) (sm_put_metric_data E ms)) \<and>
      keeps (jobs_kept jobs) (cw_list_dashboards (sm_cloudwatch E)) \<and>
      (\<forall>n. keeps (jobs_kept jobs) (cw_get_dashboard (sm_cloudwatch E) n)) \<and>
      (\<forall>n b. keeps (jobs_kept jobs) (cw_put_dashboard (sm_cloudwatch E) n b)) \<and>
      (\<forall>est vol data wait n c. jobs (snd (sm_fit E est vol data wait n c)) \<subseteq> insert n (jobs c)) \<and>
      (\<forall>n c. n \<notin> jobs c \<longrightarrow> (\<exists>m. fst (sm_describe_training_job E (Some n) c) = Inl (ClientError m) \<and>
         is_not_found_error (sm_error_message E (ClientError m)))))"

lemma jobs_prepare:
  assumes "sm_jobs_ok E jobs"
  shows "keeps (jobs_kept jobs) (sm_prepare E p)"
  using assms unfolding sm_prepare_def create_source_dir_def download_script_def sm_jobs_ok_def
  by (auto intro!: jko.keeps_intros split: prod.splits)

lemma jobs_export:
  assumes "sm_jobs_ok E jobs"
  shows "keeps (jobs_kept jobs) (export_metrics E d cp v)"
proof -
  have u: "keeps (jobs_kept jobs) (update_dashboard (sm_cloudwatch E) ls n)" for ls n
    using assms unfolding update_dashboard_def sm_jobs_ok_def by (auto intro!: jko.keeps_intros split: option.splits)
  have "keeps (jobs_kept jobs) (create_dashboard (sm_cloudwatch E) ls n)" for ls n
    using assms unfolding create_dashboard_def sm_jobs_ok_def by (auto intro!: jko.keeps_intros)
  with u have "keeps (jobs_kept jobs) (check_dashboard (sm_cloudwatch E) ls n)" for ls n
    using assms unfolding check_dashboard_def sm_jobs_ok_def by (auto intro!: jko.keeps_intros split: option.splits)
  then have "keeps (jobs_kept jobs) (check_metric E ls m)" for ls m
    unfolding check_metric_def by (auto intro!: jko.keeps_intros split: pyval.splits)
  then show ?thesis
    using assms unfolding export_metrics_def sm_jobs_ok_def Let_def by (auto intro!: jko.keeps_intros)
qed

lemma jobs_wait:
  assumes "sm_jobs_ok E jobs" "wait_for_metrics fuel E n c = Some (r, c')"
  shows "jobs c' = jobs c"
  using assms(2)
proof (induction fuel arbitrary: c)
  case (Suc fuel)
  have "jobs (snd (sm_describe_training_job E n c)) = jobs c"
    using assms(1) by (simp add: sm_jobs_ok_def keeps_def jobs_kept_def)
  with Suc show ?case by (auto split: prod.splits sum.splits option.splits)
qed simp

lemma jobs_run:
  assumes ok: "sm_jobs_ok E jobs" and d: "descriptor_from_dict (sm_descriptor_env E) (contents (toml p)) (Some SM_CONFIG) = Inr d"
    and run: "sm_run fuel E e p c = Some (r, c')"
  shows "jobs c' \<subseteq> insert (training_job_name e d) (jobs c)"
proof (cases "sm_prepare E p c")
  case (Pair q c1)
  have "jobs (snd (sm_prepare E p c)) = jobs c" using jobs_prepare [OF ok] by (simp add: keeps_def jobs_kept_def)
  with Pair have 1: "jobs c1 = jobs c" by simp
  show ?thesis
  proof (cases q)
    case (Inr x)
    obtain d1 est vol data where x: "x = (d1, est, vol, data)" by (cases x)
    have d1: "d1 = d" using Pair d unfolding Inr x by (auto simp: sm_prepare_def py_simps split: sum.splits prod.splits)
    let ?m = "case custom_params d of Some cp \<Rightarrow> merge cp = Some True | None \<Rightarrow> False"
    obtain f c2 where f: "sm_fit E est vol data ?m (training_job_name e d) c1 = (f, c2)" by fastforce
    have "jobs (snd (sm_fit E est vol data ?m (training_job_name e d) c1)) \<subseteq> insert (training_job_name e d) (jobs c1)"
      using ok by (simp add: sm_jobs_ok_def)
    then have 2: "jobs c2 \<subseteq> insert (training_job_name e d) (jobs c)" by (simp add: f 1)
    have "jobs (snd (export_metrics E d cp v c)) = jobs c" for cp v c
      using jobs_export [OF ok] by (simp add: keeps_def jobs_kept_def)
    then have 3: "merge_metrics fuel E d cp c2 = Some (u, c3) \<Longrightarrow> jobs c3 = jobs c2" for cp u c3
      using jobs_wait [OF ok] by (auto simp: merge_metrics_def split: option.splits sum.splits prod.splits) (metis snd_conv)+
    from run Pair f Inr x d1 have "c' = c2 \<or> (\<exists>cp u. merge_metrics fuel E d cp c2 = Some (u, c'))"
      by (auto simp: sm_run_def sm_train_def Let_def split: sum.splits option.splits if_splits)
    with 2 3 show ?thesis by auto
  qed (use run Pair 1 in \<open>auto simp: sm_run_def\<close>)
qed

text \<open>
  (C24) A benchmark whose descriptor names the training job cannot be cancelled: the job is started under this
  name, but the command asks for a job that is named after the action.  After a run, whatever its outcome,
  cancelling the benchmark fails as if it did not exist, stops no job and reports nothing.
\<close>

theorem renamed_job_not_cancelled:
  assumes ok: "sm_jobs_ok E jobs" and new: "action_id e \<notin> jobs (resources w)"
    and d: "descriptor_from_dict (sm_descriptor_env E) (contents (toml p)) (Some SM_CONFIG) = Inr d"
    and name: "custom_params d = Some cp" "sagemaker_job_name cp = Some n" "n \<noteq> []" "n \<noteq> action_id e"
    and run: "sm_run fuel E e p (resources w) = Some (r, c)"
  shows "\<exists>w'. exec_cancel em [sm_engine_cancel E] ev client (action_id e) cascade (snd (sm_engine_run fuel E e p w)) =
      (Inl (no_resources_message (action_id e)), w') \<and> jobs (resources w') = jobs c \<and> sent w' = sent w"
proof -
  let ?w = "w\<lparr>resources := c\<rparr>"
  have "training_job_name e d = n" using name by (simp add: training_job_name_def str_or_def)
  with jobs_run [OF ok d run] new name(4) have "action_id e \<notin> jobs c" by auto
  then obtain m c' where m: "sm_describe_training_job E (Some (action_id e)) c = (Inl (ClientError m), c')"
      "is_not_found_error (sm_error_message E (ClientError m))"
    using ok by (metis sm_jobs_ok_def prod.collapse)
  have "jobs (snd (sm_describe_training_job E (Some (action_id e)) c)) = jobs c"
    using ok by (simp add: sm_jobs_ok_def keeps_def jobs_kept_def)
  with m have j: "jobs c' = jobs c" by simp
  have "sm_cancel E client (action_id e) cascade c = (Inl (no_resources_message (action_id e)), c')"
    using m by (simp add: sm_cancel_def get_job_name_def py_simps)
  then have "sm_engine_cancel E client (action_id e) cascade ?w = (Inl (no_resources_message (action_id e)), w\<lparr>resources := c'\<rparr>)"
    by (simp add: sm_engine_cancel_def on_resources_def)
  then have "exec_cancel em [sm_engine_cancel E] ev client (action_id e) cascade ?w =
      (Inl (no_resources_message (action_id e)), w\<lparr>resources := c'\<rparr>)"
    by (simp add: py_simps no_resources_message_def)
  with j show ?thesis by (simp add: sm_engine_run_returns [OF run])
qed

text \<open>
  A script that cannot be fetched ends the submission with the exception of the S3 client, which is not
  one of an engine: the benchmark is reported as pending and never again.
\<close>

theorem script_failure_unreported:
  assumes top: "em_status_topic em = Some t" "t \<noteq> []"
    and sub: "is_single_run p = Inr True" "get_engine_id p = Inr (PStr SM_ENGINE_ID)"
    and d: "descriptor_from_dict (sm_descriptor_env E) (contents (toml p)) (Some SM_CONFIG) = Inr d"
      "create_shell_entrypoint d = Inr sh"
    and f: "scripts p = f # fs" "urlparse (fso_dst f) = Inr u" "sm_download E (netloc u) (drop 1 (url_path u)) (resources w) = (Inl x, c)"
      "\<not> is_engine_exception x"
  shows "\<exists>m. fst (exec_handle_event (sm_executor_handler fuel E em cfg) e p w) = Inl x \<and>
    sent (snd (exec_handle_event (sm_executor_handler fuel E em cfg) e p w)) = sent w @ [m] \<and>
    payload (km_value m) = StatusMessagePayload ''Processing benchmark submission request...'' ST_PENDING (Some e)"
proof -
  let ?H = "sm_executor_handler fuel E em cfg"
  have H: "eh_emitter ?H = em" "eh_producer_topic ?H = producer_topic cfg" "eh_exc_str ?H = sm_exc_str E"
    by (simp_all add: sm_executor_handler_def)
  have "sm_prepare E p (resources w) = (Inl x, c)"
    using d f by (simp add: sm_prepare_def create_source_dir_def download_script_def py_simps)
  then have "sm_run fuel E e p (resources w) = Some (Inl x, c)" by (simp add: sm_run_def)
  from sm_engine_run_returns [OF this] have r: "fst (sm_engine_run fuel E e p w) = Inl x" by simp
  from sagemaker.submitted [of ?H t fuel E e p w, unfolded H r, OF top] f(4) show ?thesis
    unfolding sm_handle_submits [OF sub] by (auto simp: summary_def)
qed

section \<open>A concrete service\<close>

text \<open>A service whose state is the status of its jobs.\<close>

definition demo_training :: benchmark_descriptor where
  "demo_training = demo_descriptor\<lparr>
     ml := Some \<lparr>framework = TENSORFLOW, benchmark_code = Some ''python train.py'', ml_args = None, framework_version = None, ml_script = None\<rparr>,
     custom_params := Some \<lparr>python_version = None, sagemaker_job_name = Some ''night'', dashboard = None, region = None,
       merge = None, hyper_params = None\<rparr>\<rparr>"

definition demo_sm :: "string dict sage_maker" where
  "demo_sm = \<lparr>sm_conf = \<lparr>s3_output_bucket = ''out'', sm_role = ''role'', s3_nodata = ''s3://nodata'', security_group_ids = None, subnets = None\<rparr>,
     sm_descriptor_env = demo_env\<lparr>de_dacite := (\<lambda>_. Inr demo_training)\<rparr>,
     sm_download = (\<lambda>b k. py_raise (ClientError ''An error occurred (404)'')),
     sm_make = (\<lambda>_. py_return 30),
     sm_fit = (\<lambda>est vol data wait n c. (Inr n, dict_set c n ''InProgress'')),
     sm_describe_training_job = (\<lambda>n c. (case dict_get c (case n of Some x \<Rightarrow> x | None \<Rightarrow> []) of
         Some st \<Rightarrow> Inr [(''TrainingJobStatus'', PStr st)] | None \<Rightarrow> Inl (ClientError ''Requested resource not found.''), c)),
     sm_stop_training_job = (\<lambda>n c. (Inr (), dict_set c n ''Stopping'')),
     sm_put_metric_data = (\<lambda>_. py_return ()), sm_cloudwatch = demo_cw\<lparr>cw_put_dashboard := (\<lambda>_ _. py_return ())\<rparr>,
     sm_error_message = (\<lambda>x. case x of ClientError m \<Rightarrow> Some m | _ \<Rightarrow> None), sm_exc_str = (\<lambda>_. ''error'')\<rparr>"

definition demo_sm_payload :: "downloadable_content list \<Rightarrow> file_system_object list \<Rightarrow> fetcher_payload" where
  "demo_sm_payload ds ss = (demo_payload [(''info'', PDict [(''execution_engine'', PStr ''aws.sagemaker'')])])\<lparr>datasets := ds, scripts := ss\<rparr>"

definition demo_sm_world :: "string dict \<Rightarrow> string dict exec_world" where
  "demo_sm_world jobs = kworld.extend (idle_world []) \<lparr>resources = jobs\<rparr>"

lemma demo_sm_payload:
  "is_single_run (demo_sm_payload ds ss) = Inr True" "get_engine_id (demo_sm_payload ds ss) = Inr (PStr SM_ENGINE_ID)"
  by (simp_all add: demo_sm_payload_def demo_payload_def is_single_run_def get_engine_id_def info_get_def SM_ENGINE_ID_def)

lemma demo_sm_resources: "resources (demo_sm_world jobs) = jobs"
  by (simp add: demo_sm_world_def kworld.defs idle_world_def)


definition demo_dataset :: downloadable_content where
  "demo_dataset = (demo_source ''s3://b/k'' ''/data'')\<lparr>size_info := Some \<lparr>total_size = 100 * 1024 ^ 3, file_count = 1, max_size = 100 * 1024 ^ 3\<rparr>\<rparr>"

theorem training_volume_holds_data_witness:
  "\<exists>d est vol data c'. sm_prepare demo_sm (demo_sm_payload [demo_dataset] []) [] = (Inr (d, est, vol, data), c') \<and>
     100 * 1024 ^ 3 \<le> vol * 1024 ^ 3"
proof -
  have "\<not> isl (fst (sm_prepare demo_sm (demo_sm_payload [demo_dataset] []) []))" by code_simp
  then obtain d est vol data c' where 1: "sm_prepare demo_sm (demo_sm_payload [demo_dataset] []) [] = (Inr (d, est, vol, data), c')"
    by (cases "sm_prepare demo_sm (demo_sm_payload [demo_dataset] []) []"; cases "fst (sm_prepare demo_sm (demo_sm_payload [demo_dataset] []) [])") auto
  have 2: "datasets (demo_sm_payload [demo_dataset] []) = [demo_dataset]"
    "size_info demo_dataset = Some \<lparr>total_size = 100 * 1024 ^ 3, file_count = 1, max_size = 100 * 1024 ^ 3\<rparr>"
    by (simp_all add: demo_sm_payload_def demo_dataset_def)
  from training_volume_holds_data [OF 1] have "100 * 1024 ^ 3 \<le> vol * 1024 ^ 3" unfolding 2 by (simp add: 2)
  with 1 show ?thesis by blast
qed

lemma demo_sm_jobs_ok: "sm_jobs_ok demo_sm (\<lambda>c. set (map fst c))"
proof -
  have nf: "is_not_found_error (Some ''Requested resource not found.'')" by code_simp
  have k: "set (map fst (dict_set c n v)) \<subseteq> insert n (set (map fst c))" for c :: "string dict" and n v
    unfolding keys_dict_set by auto
  show ?thesis unfolding sm_jobs_ok_def
  proof (intro conjI allI impI)
    fix n and c :: "string dict"
    assume "n \<notin> set (map fst c)"
    then have "dict_get c n = None" by (simp only: dict_get_None_iff not_False_eq_True)
    with nf show "\<exists>m. fst (sm_describe_training_job demo_sm (Some n) c) = Inl (ClientError m) \<and>
        is_not_found_error (sm_error_message demo_sm (ClientError m))" by (simp add: demo_sm_def)
  next
    fix est vol data wait n and c :: "string dict"
    show "set (map fst (snd (sm_fit demo_sm est vol data wait n c))) \<subseteq> insert n (set (map fst c))"
      using k by (simp add: demo_sm_def del: keys_dict_set set_map)
  qed (simp_all add: demo_sm_def demo_cw_def keeps_def jobs_kept_def py_simps)
qed

theorem renamed_job_not_cancelled_witness:
  "\<exists>w'. exec_cancel sample_emitter [sm_engine_cancel demo_sm] (sample_event ''x'' (AnyPayload PNone)) ''c'' ''a'' False
      (snd (sm_engine_run 0 demo_sm (sample_event ''a'' (AnyPayload PNone)) (demo_sm_payload [] []) (demo_sm_world []))) =
    (Inl (no_resources_message ''a''), w') \<and> ''night'' \<in> set (map fst (resources w'))"
proof -
  let ?e = "sample_event ''a'' (AnyPayload PNone)" and ?p = "demo_sm_payload [] []"
  have a: "action_id ?e = ''a''" by (simp add: sample_event_def)
  have 1: "action_id ?e \<notin> set (map fst (resources (demo_sm_world [])))" by (simp add: demo_sm_resources)
  let ?d = "projr (descriptor_from_dict (sm_descriptor_env demo_sm) (contents (toml ?p)) (Some SM_CONFIG))"
  have "\<not> isl (descriptor_from_dict (sm_descriptor_env demo_sm) (contents (toml ?p)) (Some SM_CONFIG))" by code_simp
  then have 2: "descriptor_from_dict (sm_descriptor_env demo_sm) (contents (toml ?p)) (Some SM_CONFIG) = Inr ?d" by (simp add: sum.collapse)
  have "custom_params ?d \<noteq> None" by code_simp
  then have 3: "custom_params ?d = Some (the (custom_params ?d))" by (rule option.collapse [symmetric])
  have 5: "sagemaker_job_name (the (custom_params ?d)) = Some ''night''" by code_simp
  have "sm_run 0 demo_sm ?e ?p [] =
      Some (Inr \<lparr>job_id = ''night'', job_output = None, job_extras = []\<rparr>, [(''night'', ''InProgress'')])" by code_simp
  then have 4: "sm_run 0 demo_sm ?e ?p (resources (demo_sm_world [])) =
      Some (Inr \<lparr>job_id = ''night'', job_output = None, job_extras = []\<rparr>, [(''night'', ''InProgress'')])"
    unfolding demo_sm_resources .
  have 6: "''night'' \<noteq> []" "''night'' \<noteq> action_id ?e" by (simp_all add: a)
  from renamed_job_not_cancelled [OF demo_sm_jobs_ok 1 2 3 5 6 4, of sample_emitter "sample_event ''x'' (AnyPayload PNone)" "''c''" False]
  obtain w' where "exec_cancel sample_emitter [sm_engine_cancel demo_sm] (sample_event ''x'' (AnyPayload PNone)) ''c'' ''a'' False
      (snd (sm_engine_run 0 demo_sm ?e ?p (demo_sm_world []))) = (Inl (no_resources_message ''a''), w')"
    "set (map fst (resources w')) = {''night''}" unfolding a by (elim exE conjE) (simp only: list.set list.map prod.sel)
  then show ?thesis by (intro exI [of _ w'] conjI) (assumption, simp only: insert_iff simp_thms)
qed

theorem script_failure_unreported_witness:
  "fst (exec_handle_event (sm_executor_handler 0 demo_sm sample_emitter demo_service) (sample_event ''a'' (AnyPayload PNone))
     (demo_sm_payload [] [\<lparr>fso_dst = ''s3://b/k''\<rparr>]) (demo_sm_world [])) = Inl (ClientError ''An error occurred (404)'')"
proof -
  let ?p = "demo_sm_payload [] [\<lparr>fso_dst = ''s3://b/k''\<rparr>]"
  let ?d = "projr (descriptor_from_dict (sm_descriptor_env demo_sm) (contents (toml ?p)) (Some SM_CONFIG))"
  have 1: "em_status_topic sample_emitter = Some ''BAI_APP_STATUS''" by (simp add: sample_emitter_def)
  have "\<not> isl (descriptor_from_dict (sm_descriptor_env demo_sm) (contents (toml ?p)) (Some SM_CONFIG))" by code_simp
  then have 2: "descriptor_from_dict (sm_descriptor_env demo_sm) (contents (toml ?p)) (Some SM_CONFIG) = Inr ?d" by (simp add: sum.collapse)
  have "\<not> isl (create_shell_entrypoint ?d)" by code_simp
  then have 3: "create_shell_entrypoint ?d = Inr (projr (create_shell_entrypoint ?d))" by (simp add: sum.collapse)
  have 4: "scripts ?p = \<lparr>fso_dst = ''s3://b/k''\<rparr> # []" by (simp add: demo_sm_payload_def)
  have 5: "urlparse (fso_dst \<lparr>fso_dst = ''s3://b/k''\<rparr>) = Inr \<lparr>scheme = ''s3'', netloc = ''b'', url_path = ''/k''\<rparr>" by code_simp
  have 6: "sm_download demo_sm n k (resources (demo_sm_world [])) = (Inl (ClientError ''An error occurred (404)''), [])" for n k
    by (simp add: demo_sm_def demo_sm_resources py_raise_def)
  show ?thesis
    using script_failure_unreported [OF 1 _ demo_sm_payload 2 3 4 5 6, where cfg = demo_service] by auto
qed

end
