(* ===== verification/Bff.thy ===== *)
theory Bff
  imports Py_Strings "HOL-Library.Char_ord" "HOL-Library.List_Lexorder"
begin

text \<open>
  The front end (\<open>bai-bff\<close>, in Clojure): \<open>events.clj\<close>, \<open>http_api.clj\<close>, \<open>eventbus.clj\<close>,
  \<open>persistence.clj\<close>, \<open>kafka_sink.clj\<close>, \<open>kafka_source.clj\<close>.  A request becomes an event that is put on a
  channel, from which the sink sends it to Kafka; the source reads the status events of the other
  services and stores them in DynamoDB, where the client of the command line asks for them page by page.

  Maps with keywords are \<open>PDict\<close>, vectors and lists are \<open>PList\<close>, \<open>nil\<close> is \<open>PNone\<close>.  The JSON, TOML and
  schema libraries, the digest, the crontab parser, S3, DynamoDB, Elasticsearch and the printed form of a
  collection are fields of \<open>bff_env\<close>.  Left out: the ring middleware, the properties of the Kafka
  clients, the start and the stop of the services.

  Shown: what a submission leads to on every branch; that the pages of the status of an action list
  each of its events once, in order, and that asking again ends; that offsets are committed only after
  the events are stored; and that the client asks again for an event whose two time stamps differ.
\<close>

section \<open>Values\<close>

definition kw :: "string \<Rightarrow> pyval \<Rightarrow> pyval" where
  "kw k v = (case v of PDict d \<Rightarrow> (case dict_get d k of Some x \<Rightarrow> x | None \<Rightarrow> PNone) | _ \<Rightarrow> PNone)"

fun kw_path :: "string list \<Rightarrow> pyval \<Rightarrow> pyval" where
  "kw_path [] v = v"
| "kw_path (k # ks) v = kw_path ks (kw k v)"

definition clj_str :: "(pyval \<Rightarrow> string) \<Rightarrow> pyval \<Rightarrow> string" where
  "clj_str print v =
     (case v of
        PNone \<Rightarrow> []
      | PBool b \<Rightarrow> if b then ''true'' else ''false''
      | PInt i \<Rightarrow> show_int i
      | PStr s \<Rightarrow> s
      | _ \<Rightarrow> print v)"

definition clj_opt :: "string option \<Rightarrow> pyval" where
  "clj_opt s = (case s of None \<Rightarrow> PNone | Some t \<Rightarrow> PStr t)"

definition clj_keyword :: "pyval \<Rightarrow> string option" where
  "clj_keyword v = (case v of PStr s \<Rightarrow> Some s | _ \<Rightarrow> None)"

fun assoc_in :: "pyval \<Rightarrow> string list \<Rightarrow> pyval \<Rightarrow> pyval res" where
  "assoc_in v [] x = Inr x"
| "assoc_in v (k # ks) x =
     (case v of
        PDict d \<Rightarrow> res_bind (assoc_in (kw k v) ks x) (\<lambda>y. Inr (PDict (dict_set d k y)))
      | PNone \<Rightarrow> res_bind (assoc_in PNone ks x) (\<lambda>y. Inr (PDict [(k, y)]))
      | _ \<Rightarrow> Inl (OtherException ''ClassCastException''))"

text \<open>
  The elements over which \<open>mapv\<close> goes.  The elements of a string are characters, on which both functions
  that are mapped here raise.
\<close>

definition clj_seq :: "pyval \<Rightarrow> pyval list res" where
  "clj_seq v =
     (case v of
        PNone \<Rightarrow> Inr []
      | PList xs \<Rightarrow> Inr xs
      | PDict d \<Rightarrow> Inr (map (\<lambda>(k, x). PList [PStr k, x]) d)
      | PStr s \<Rightarrow> if s = [] then Inr [] else Inl (OtherException ''IllegalArgumentException'')
      | _ \<Rightarrow> Inl (OtherException ''IllegalArgumentException''))"

definition select_keys :: "string list \<Rightarrow> pyval \<Rightarrow> pyval dict res" where
  "select_keys ks v =
     (case v of
        PDict d \<Rightarrow> Inr (List.map_filter (\<lambda>k. map_option (Pair k) (dict_get d k)) ks)
      | PNone \<Rightarrow> Inr []
      | PList _ \<Rightarrow> Inr []
      | _ \<Rightarrow> Inl (OtherException ''IllegalArgumentException''))"

definition second_of :: "pyval \<Rightarrow> pyval res" where
  "second_of v =
     (case v of
        PNone \<Rightarrow> Inr PNone
      | PList xs \<Rightarrow> Inr (if 1 < length xs then xs ! 1 else PNone)
      | PStr s \<Rightarrow> Inr (if 1 < length s then PStr [s ! 1] else PNone)
      | _ \<Rightarrow> Inl (OtherException ''UnsupportedOperationException''))"

section \<open>The parameters and the state\<close>

record status_item =
  si_action :: string
  si_sort :: string
  si_client :: string
  si_event :: pyval

record job_item =
  ji_client :: string
  ji_sort :: string
  ji_action :: string
  ji_timestamp :: pyval

text \<open>
  A query names the limit, the partition, the lower bound of the sort key and the key to start after; that
  of the status table also the client to filter for.
\<close>

record 'd bff_env =
  be_decode64 :: "string \<Rightarrow> string res"
  be_sha1 :: "string \<Rightarrow> string"
  be_toml :: "string \<Rightarrow> pyval res"
  be_validate_descriptor :: "pyval \<Rightarrow> pyval res"
  be_validate_submit :: "pyval \<Rightarrow> pyval res"
  be_validate_command :: "pyval \<Rightarrow> pyval res"
  be_next_date :: "string \<Rightarrow> bool res"
  be_parse :: "string \<Rightarrow> pyval res"
  be_generate :: "pyval \<Rightarrow> string"
  be_print :: "pyval \<Rightarrow> string"
  be_message :: "pyexc \<Rightarrow> string"
  be_bucket :: string
  be_hostname :: "string option"
  be_version :: "string option"
  be_put_object :: "string \<Rightarrow> string \<Rightarrow> ('d, unit) py"
  be_delete_file :: "string \<Rightarrow> ('d, unit) py"
  be_fetch_logs :: "string \<Rightarrow> string \<Rightarrow> ('d, pyval) py"
  ddb_put_status :: "status_item \<Rightarrow> ('d, unit) py"
  ddb_query_status :: "nat \<Rightarrow> string \<Rightarrow> string \<Rightarrow> string option \<Rightarrow> string \<Rightarrow> ('d, status_item list) py"
  ddb_put_job :: "job_item \<Rightarrow> ('d, unit) py"
  ddb_query_jobs :: "nat \<Rightarrow> string \<Rightarrow> string \<Rightarrow> string option \<Rightarrow> ('d, job_item list) py"

record 'd bff_world =
  bw_uuids :: "nat \<Rightarrow> string"
  bw_used :: nat
  bw_clock :: "nat \<Rightarrow> int"
  bw_ticks :: nat
  bw_channel :: "pyval list list"
  bw_scripts :: "string list"
  bw_commits :: nat
  bw_db :: 'd

definition on_db :: "('d, 'a) py \<Rightarrow> ('d bff_world, 'a) py" where
  "on_db m = (\<lambda>w. case m (bw_db w) of (r, d) \<Rightarrow> (r, w\<lparr>bw_db := d\<rparr>))"

definition bff_uuid :: "('d bff_world, string) py" where
  "bff_uuid = (\<lambda>w. (Inr (bw_uuids w (bw_used w)), w\<lparr>bw_used := Suc (bw_used w)\<rparr>))"

definition current_time_millis :: "('d bff_world, int) py" where
  "current_time_millis = (\<lambda>w. (Inr (bw_clock w (bw_ticks w)), w\<lparr>bw_ticks := Suc (bw_ticks w)\<rparr>))"

section \<open>Events (\<open>events.clj\<close>)\<close>

definition status_map :: "string dict" where
  "status_map = [(''error'', ''ERROR''), (''initializing'', ''INITIALIZING''), (''running'', ''RUNNING''), (''failed'', ''FAILED''),
     (''succeeded'', ''SUCCEEDED''), (''pending'', ''PENDING''), (''cancelled'', ''CANCELLED'')]"

definition decode_document :: "'d bff_env \<Rightarrow> pyval \<Rightarrow> pyval res" where
  "decode_document E ev =
     (case kw_path [''payload'', ''toml'', ''doc''] ev of
        PStr doc \<Rightarrow>
          res_bind (be_decode64 E doc) (\<lambda>bytes.
          res_bind (res_bind (be_toml E bytes) (be_validate_descriptor E)) (\<lambda>descriptor.
          res_bind (assoc_in ev [''payload'', ''toml'', ''verified'']
              (PBool (kw_path [''payload'', ''toml'', ''sha1''] ev = PStr (be_sha1 E bytes)))) (\<lambda>ev.
            assoc_in ev [''payload'', ''toml'', ''contents''] descriptor)))
      | _ \<Rightarrow> Inl (OtherException ''NullPointerException''))"

definition valid_crontab :: "'d bff_env \<Rightarrow> string \<Rightarrow> bool res" where
  "valid_crontab E s = be_next_date E (''* '' @ s)"

definition validate_toml_crontab :: "'d bff_env \<Rightarrow> pyval \<Rightarrow> pyval res" where
  "validate_toml_crontab E ev =
     (let s = kw_path [''payload'', ''toml'', ''contents'', ''info'', ''scheduling''] ev in
      if s = PNone \<or> s = PBool False then Inr ev
      else
        res_bind (valid_crontab E (clj_str (be_print E) s)) (\<lambda>ok.
          if ok \<or> s = PStr ''single_run'' then Inr ev
          else Inl (OtherException (''INVALID CRONTAB ENTRY: '' @ clj_str (be_print E) s))))"

definition content_keys :: "string list" where "content_keys = [''src'', ''md5'', ''id'', ''path'']"

definition gleaned :: "pyval \<Rightarrow> pyval res" where
  "gleaned v =
     res_bind (clj_seq v) (\<lambda>xs.
     res_bind (res_map (select_keys content_keys) xs) (\<lambda>ds. Inr (PList (map PDict (filter (\<lambda>d. d \<noteq> []) ds)))))"

definition glean_dataset_info :: "pyval \<Rightarrow> pyval res" where
  "glean_dataset_info ev =
     res_bind (gleaned (kw_path [''payload'', ''toml'', ''contents'', ''data'', ''sources''] ev)) (assoc_in ev [''payload'', ''datasets''])"

definition glean_server_model_info :: "pyval \<Rightarrow> pyval res" where
  "glean_server_model_info ev =
     res_bind (gleaned (kw_path [''payload'', ''toml'', ''contents'', ''server'', ''models''] ev)) (assoc_in ev [''payload'', ''models''])"

definition generate_s3_uri :: "'d bff_env \<Rightarrow> string \<Rightarrow> string" where
  "generate_s3_uri E filename = ''s3://'' @ be_bucket E @ ''/anubis0/'' @ filename"

definition generate_s3_path :: "string \<Rightarrow> string" where
  "generate_s3_path filename = ''anubis0/'' @ filename"

definition glean_script_info :: "'d bff_env \<Rightarrow> pyval \<Rightarrow> pyval res" where
  "glean_script_info E ev =
     res_bind (clj_seq (kw_path [''payload'', ''toml'', ''contents'', ''ml'', ''script''] ev)) (\<lambda>xs.
     res_bind (res_map second_of xs) (\<lambda>fs.
       assoc_in ev [''payload'', ''scripts'']
         (PList (map (\<lambda>f. PDict [(''dst'', PStr (generate_s3_uri E (clj_str (be_print E) f)))]) fs))))"

text \<open>\<open>conj\<close> adds at the end of a vector, begins a list for \<open>nil\<close> and merges into a map.\<close>

definition add_my_visited_entry :: "'d bff_env \<Rightarrow> pyval \<Rightarrow> pyval res" where
  "add_my_visited_entry E ev =
     (let entry = [(''svc'', PStr ''bai-bff''), (''tstamp'', kw ''tstamp'' ev), (''version'', clj_opt (be_version E)),
        (''node'', clj_opt (be_hostname E))] in
      case kw ''visited'' ev of
        PList vs \<Rightarrow> assoc_in ev [''visited''] (PList (vs @ [PDict entry]))
      | PNone \<Rightarrow> assoc_in ev [''visited''] (PList [PDict entry])
      | PDict d \<Rightarrow> assoc_in ev [''visited''] (PDict (dict_update d entry))
      | _ \<Rightarrow> Inl (OtherException ''ClassCastException''))"

definition submitted_event :: "pyval \<Rightarrow> int \<Rightarrow> string \<Rightarrow> string \<Rightarrow> string \<Rightarrow> pyval" where
  "submitted_event body tstamp message action type =
     PDict [(''message_id'', PStr message), (''client_id'', kw ''client_id'' body), (''action_id'', PStr action),
       (''client_version'', kw ''client_version'' body), (''client_sha1'', kw ''client_sha1'' body),
       (''client_username'', kw ''client_username'' body), (''date'', kw ''date'' body), (''authenticated'', PBool False),
       (''tstamp'', PInt tstamp), (''visited'', kw ''visited'' body), (''payload'', kw ''payload'' body), (''type'', PStr type)]"

definition completed_event :: "'d bff_env \<Rightarrow> pyval \<Rightarrow> pyval res" where
  "completed_event E ev =
     res_bind (decode_document E ev) (\<lambda>ev.
     res_bind (validate_toml_crontab E ev) (\<lambda>ev.
     res_bind (glean_dataset_info ev) (\<lambda>ev.
     res_bind (glean_server_model_info ev) (\<lambda>ev.
     res_bind (glean_script_info E ev) (add_my_visited_entry E)))))"

definition message_to_submit_descriptor_event :: "'d bff_env \<Rightarrow> pyval \<Rightarrow> ('d bff_world, pyval) py" where
  "message_to_submit_descriptor_event E body =
     py_bind current_time_millis (\<lambda>tstamp.
     py_then (py_lift (be_validate_submit E body))
       (py_bind bff_uuid (\<lambda>m. py_bind bff_uuid (\<lambda>a.
          py_lift (completed_event E (submitted_event body tstamp m a ''BAI_APP_BFF''))))))"

definition message_to_cmd_event :: "'d bff_env \<Rightarrow> pyval \<Rightarrow> ('d bff_world, pyval) py" where
  "message_to_cmd_event E body =
     py_bind current_time_millis (\<lambda>tstamp.
     py_then (py_lift (be_validate_command E body))
       (py_bind bff_uuid (\<lambda>m. py_bind bff_uuid (\<lambda>a.
          py_lift (add_my_visited_entry E (submitted_event body tstamp m a ''CMD_SUBMIT''))))))"

definition bff_status_event :: "'d bff_env \<Rightarrow> pyval \<Rightarrow> string \<Rightarrow> string \<Rightarrow> ('d bff_world, pyval) py" where
  "bff_status_event E ev status msg =
     py_bind current_time_millis (\<lambda>tstamp. py_bind bff_uuid (\<lambda>m.
       py_lift (add_my_visited_entry E
         (PDict [(''message_id'', PStr m), (''client_id'', kw ''client_id'' ev), (''action_id'', kw ''action_id'' ev),
            (''client_version'', kw ''client_version'' ev), (''date'', kw ''date'' ev), (''authenticated'', PBool False),
            (''client_username'', kw ''client_username'' ev), (''tstamp'', PInt tstamp), (''visited'', kw ''visited'' ev),
            (''payload'', PDict [(''message'', PStr msg), (''status'', clj_opt (dict_get status_map status)),
               (''srv_event'', kw ''payload'' ev)]),
            (''type'', PStr ''BAI_APP_STATUS'')]))))"

section \<open>Tables (\<open>persistence.clj\<close>)\<close>

definition query_limit :: nat where "query_limit = 100"

definition make_client_job_status_table_sort_key :: "'d bff_env \<Rightarrow> pyval \<Rightarrow> string" where
  "make_client_job_status_table_sort_key E ev =
     clj_str (be_print E) (kw ''tstamp'' ev) @ '':'' @ clj_str (be_print E) (kw ''message_id'' ev)"

definition make_client_job_table_sort_key :: "'d bff_env \<Rightarrow> pyval \<Rightarrow> string" where
  "make_client_job_table_sort_key E ev =
     clj_str (be_print E) (kw ''tstamp'' ev) @ '':'' @ clj_str (be_print E) (kw ''action_id'' ev)"

definition save_client_job_status :: "'d bff_env \<Rightarrow> string \<Rightarrow> string \<Rightarrow> pyval \<Rightarrow> ('d bff_world, unit) py" where
  "save_client_job_status E client action ev =
     py_catch
       (on_db (ddb_put_status E \<lparr>si_action = action, si_sort = make_client_job_status_table_sort_key E ev,
          si_client = client, si_event = ev\<rparr>))
       (\<lambda>_. py_return ())"

definition start_key :: "string \<Rightarrow> string option" where
  "start_key from = (if from = ''0'' then None else Some from)"

definition get_client_job_status :: "'d bff_env \<Rightarrow> string \<Rightarrow> string \<Rightarrow> string \<Rightarrow> ('d bff_world, pyval list) py" where
  "get_client_job_status E client action from =
     py_bind (on_db (ddb_query_status E query_limit action from (start_key from) client)) (\<lambda>items.
       py_return (map si_event items))"

definition save_client_job :: "'d bff_env \<Rightarrow> pyval \<Rightarrow> ('d bff_world, unit) py" where
  "save_client_job E ev =
     py_catch
       (on_db (ddb_put_job E \<lparr>ji_client = clj_str (be_print E) (kw ''client_id'' ev), ji_sort = make_client_job_table_sort_key E ev,
          ji_action = clj_str (be_print E) (kw ''action_id'' ev), ji_timestamp = kw ''tstamp'' ev\<rparr>))
       (\<lambda>_. py_return ())"

definition query_client_jobs :: "'d bff_env \<Rightarrow> string \<Rightarrow> string \<Rightarrow> ('d bff_world, pyval list) py" where
  "query_client_jobs E client from =
     py_bind (on_db (ddb_query_jobs E query_limit client from (start_key from))) (\<lambda>items.
       py_return (map (\<lambda>i. PDict [(''action_id'', PStr (ji_action i)), (''timestamp'', ji_timestamp i)]) items))"

section \<open>The event bus (\<open>eventbus.clj\<close>)\<close>

definition update_status_store :: "'d bff_env \<Rightarrow> pyval \<Rightarrow> ('d bff_world, unit) py" where
  "update_status_store E ev =
     (case (clj_keyword (kw ''client_id'' ev), clj_keyword (kw ''action_id'' ev)) of
        (Some client, Some action) \<Rightarrow> save_client_job_status E client action ev
      | _ \<Rightarrow> py_raise (OtherException ''Could not insert event''))"

definition process_status_records :: "'d bff_env \<Rightarrow> pyval list \<Rightarrow> ('d bff_world, pyval) py" where
  "process_status_records E events =
     py_then (py_for events (\<lambda>ev. if ev = PNone then py_return () else update_status_store E ev)) (py_return (PBool True))"

definition process_cmd_return_records :: "'d bff_env \<Rightarrow> pyval list \<Rightarrow> ('d bff_world, pyval) py" where
  "process_cmd_return_records E events =
     py_then (py_for events (\<lambda>ev. if ev = PNone then py_return () else update_status_store E ev)) (py_return (PBool True))"

definition since_or_0 :: "string option \<Rightarrow> string" where
  "since_or_0 since = (case since of None \<Rightarrow> ''0'' | Some s \<Rightarrow> s)"

definition get_client_jobs :: "'d bff_env \<Rightarrow> string \<Rightarrow> string option \<Rightarrow> ('d bff_world, pyval) py" where
  "get_client_jobs E client since =
     py_bind (query_client_jobs E client (since_or_0 since)) (\<lambda>xs. py_return (PDict [(''action_ids'', PList xs)]))"

definition get_client_job_status_for_action ::
  "'d bff_env \<Rightarrow> string \<Rightarrow> string \<Rightarrow> string option \<Rightarrow> ('d bff_world, pyval) py" where
  "get_client_job_status_for_action E client action since =
     py_bind (get_client_job_status E client action (since_or_0 since)) (\<lambda>xs. py_return (PList xs))"

record script_map =
  filename :: string
  tempfile :: string

definition scripts_to_s3 :: "'d bff_env \<Rightarrow> script_map \<Rightarrow> ('d bff_world, unit) py" where
  "scripts_to_s3 E f =
     py_then (on_db (be_put_object E (generate_s3_path (filename f)) (tempfile f)))
       (py_then (py_modify (\<lambda>w. w\<lparr>bw_scripts := List.insert (filename f) (bw_scripts w)\<rparr>))
          (on_db (be_delete_file E (tempfile f))))"

definition has_file :: "string \<Rightarrow> 'd bff_world \<Rightarrow> bool" where
  "has_file f w = (f \<in> set (bw_scripts w))"

definition bff_send :: "pyval \<Rightarrow> ('d bff_world, unit) py" where
  "bff_send ev = py_modify (\<lambda>w. w\<lparr>bw_channel := bw_channel w @ [[ev]]\<rparr>)"

section \<open>Requests (\<open>http_api.clj\<close>)\<close>

datatype bff_response = Response int pyval

definition bad_request :: "string \<Rightarrow> bff_response" where "bad_request s = Response 400 (PStr s)"

text \<open>\<open>json/parse-string\<close> gives \<open>nil\<close> for \<open>nil\<close>.\<close>

definition parse_body :: "'d bff_env \<Rightarrow> string option \<Rightarrow> pyval res" where
  "parse_body E body = (case body of None \<Rightarrow> Inr PNone | Some s \<Rightarrow> be_parse E s)"

definition dispatch_submit_job :: "'d bff_env \<Rightarrow> script_map option \<Rightarrow> string option \<Rightarrow> ('d bff_world, bff_response) py" where
  "dispatch_submit_job E script body =
     py_catch
       (py_then (case script of None \<Rightarrow> py_return () | Some f \<Rightarrow> scripts_to_s3 E f)
         (py_bind (py_lift (parse_body E body)) (\<lambda>message.
          py_bind (message_to_submit_descriptor_event E message) (\<lambda>ev.
            py_then (save_client_job E ev)
              (py_bind (bff_status_event E ev ''succeeded'' ''Submission has been successfully received...'') (\<lambda>st.
                py_then (bff_send st) (py_then (bff_send ev) (py_return (Response 200 (kw ''action_id'' ev))))))))))
       (\<lambda>e. py_return (bad_request (''Could Not Parse Submitted Descriptor: '' @ be_message E e)))"

definition dispatch_delete_job :: "'d bff_env \<Rightarrow> string option \<Rightarrow> string \<Rightarrow> ('d bff_world, bff_response) py" where
  "dispatch_delete_job E body action =
     py_catch
       (py_bind (py_lift (case body of None \<Rightarrow> Inl (OtherException ''IllegalArgumentException'') | Some s \<Rightarrow> be_parse E s)) (\<lambda>message.
        py_bind (message_to_cmd_event E message) (\<lambda>ev.
        py_bind (bff_status_event E ev ''pending'' (''Action received, dispatching delete for <'' @ action @ ''>'')) (\<lambda>st.
          py_then (bff_send st) (py_then (bff_send ev) (py_return (Response 200 (kw ''action_id'' ev))))))))
       (\<lambda>e. py_return (bad_request (''Could Not Parse Submitted Command '' @ be_message E e)))"

definition post_proc_results :: "pyval \<Rightarrow> bff_response" where
  "post_proc_results v = (if v = PNone \<or> v = PList [] \<or> v = PDict [] then Response 404 PNone else Response 200 v)"

datatype http_method = GET | POST | DELETE

record bff_request =
  rq_method :: http_method
  rq_path :: "string list"
  rq_since :: "string option"
  rq_script :: "script_map option"
  rq_body :: "string option"

text \<open>The routes below \<open>/api/job\<close>: the first that matches the segments of the path answers.\<close>

definition job_routes :: "'d bff_env \<Rightarrow> bff_request \<Rightarrow> ('d bff_world, bff_response) py" where
  "job_routes E rq =
     (case (rq_method rq, rq_path rq) of
        (GET, [a, b]) \<Rightarrow>
          if a = ''script'' then (\<lambda>w. (Inr (Response 200 (PStr (if has_file b w then ''true'' else ''false''))), w))
          else py_bind (get_client_job_status_for_action E a b (Some (since_or_0 (rq_since rq)))) (\<lambda>v. py_return (post_proc_results v))
      | (GET, [a, b, c]) \<Rightarrow>
          if a = ''results'' then py_bind (on_db (be_fetch_logs E b c)) (\<lambda>v. py_return (Response 200 v))
          else py_return (Response 404 PNone)
      | (POST, [a]) \<Rightarrow> if a = ''descriptor'' then dispatch_submit_job E (rq_script rq) (rq_body rq) else py_return (Response 404 PNone)
      | (GET, [a]) \<Rightarrow> py_bind (get_client_jobs E a (Some (since_or_0 (rq_since rq)))) (\<lambda>v. py_return (post_proc_results v))
      | (DELETE, [a, b]) \<Rightarrow> dispatch_delete_job E (rq_body rq) b
      | _ \<Rightarrow> py_return (Response 404 PNone))"

section \<open>The sink and the source\<close>

text \<open>One turn of the loop of the sink, which sends the first element of what it takes from the channel.\<close>

definition sink_turn :: "'d bff_env \<Rightarrow> string list \<Rightarrow> pyval list \<Rightarrow> (string \<times> string \<times> string) list" where
  "sink_turn E allowed taken =
     (let ev = (case taken of [] \<Rightarrow> PNone | x # _ \<Rightarrow> x) in
      case kw ''type'' ev of
        PStr t \<Rightarrow> if t \<in> set allowed then [(t, clj_str (be_print E) (kw ''client_id'' ev), be_generate E ev)] else []
      | _ \<Rightarrow> [])"

definition sink_sends :: "'d bff_env \<Rightarrow> string list \<Rightarrow> pyval list list \<Rightarrow> (string \<times> string \<times> string) list" where
  "sink_sends E allowed channel = concat (map (sink_turn E allowed) channel)"

definition records_to_events :: "'d bff_env \<Rightarrow> string option list \<Rightarrow> pyval list" where
  "records_to_events E records =
     filter (\<lambda>v. v \<noteq> PNone) (map (\<lambda>r. case parse_body E r of Inr v \<Rightarrow> v | Inl _ \<Rightarrow> PNone) records)"

definition source_handler :: "'d bff_env \<Rightarrow> string \<Rightarrow> pyval list \<Rightarrow> ('d bff_world, pyval) py" where
  "source_handler E topic =
     (if topic = ''BAI_APP_STATUS'' then process_status_records E
      else if topic = ''CMD_RETURN'' then process_cmd_return_records E
      else (\<lambda>_. py_return PNone))"

text \<open>\<open>every?\<close> over a lazy sequence: a topic is handled only if the handlers before it returned \<open>true\<close>.\<close>

fun every_topic :: "'d bff_env \<Rightarrow> (string \<Rightarrow> string option list) \<Rightarrow> string list \<Rightarrow> ('d bff_world, bool) py" where
  "every_topic E records [] = py_return True"
| "every_topic E records (t # ts) =
     py_bind (source_handler E t (records_to_events E (records t))) (\<lambda>v.
       if v = PBool True then every_topic E records ts else py_return False)"

fun source_loop :: "'d bff_env \<Rightarrow> string list \<Rightarrow> (string \<Rightarrow> string option list) list \<Rightarrow> ('d bff_world, unit) py" where
  "source_loop E topics [] = py_return ()"
| "source_loop E topics (records # polls) =
     py_bind (every_topic E records topics) (\<lambda>all.
       py_then (if all then py_modify (\<lambda>w. w\<lparr>bw_commits := Suc (bw_commits w)\<rparr>) else py_return ())
         (source_loop E topics polls))"

section \<open>What is expected of DynamoDB\<close>

text \<open>
  \<open>rows d a\<close> are the items of the status table under the partition key \<open>a\<close>.  They are sorted by the sort
  key.  Putting an item replaces that with the same keys; a put that raises may have been done or not.  A
  query changes nothing and gives, of the items from the bound on and after the start key, the
  first ones, at least one if there is one and at most as many as the limit; the filter is applied to these.
\<close>

fun upsert :: "('i \<Rightarrow> string) \<Rightarrow> 'i \<Rightarrow> 'i list \<Rightarrow> 'i list" where
  "upsert key i [] = [i]"
| "upsert key i (x # xs) =
     (if key i < key x then i # x # xs else if key i = key x then i # xs else x # upsert key i xs)"

definition after :: "('i \<Rightarrow> string) \<Rightarrow> string \<Rightarrow> string option \<Rightarrow> 'i list \<Rightarrow> 'i list" where
  "after key from start xs = filter (\<lambda>x. from \<le> key x \<and> (case start of None \<Rightarrow> True | Some k \<Rightarrow> k < key x)) xs"

definition ddb_ok :: "'d bff_env \<Rightarrow> ('d \<Rightarrow> string \<Rightarrow> status_item list) \<Rightarrow> bool" where
  "ddb_ok E rows =
     ((\<forall>d a. sorted_wrt (<) (map si_sort (rows d a))) \<and>
      (\<forall>i d r d'. ddb_put_status E i d = (r, d') \<longrightarrow>
         rows d' = (rows d)(si_action i := upsert si_sort i (rows d (si_action i))) \<or> isl r \<and> rows d' = rows d) \<and>
      (\<forall>lim a from st c d r d'. ddb_query_status E lim a from st c d = (r, d') \<longrightarrow> rows d' = rows d \<and>
         (\<forall>xs. r = Inr xs \<longrightarrow> (\<exists>n \<le> lim. (n = 0 \<longrightarrow> lim = 0) \<and>
            xs = filter (\<lambda>i. si_client i = c) (take n (after si_sort from st (rows d a)))))))"

definition ddb_answers :: "'d bff_env \<Rightarrow> bool" where
  "ddb_answers E = ((\<forall>i d. \<not> isl (fst (ddb_put_status E i d))) \<and> (\<forall>lim a from st c d. \<not> isl (fst (ddb_query_status E lim a from st c d))))"

lemma upsert_set: "set (upsert key i xs) \<subseteq> insert i (set xs)"
  by (induction xs) auto

lemma upsert_in: "i \<in> set (upsert key i xs)"
  by (induction xs) auto

lemma upsert_keeps: "x \<in> set xs \<Longrightarrow> key x \<noteq> key i \<Longrightarrow> x \<in> set (upsert key i xs)"
  by (induction xs) auto

lemma upsert_sorted: "sorted_wrt (<) (map key xs) \<Longrightarrow> sorted_wrt (<) (map key (upsert key i xs))"
proof (induction xs)
  case (Cons x xs)
  have "\<forall>y \<in> set (upsert key i xs). key x < key y" if "key x < key i"
    using upsert_set [of key i xs] Cons.prems that by auto
  with Cons show ?case by (auto simp: not_less_iff_gr_or_eq)
qed simp

lemma after_subset: "set (after key from st xs) \<subseteq> set xs"
  by (auto simp: after_def)

lemma ddb_ok_sorted: "ddb_ok E rows \<Longrightarrow> sorted_wrt (<) (map si_sort (rows d a))"
  by (simp add: ddb_ok_def)

lemma last_take:
  assumes "0 < m" "m \<le> length xs"
  shows "last (take m xs) = xs ! (m - 1)"
proof -
  have "take m xs \<noteq> []" "length (take m xs) = m" using assms by auto
  then show ?thesis using assms(1) by (simp add: last_conv_nth)
qed

lemma after_rest:
  assumes "sorted_wrt (<) (map key xs)" and "0 < n" "n \<le> length (after key from st xs)"
    and k: "k = key (after key from st xs ! (n - 1))"
  shows "after key k (Some k) xs = drop n (after key from st xs)"
proof -
  let ?M = "after key from st xs"
  have M: "sorted_wrt (<) (map key ?M)"
    using assms(1) unfolding after_def by (simp add: sorted_wrt_map sorted_wrt_filter)
  have "\<forall>x \<in> set ?M. from \<le> key x \<and> (case st of None \<Rightarrow> True | Some j \<Rightarrow> j < key x)" by (simp add: after_def)
  moreover have "?M ! (n - 1) \<in> set ?M" using assms(2,3) by simp
  ultimately have "from \<le> k" "case st of None \<Rightarrow> True | Some j \<Rightarrow> j < k" unfolding k by blast+
  then have 1: "after key k (Some k) xs = filter (\<lambda>x. k < key x) ?M"
    unfolding after_def by (auto intro!: filter_cong split: option.splits)
  have "\<not> k < key x" if "x \<in> set (take n ?M)" for x
  proof -
    from that obtain i where i: "i < n" "x = ?M ! i" using assms(3) by (auto simp: in_set_conv_nth)
    show ?thesis
    proof (cases "i = n - 1")
      case False
      then have "key (?M ! i) < key (?M ! (n - 1))"
        using sorted_wrt_nth_less [OF M, of i "n - 1"] i assms(3) by simp
      then show ?thesis using i k by simp
    qed (simp add: i k)
  qed
  moreover have "k < key x" if "x \<in> set (drop n ?M)" for x
  proof -
    from that obtain i where i: "i < length ?M - n" "x = ?M ! (n + i)" by (auto simp: in_set_conv_nth)
    then show ?thesis using sorted_wrt_nth_less [OF M, of "n - 1" "n + i"] assms(2,3) k by simp
  qed
  ultimately have "filter (\<lambda>x. k < key x) (take n ?M @ drop n ?M) = drop n ?M"
    unfolding filter_append by (simp add: filter_empty_conv)
  with 1 show ?thesis by simp
qed

section \<open>Pages\<close>

text \<open>What a client reads that asks for the events after the last one it has, until there are none.\<close>

fun all_pages :: "nat \<Rightarrow> 'd bff_env \<Rightarrow> string \<Rightarrow> string \<Rightarrow> string \<Rightarrow> 'd bff_world \<Rightarrow> pyval list option" where
  "all_pages 0 E client action since w = None"
| "all_pages (Suc fuel) E client action since w =
     (case get_client_job_status E client action since w of
        (Inl _, w) \<Rightarrow> None
      | (Inr xs, w) \<Rightarrow>
          if xs = [] then Some []
          else map_option ((@) xs) (all_pages fuel E client action (make_client_job_status_table_sort_key E (last xs)) w))"

definition rows_of :: "'d bff_env \<Rightarrow> string \<Rightarrow> status_item list \<Rightarrow> bool" where
  "rows_of E client xs =
     (\<forall>i \<in> set xs. si_client i = client \<and> si_sort i = make_client_job_status_table_sort_key E (si_event i))"

lemma ddb_ok_query:
  assumes "ddb_ok E rows" and "ddb_query_status E lim a from st c d = (Inr xs, d')"
  shows "rows d' = rows d" and "\<exists>n \<le> lim. (n = 0 \<longrightarrow> lim = 0) \<and>
    xs = filter (\<lambda>i. si_client i = c) (take n (after si_sort from st (rows d a)))"
proof -
  from assms(1) have "ddb_query_status E lim a from st c d = (Inr xs, d') \<longrightarrow> rows d' = rows d \<and>
      (\<forall>ys. Inr xs = (Inr ys :: status_item list res) \<longrightarrow> (\<exists>n \<le> lim. (n = 0 \<longrightarrow> lim = 0) \<and>
         ys = filter (\<lambda>i. si_client i = c) (take n (after si_sort from st (rows d a)))))"
    unfolding ddb_ok_def by metis
  with assms(2) show "rows d' = rows d" and "\<exists>n \<le> lim. (n = 0 \<longrightarrow> lim = 0) \<and>
    xs = filter (\<lambda>i. si_client i = c) (take n (after si_sort from st (rows d a)))" by simp_all
qed

lemma page_run:
  assumes "ddb_ok E rows" "ddb_answers E" "rows_of E client (rows (bw_db w) action)"
  obtains n d where "get_client_job_status E client action since w =
      (Inr (map si_event (take n (after si_sort since (start_key since) (rows (bw_db w) action)))), w\<lparr>bw_db := d\<rparr>)"
    "rows d = rows (bw_db w)" "0 < n"
proof -
  let ?M = "after si_sort since (start_key since) (rows (bw_db w) action)"
  obtain r d where q: "ddb_query_status E query_limit action since (start_key since) client (bw_db w) = (r, d)"
    by (cases "ddb_query_status E query_limit action since (start_key since) client (bw_db w)")
  have "\<not> isl (fst (ddb_query_status E query_limit action since (start_key since) client (bw_db w)))"
    using assms(2) by (simp add: ddb_answers_def)
  with q obtain xs where r: "r = Inr xs" by (cases r) auto
  note d = ddb_ok_query [OF assms(1) q [unfolded r]]
  from d(2) obtain n where n: "n = 0 \<longrightarrow> query_limit = 0" "xs = filter (\<lambda>i. si_client i = client) (take n ?M)"
    by (elim exE conjE)
  have "si_client i = client" if "i \<in> set (take n ?M)" for i
  proof -
    from that have "i \<in> set ?M" by (rule in_set_takeD)
    then have "i \<in> set (rows (bw_db w) action)" unfolding after_def by simp
    with assms(3) show ?thesis by (simp add: rows_of_def)
  qed
  then have xs: "xs = take n ?M" unfolding n(2) by (intro filter_True ballI)
  have "get_client_job_status E client action since w = (Inr (map si_event xs), w\<lparr>bw_db := d\<rparr>)"
    using q r by (simp add: get_client_job_status_def on_db_def py_simps)
  moreover have "0 < n" using n(1) by (simp add: query_limit_def)
  ultimately show thesis using that d(1) unfolding xs by blast
qed

lemma start_key_sort_key:
  "start_key (make_client_job_status_table_sort_key E ev) = Some (make_client_job_status_table_sort_key E ev)"
proof -
  have "CHR '':'' \<in> set (make_client_job_status_table_sort_key E ev)"
    by (simp add: make_client_job_status_table_sort_key_def)
  then have "make_client_job_status_table_sort_key E ev \<noteq> ''0''" by auto
  then show ?thesis by (simp add: start_key_def)
qed

lemma pages_complete:
  assumes "ddb_ok E rows" "ddb_answers E" "rows_of E client (rows (bw_db w) action)"
    and "length (rows (bw_db w) action) < fuel"
  shows "all_pages fuel E client action since w =
    Some (map si_event (after si_sort since (start_key since) (rows (bw_db w) action)))"
proof -
  have "length (after si_sort since (start_key since) (rows (bw_db w) action)) < fuel"
    using assms(4) unfolding after_def by (rule le_less_trans [OF length_filter_le])
  then show ?thesis
    using assms(3)
  proof (induction fuel arbitrary: since w)
    case (Suc fuel)
    let ?R = "rows (bw_db w) action"
    let ?M = "after si_sort since (start_key since) ?R"
    obtain n d where p: "get_client_job_status E client action since w = (Inr (map si_event (take n ?M)), w\<lparr>bw_db := d\<rparr>)"
      "rows d = rows (bw_db w)" "0 < n"
      by (rule page_run [OF assms(1,2) Suc.prems(2)])
    show ?case
    proof (cases "?M = []")
      case False
      define m where "m = min n (length ?M)"
      then have m: "0 < m" "m \<le> length ?M" "take n ?M = take m ?M" using False p(3) by (simp_all add: min_def)
      define l where "l = ?M ! (m - 1)"
      have l: "last (take m ?M) = l" unfolding l_def using m(1,2) by (rule last_take)
      have "m - 1 < length ?M" using m(1,2) by linarith
      from subsetD [OF after_subset nth_mem [OF this]] have "l \<in> set ?R" unfolding l_def .
      with Suc.prems(2) have "make_client_job_status_table_sort_key E (si_event l) = si_sort l" by (simp add: rows_of_def)
      moreover have ne: "take m ?M \<noteq> []" using m(1) False by simp
      moreover note last_map [OF ne, of si_event, unfolded l]
      ultimately have k: "make_client_job_status_table_sort_key E (last (map si_event (take m ?M))) = si_sort l" by simp
      have "after si_sort (si_sort l) (Some (si_sort l)) ?R = drop m ?M"
        using ddb_ok_sorted [OF assms(1)] m(1,2) by (rule after_rest) (simp add: l_def)
      moreover have "start_key (si_sort l) = Some (si_sort l)" unfolding k [symmetric] by (rule start_key_sort_key)
      ultimately have r: "after si_sort (si_sort l) (start_key (si_sort l)) ?R = drop m ?M" by simp
      have "all_pages fuel E client action (si_sort l) (w\<lparr>bw_db := d\<rparr>) = Some (map si_event (drop m ?M))"
        using Suc.IH [of "si_sort l" "w\<lparr>bw_db := d\<rparr>"] Suc.prems m(1,2) p(2) r by simp
      then show ?thesis
        unfolding all_pages.simps p(1) m(3) using k ne by (simp add: map_append [symmetric] del: map_append)
    qed (use p in simp)
  qed simp
qed

section \<open>Time stamps and keys\<close>

lemma list_less_append: "xs < (ys :: string) \<Longrightarrow> length xs = length ys \<Longrightarrow> xs @ us < ys @ vs"
  by (simp add: list_less_def lexord_sufI)

lemma list_less_prefix: "us < (vs :: string) \<Longrightarrow> xs @ us < xs @ vs"
  by (simp add: list_less_def lexord_append_leftI)

lemma show_nat_short: "n < 10 \<Longrightarrow> show_nat n = [digit_char n]"
  by (subst show_nat.simps) simp

lemma show_nat_long: "\<not> n < 10 \<Longrightarrow> show_nat n = show_nat (n div 10) @ [digit_char (n mod 10)]"
  by (subst show_nat.simps) simp

lemma show_nat_less:
  "a < b \<Longrightarrow> length (show_nat a) = length (show_nat b) \<Longrightarrow> show_nat a < show_nat b"
proof (induction b arbitrary: a rule: show_nat.induct)
  case (1 b)
  have digit: "[digit_char m] < [digit_char n]" if "m < n" "n < 10" for m n
  proof -
    have "m < 10" using that by simp
    with that show ?thesis by (simp add: less_char_def)
  qed
  show ?case
  proof (cases "b < 10")
    case True
    then show ?thesis using digit [of a b] "1.prems"(1) by (simp add: show_nat_short)
  next
    case b: False
    have ne: "show_nat n \<noteq> []" for n by (subst show_nat.simps) simp
    have a: "\<not> a < 10"
    proof
      assume "a < 10"
      with "1.prems"(2) show False using ne [of "b div 10"] by (simp add: show_nat_short show_nat_long [OF b])
    qed
    have len: "length (show_nat (a div 10)) = length (show_nat (b div 10))"
      using "1.prems"(2) by (simp add: show_nat_long [OF a] show_nat_long [OF b])
    show ?thesis
    proof (cases "a div 10 < b div 10")
      case True
      from list_less_append [OF "1.IH" [OF b True len] len] show ?thesis
        by (simp add: show_nat_long [OF a] show_nat_long [OF b])
    next
      case False
      with div_le_mono [of a b 10] "1.prems"(1) have eq: "a div 10 = b div 10" by linarith
      with div_mult_mod_eq [of a 10] div_mult_mod_eq [of b 10] "1.prems"(1) have "a mod 10 < b mod 10" by linarith
      moreover have "b mod 10 < 10" by simp
      ultimately have "[digit_char (a mod 10)] < [digit_char (b mod 10)]" by (rule digit)
      from list_less_prefix [OF this] eq show ?thesis
        by (simp add: show_nat_long [OF a] show_nat_long [OF b])
    qed
  qed
qed

lemma show_int_less:
  assumes "0 \<le> v" "v < t" "length (show_int v) = length (show_int t)"
  shows "show_int v @ us < show_int t @ us'"
proof -
  have "show_int v < show_int t" using assms show_nat_less [of "nat v" "nat t"] by (simp add: show_int_def)
  from list_less_append [OF this assms(3)] show ?thesis .
qed

lemma list_less_extend: "us \<noteq> [] \<Longrightarrow> xs < xs @ (us :: string)"
  using list_less_prefix [of "[]" us xs] by (cases us) simp_all

lemma show_int_key:
  assumes "0 \<le> t" "0 \<le> s" "length (show_int t) = length (show_int s)" "us \<noteq> []"
  shows "show_int t < show_int s @ us \<longleftrightarrow> t \<le> s"
proof (cases s t rule: linorder_cases)
  case less
  have "show_int s @ us < show_int t" using show_int_less [OF assms(2) less assms(3) [symmetric], of us "[]"] by simp
  then show ?thesis using less by (simp add: not_less order.strict_implies_order)
next
  case equal
  then show ?thesis using list_less_extend [OF assms(4)] by simp
next
  case greater
  then show ?thesis using show_int_less [OF assms(1) greater assms(3), of "[]" us] by simp
qed

lemma start_key_zero: "start_key (show_int t) = None \<Longrightarrow> 0 \<le> t \<Longrightarrow> t = 0"
proof -
  assume "start_key (show_int t) = None" "0 \<le> t"
  moreover have "show_nat 0 = ''0''" by code_simp
  ultimately have "show_nat (nat t) = show_nat 0" by (simp add: start_key_def show_int_def split: if_splits)
  then show "t = 0" using \<open>0 \<le> t\<close> show_nat_inject by auto
qed

definition stamp :: "pyval \<Rightarrow> int" where
  "stamp ev = (case kw ''tstamp'' ev of PInt t \<Rightarrow> t | _ \<Rightarrow> 0)"

definition stamped_like :: "int \<Rightarrow> pyval \<Rightarrow> bool" where
  "stamped_like t ev = (kw ''tstamp'' ev = PInt (stamp ev) \<and> 0 \<le> stamp ev \<and> length (show_int (stamp ev)) = length (show_int t))"

text \<open>
  (C13) Page by page a client that asks for the events from a time on reads exactly those of its action that are
  stamped with this time or later, each once and in the order of the keys, and it is done after one
  request more than there are events.  The stamps have the same number of digits, as those in milliseconds
  of the years 2001 to 2286 do.
\<close>

theorem status_pages_from_time:
  assumes "ddb_ok E rows" "ddb_answers E" "rows_of E client (rows (bw_db w) action)"
    and stamps: "0 \<le> t" "\<forall>i \<in> set (rows (bw_db w) action). stamped_like t (si_event i)"
    and "length (rows (bw_db w) action) < fuel"
  shows "all_pages fuel E client action (show_int t) w =
    Some (filter (\<lambda>ev. t \<le> stamp ev) (map si_event (rows (bw_db w) action)))"
proof -
  have key: "show_int t < si_sort i \<longleftrightarrow> t \<le> stamp (si_event i)" if "i \<in> set (rows (bw_db w) action)" for i
  proof -
    from that stamps(2) have st: "stamped_like t (si_event i)" by blast
    from that assms(3) have "si_sort i = make_client_job_status_table_sort_key E (si_event i)" by (simp add: rows_of_def)
    also have "\<dots> = show_int (stamp (si_event i)) @ '':'' @ clj_str (be_print E) (kw ''message_id'' (si_event i))"
      using st by (simp add: make_client_job_status_table_sort_key_def clj_str_def stamped_like_def)
    finally show ?thesis using st stamps(1) by (simp add: show_int_key stamped_like_def)
  qed
  have "after si_sort (show_int t) (start_key (show_int t)) (rows (bw_db w) action) =
      filter (\<lambda>i. t \<le> stamp (si_event i)) (rows (bw_db w) action)"
    unfolding after_def
  proof (rule filter_cong [OF refl])
    fix i
    assume i: "i \<in> set (rows (bw_db w) action)"
    show "(show_int t \<le> si_sort i \<and> (case start_key (show_int t) of None \<Rightarrow> True | Some k \<Rightarrow> k < si_sort i)) \<longleftrightarrow> t \<le> stamp (si_event i)"
    proof (cases "start_key (show_int t)")
      case None
      then have "t = 0" using stamps(1) start_key_zero by blast
      moreover have "0 \<le> stamp (si_event i)" using i stamps(2) by (simp add: stamped_like_def)
      ultimately show ?thesis using None key [OF i] by simp
    next
      case (Some k)
      then have "k = show_int t" by (simp add: start_key_def split: if_splits)
      with Some key [OF i] show ?thesis by auto
    qed
  qed
  with pages_complete [OF assms(1-3) assms(6), of "show_int t"] show ?thesis by (simp add: filter_map comp_def)
qed

text \<open>
  The \<open>since\<close> that the client keeps after it has shown an event (\<open>_as_status_line\<close> of \<open>bin/anubis\<close>): the
  stamp of the last service visited and the message.
\<close>

definition client_since :: "pyval \<Rightarrow> string" where
  "client_since ev =
     (case kw ''visited'' ev of
        PList vs \<Rightarrow> clj_str (\<lambda>_. []) (kw ''tstamp'' (last vs))
      | _ \<Rightarrow> ''null'') @ '':'' @ clj_str (\<lambda>_. []) (kw ''message_id'' ev)"

text \<open>
  A client that has shown an event gets it again with its next request exactly if the stamp of the event is
  later than that of its last visit.  The services of \<open>kafka_service.py\<close> read the clock for each of the two.
\<close>

lemma since_repeats:
  assumes "ddb_ok E rows" "ddb_answers E" "rows_of E client (rows (bw_db w) action)"
    and i: "i \<in> set (rows (bw_db w) action)" "si_event i = ev"
    and ev: "kw ''message_id'' ev = PStr m" "kw ''tstamp'' ev = PInt t" "kw ''visited'' ev = PList vs" "kw ''tstamp'' (last vs) = PInt v"
    and stamps: "0 \<le> v" "v \<le> t" "length (show_int v) = length (show_int t)"
    and long: "length (rows (bw_db w) action) < fuel"
  shows "\<exists>xs. all_pages fuel E client action (client_since ev) w = Some xs \<and>
    (ev \<in> set xs \<longleftrightarrow> v < t)"
proof -
  let ?s = "client_since ev" and ?R = "rows (bw_db w) action"
  have s: "?s = show_int v @ '':'' @ m" using ev by (simp add: client_since_def clj_str_def)
  have k: "make_client_job_status_table_sort_key E ev = show_int t @ '':'' @ m"
    using ev by (simp add: make_client_job_status_table_sort_key_def clj_str_def)
  have si: "si_sort i = make_client_job_status_table_sort_key E ev" using assms(3) i by (auto simp: rows_of_def)
  have "CHR '':'' \<in> set ?s" by (simp add: s)
  then have start: "start_key ?s = Some ?s" by (auto simp: start_key_def)
  have "?s < si_sort i \<longleftrightarrow> v < t"
  proof (cases "v < t")
    case True
    from show_int_less [OF stamps(1) True stamps(3)] True show ?thesis unfolding si s k by simp
  next
    case False
    then show ?thesis using stamps by (simp add: si s k)
  qed
  moreover have "ev \<in> set (map si_event (after si_sort ?s (Some ?s) ?R)) \<longleftrightarrow> ?s < si_sort i"
  proof
    assume "ev \<in> set (map si_event (after si_sort ?s (Some ?s) ?R))"
    then obtain j where j: "j \<in> set ?R" "si_event j = ev" "?s < si_sort j" by (auto simp: after_def)
    then have "si_sort j = si_sort i" using assms(3) si by (auto simp: rows_of_def)
    with j(3) show "?s < si_sort i" by simp
  next
    assume "?s < si_sort i"
    then have "i \<in> set (after si_sort ?s (Some ?s) ?R)" using i(1) by (auto simp: after_def)
    then show "ev \<in> set (map si_event (after si_sort ?s (Some ?s) ?R))" using i(2) by (simp add: rev_image_eqI)
  qed
  moreover have "all_pages fuel E client action ?s w = Some (map si_event (after si_sort ?s (Some ?s) ?R))"
    using pages_complete [OF assms(1-3) long, of ?s] unfolding start .
  ultimately show ?thesis by blast
qed

section \<open>Offsets\<close>

definition event_ids :: "pyval \<Rightarrow> (string \<times> string) option" where
  "event_ids ev =
     (case (clj_keyword (kw ''client_id'' ev), clj_keyword (kw ''action_id'' ev)) of
        (Some client, Some action) \<Rightarrow> Some (client, action)
      | _ \<Rightarrow> None)"

definition stored :: "'d bff_env \<Rightarrow> ('d \<Rightarrow> string \<Rightarrow> status_item list) \<Rightarrow> 'd \<Rightarrow> pyval \<Rightarrow> bool" where
  "stored E rows d ev =
     (case event_ids ev of
        None \<Rightarrow> False
      | Some (client, action) \<Rightarrow>
          \<lparr>si_action = action, si_sort = make_client_job_status_table_sort_key E ev, si_client = client, si_event = ev\<rparr>
            \<in> set (rows d action))"

text \<open>The key of a message under an action names one event.\<close>

definition same_message :: "'d bff_env \<Rightarrow> pyval set \<Rightarrow> bool" where
  "same_message E T = (\<forall>e \<in> T. \<forall>f \<in> T. kw ''action_id'' e = kw ''action_id'' f \<longrightarrow>
     make_client_job_status_table_sort_key E e = make_client_job_status_table_sort_key E f \<longrightarrow> e = f)"

definition stored_kept ::
  "'d bff_env \<Rightarrow> ('d \<Rightarrow> string \<Rightarrow> status_item list) \<Rightarrow> pyval set \<Rightarrow> 'd bff_world \<Rightarrow> 'd bff_world \<Rightarrow> bool" where
  "stored_kept E rows T w w' =
     (bw_commits w' = bw_commits w \<and> (\<forall>e \<in> T. stored E rows (bw_db w) e \<longrightarrow> stored E rows (bw_db w') e))"

interpretation sko: world_order "stored_kept E rows T"
  by unfold_locales (simp_all add: stored_kept_def)

lemma update_unfold:
  "update_status_store E ev = (case event_ids ev of
     Some (client, action) \<Rightarrow> save_client_job_status E client action ev
   | None \<Rightarrow> py_raise (OtherException ''Could not insert event''))"
  by (simp add: update_status_store_def event_ids_def split: option.splits)

lemma save_run:
  assumes "ddb_ok E rows" "ddb_answers E"
  obtains d where "save_client_job_status E c a ev w = (Inr (), w\<lparr>bw_db := d\<rparr>)"
    "rows d = (rows (bw_db w))(a := upsert si_sort
       \<lparr>si_action = a, si_sort = make_client_job_status_table_sort_key E ev, si_client = c, si_event = ev\<rparr> (rows (bw_db w) a))"
proof -
  let ?i = "\<lparr>si_action = a, si_sort = make_client_job_status_table_sort_key E ev, si_client = c, si_event = ev\<rparr>"
  obtain r d where p: "ddb_put_status E ?i (bw_db w) = (r, d)" by (cases "ddb_put_status E ?i (bw_db w)")
  have "\<not> isl (fst (ddb_put_status E ?i (bw_db w)))" using assms(2) by (simp add: ddb_answers_def)
  with p have r: "r = Inr ()" by (cases r) simp_all
  have "rows d = (rows (bw_db w))(si_action ?i := upsert si_sort ?i (rows (bw_db w) (si_action ?i))) \<or> isl r \<and> rows d = rows (bw_db w)"
    using assms(1) p unfolding ddb_ok_def by metis
  with r have "rows d = (rows (bw_db w))(a := upsert si_sort ?i (rows (bw_db w) a))" by simp
  moreover have "save_client_job_status E c a ev w = (Inr (), w\<lparr>bw_db := d\<rparr>)"
    using p r by (simp add: save_client_job_status_def on_db_def py_simps)
  ultimately show thesis using that by blast
qed

lemma update_stores:
  assumes "ddb_ok E rows" "ddb_answers E" and T: "same_message E T" "ev \<in> T" and ids: "event_ids ev = Some (c, a)"
  shows "fst (update_status_store E ev w) = Inr ()" "stored_kept E rows T w (snd (update_status_store E ev w))"
    "stored E rows (bw_db (snd (update_status_store E ev w))) ev"
proof -
  let ?i = "\<lparr>si_action = a, si_sort = make_client_job_status_table_sort_key E ev, si_client = c, si_event = ev\<rparr>"
  obtain d where d: "save_client_job_status E c a ev w = (Inr (), w\<lparr>bw_db := d\<rparr>)"
      "rows d = (rows (bw_db w))(a := upsert si_sort ?i (rows (bw_db w) a))"
    by (rule save_run [OF assms(1,2)])
  then have u: "update_status_store E ev w = (Inr (), w\<lparr>bw_db := d\<rparr>)" using ids by (simp add: update_unfold)
  show "fst (update_status_store E ev w) = Inr ()" by (simp add: u)
  show "stored E rows (bw_db (snd (update_status_store E ev w))) ev"
    using ids by (simp add: u stored_def d(2) upsert_in)
  have "stored E rows d e" if e: "e \<in> T" "stored E rows (bw_db w) e" for e
  proof -
    obtain c' a' where i: "event_ids e = Some (c', a')" using e(2) by (auto simp: stored_def split: option.splits)
    have ka: "a' = a \<longleftrightarrow> kw ''action_id'' e = kw ''action_id'' ev"
      using i ids by (auto simp: event_ids_def clj_keyword_def split: option.splits pyval.splits)
    show ?thesis
    proof (cases "a' = a \<and> make_client_job_status_table_sort_key E e = make_client_job_status_table_sort_key E ev")
      case True
      with T e(1) ka have "e = ev" by (simp add: same_message_def)
      with ids show ?thesis by (simp add: stored_def d(2) upsert_in)
    next
      case False
      with e(2) i show ?thesis by (auto simp: stored_def d(2) intro: upsert_keeps)
    qed
  qed
  then show "stored_kept E rows T w (snd (update_status_store E ev w))" by (simp add: u stored_kept_def)
qed

lemma process_stores:
  assumes "ddb_ok E rows" "ddb_answers E" "same_message E T" "set evs \<subseteq> T" "PNone \<notin> set evs"
    and "py_for evs (\<lambda>ev. if ev = PNone then py_return () else update_status_store E ev) w = (r, w')"
  shows "stored_kept E rows T w w' \<and>
    (case r of Inr _ \<Rightarrow> \<forall>ev \<in> set evs. stored E rows (bw_db w') ev | Inl _ \<Rightarrow> \<exists>ev \<in> set evs. event_ids ev = None)"
  using assms(4-)
proof (induction evs arbitrary: w)
  case Nil
  then show ?case by (auto simp: sko.refl)
next
  case (Cons ev evs)
  show ?case
  proof (cases "event_ids ev")
    case None
    with Cons.prems show ?thesis by (auto simp: update_unfold py_simps sko.refl)
  next
    case (Some ids)
    obtain c a where ids: "event_ids ev = Some (c, a)" using Some by (cases ids) simp
    have T: "ev \<in> T" "ev \<noteq> PNone" "set evs \<subseteq> T" "PNone \<notin> set evs" using Cons.prems by auto
    note u = update_stores [OF assms(1-3) T(1) ids, of w]
    obtain w1 where w1: "update_status_store E ev w = (Inr (), w1)"
      using u(1) by (cases "update_status_store E ev w") simp
    with Cons.prems(3) T(2) have "py_for evs (\<lambda>ev. if ev = PNone then py_return () else update_status_store E ev) w1 = (r, w')"
      by (simp add: py_then_run)
    from Cons.IH [OF T(3,4) this] have IH: "stored_kept E rows T w1 w'"
      "case r of Inr _ \<Rightarrow> \<forall>ev \<in> set evs. stored E rows (bw_db w') ev | Inl _ \<Rightarrow> \<exists>ev \<in> set evs. event_ids ev = None" by simp_all
    have "stored E rows (bw_db w') ev" using IH(1) u(3) T(1) by (simp add: stored_kept_def w1)
    moreover have "stored_kept E rows T w w'" using u(2) IH(1) unfolding w1 snd_conv by (rule sko.trans)
    ultimately show ?thesis using IH(2) by (cases r) auto
  qed
qed

definition source_topics :: "string list" where "source_topics = [''BAI_APP_STATUS'', ''CMD_RETURN'']"

definition polled :: "'d bff_env \<Rightarrow> string list \<Rightarrow> (string \<Rightarrow> string option list) \<Rightarrow> pyval set" where
  "polled E topics records = (\<Union>t \<in> set topics. set (records_to_events E (records t)))"

lemma topics_stored:
  assumes "ddb_ok E rows" "ddb_answers E" "same_message E T" "set topics \<subseteq> set source_topics"
    and "polled E topics records \<subseteq> T" and "every_topic E records topics w = (r, w')"
  shows "stored_kept E rows T w w' \<and>
    (case r of Inr all \<Rightarrow> all \<and> (\<forall>ev \<in> polled E topics records. stored E rows (bw_db w') ev)
     | Inl _ \<Rightarrow> \<exists>ev \<in> polled E topics records. event_ids ev = None)"
  using assms(4-)
proof (induction topics arbitrary: w)
  case Nil
  then show ?case by (auto simp: sko.refl polled_def)
next
  case (Cons t ts)
  let ?evs = "records_to_events E (records t)"
  have P: "polled E (t # ts) records = set ?evs \<union> polled E ts records" by (simp add: polled_def)
  have h: "source_handler E t = (\<lambda>evs. py_then (py_for evs (\<lambda>ev. if ev = PNone then py_return () else update_status_store E ev))
      (py_return (PBool True)))"
    using Cons.prems(1)
    by (auto simp: source_handler_def source_topics_def process_status_records_def process_cmd_return_records_def fun_eq_iff)
  obtain q w1 where w1: "py_for ?evs (\<lambda>ev. if ev = PNone then py_return () else update_status_store E ev) w = (q, w1)"
    by (cases "py_for ?evs (\<lambda>ev. if ev = PNone then py_return () else update_status_store E ev) w")
  have T: "set ?evs \<subseteq> T" "PNone \<notin> set ?evs" "polled E ts records \<subseteq> T" "set ts \<subseteq> set source_topics"
    using Cons.prems(1,2) by (auto simp: P records_to_events_def)
  note p = process_stores [OF assms(1-3) T(1,2) w1]
  show ?case
  proof (cases q)
    case (Inl x)
    then have "r = Inl x" "w' = w1" using Cons.prems(3) w1 by (simp_all add: h py_simps)
    with p Inl show ?thesis unfolding P by auto
  next
    case (Inr u)
    then have "every_topic E records ts w1 = (r, w')" using Cons.prems(3) w1 by (simp add: h py_simps)
    from Cons.IH [OF T(4,3) this] have IH: "stored_kept E rows T w1 w'"
      "case r of Inr all \<Rightarrow> all \<and> (\<forall>ev \<in> polled E ts records. stored E rows (bw_db w') ev)
       | Inl _ \<Rightarrow> \<exists>ev \<in> polled E ts records. event_ids ev = None" by simp_all
    have "stored E rows (bw_db w') ev" if "ev \<in> set ?evs" for ev
      using that p Inr IH(1) T(1) by (auto simp: stored_kept_def)
    moreover have "stored_kept E rows T w w'" using p IH(1) by (blast intro: sko.trans)
    ultimately show ?thesis using IH(2) unfolding P by (cases r) auto
  qed
qed

lemma loop_commits:
  assumes "ddb_ok E rows" "ddb_answers E" "same_message E T" "set topics \<subseteq> set source_topics"
    and "\<Union> (polled E topics ` set polls) \<subseteq> T" and "source_loop E topics polls w = (r, w')"
  shows "(\<forall>e \<in> T. stored E rows (bw_db w) e \<longrightarrow> stored E rows (bw_db w') e) \<and>
    (\<exists>k \<le> length polls. bw_commits w' = bw_commits w + k \<and>
       (\<forall>records \<in> set (take k polls). \<forall>ev \<in> polled E topics records. stored E rows (bw_db w') ev) \<and>
       (case r of Inr _ \<Rightarrow> k = length polls
        | Inl _ \<Rightarrow> k < length polls \<and> (\<exists>ev \<in> polled E topics (polls ! k). event_ids ev = None)))"
  using assms(5,6)
proof (induction polls arbitrary: w)
  case (Cons records polls)
  obtain q w1 where w1: "every_topic E records topics w = (q, w1)" by (cases "every_topic E records topics w")
  have T: "polled E topics records \<subseteq> T" "\<Union> (polled E topics ` set polls) \<subseteq> T" using Cons.prems(1) by auto
  note p = topics_stored [OF assms(1-4) T(1) w1]
  show ?case
  proof (cases q)
    case (Inl x)
    then have "r = Inl x" "w' = w1" using Cons.prems(2) w1 by (simp_all add: py_simps)
    with p Inl show ?thesis by (auto simp: stored_kept_def intro!: exI [of _ 0])
  next
    case (Inr all)
    with p have all: "all" by simp
    let ?w = "w1\<lparr>bw_commits := Suc (bw_commits w1)\<rparr>"
    have "source_loop E topics polls ?w = (r, w')" using Cons.prems(2) w1 Inr all by (simp add: py_simps)
    note IH = Cons.IH [OF T(2) this]
    have kept: "stored E rows (bw_db w') e" if "e \<in> T" "stored E rows (bw_db w1) e" for e using IH that by simp
    obtain k where k: "k \<le> length polls" "bw_commits w' = bw_commits ?w + k"
        "\<forall>records \<in> set (take k polls). \<forall>ev \<in> polled E topics records. stored E rows (bw_db w') ev"
        "case r of Inr _ \<Rightarrow> k = length polls
         | Inl _ \<Rightarrow> k < length polls \<and> (\<exists>ev \<in> polled E topics (polls ! k). event_ids ev = None)"
      using IH by blast
    have "bw_commits w1 = bw_commits w" using p by (simp add: stored_kept_def)
    moreover have "\<forall>ev \<in> polled E topics records. stored E rows (bw_db w') ev" using p Inr kept T(1) by auto
    ultimately have "Suc k \<le> length (records # polls) \<and> bw_commits w' = bw_commits w + Suc k \<and>
        (\<forall>rs \<in> set (take (Suc k) (records # polls)). \<forall>ev \<in> polled E topics rs. stored E rows (bw_db w') ev) \<and>
        (case r of Inr _ \<Rightarrow> Suc k = length (records # polls)
         | Inl _ \<Rightarrow> Suc k < length (records # polls) \<and> (\<exists>ev \<in> polled E topics ((records # polls) ! Suc k). event_ids ev = None))"
      using k by (auto split: sum.splits)
    moreover have "\<forall>e \<in> T. stored E rows (bw_db w) e \<longrightarrow> stored E rows (bw_db w') e" using p kept by (auto simp: stored_kept_def)
    ultimately show ?thesis by blast
  qed
qed auto

lemma single_stored:
  assumes "ddb_ok E rows" "ddb_answers E" and ids: "event_ids ev = Some (c, a)" and parse: "be_parse E s = Inr ev"
  obtains w' where "source_loop E source_topics [\<lambda>t. if t = ''BAI_APP_STATUS'' then [Some s] else []] w = (Inr (), w')"
    "rows (bw_db w') a = upsert si_sort
       \<lparr>si_action = a, si_sort = make_client_job_status_table_sort_key E ev, si_client = c, si_event = ev\<rparr> (rows (bw_db w) a)"
proof -
  have ne: "ev \<noteq> PNone" using ids by (auto simp: event_ids_def kw_def clj_keyword_def)
  obtain d where d: "save_client_job_status E c a ev w = (Inr (), w\<lparr>bw_db := d\<rparr>)"
      "rows d = (rows (bw_db w))(a := upsert si_sort
        \<lparr>si_action = a, si_sort = make_client_job_status_table_sort_key E ev, si_client = c, si_event = ev\<rparr> (rows (bw_db w) a))"
    by (rule save_run [OF assms(1,2)])
  have "update_status_store E ev w = (Inr (), w\<lparr>bw_db := d\<rparr>)" using ids d(1) by (simp add: update_unfold)
  with ne parse have "source_loop E source_topics [\<lambda>t. if t = ''BAI_APP_STATUS'' then [Some s] else []] w =
      (Inr (), w\<lparr>bw_db := d, bw_commits := Suc (bw_commits w)\<rparr>)"
    by (simp add: source_topics_def source_handler_def process_status_records_def process_cmd_return_records_def
      records_to_events_def parse_body_def py_simps)
  with d(2) that show thesis by simp
qed


text \<open>A topic without a handler keeps the offsets from being committed, and the topics after it from being handled.\<close>

lemma unhandled_topic:
  assumes "t \<notin> set source_topics"
  shows "every_topic E records (t # ts) = py_return False"
  using assms by (auto simp: source_handler_def source_topics_def fun_eq_iff py_simps)

section \<open>Submissions\<close>

lemma kw_PDict: "kw k (PDict d) = (case dict_get d k of Some x \<Rightarrow> x | None \<Rightarrow> PNone)"
  by (simp add: kw_def)

lemma assoc_in_path: "assoc_in ev ks x = Inr ev' \<Longrightarrow> kw_path ks ev' = x"
proof (induction ev ks x arbitrary: ev' rule: assoc_in.induct)
  case (2 v k ks x)
  from "2.prems" obtain d y where y: "assoc_in (kw k v) ks x = Inr y" "ev' = PDict (dict_set d k y)"
    by (cases v) (auto simp: res_bind_def kw_def split: sum.splits intro: that [of _ "[]"])
  then have "kw_path ks y = x" using "2.IH" "2.prems" by (cases v) (auto simp: kw_def)
  with y show ?case by (simp add: kw_PDict)
qed simp

lemma assoc_in_other:
  "assoc_in ev (ks @ k # rest) x = Inr ev' \<Longrightarrow> k' \<noteq> k \<Longrightarrow> kw_path (ks @ k' # rest') ev' = kw_path (ks @ k' # rest') ev"
proof (induction ks arbitrary: ev ev')
  case Nil
  then show ?case by (cases ev) (auto simp: res_bind_def kw_def split: sum.splits)
next
  case (Cons j ks)
  from Cons.prems(1) obtain d y where y: "assoc_in (kw j ev) (ks @ k # rest) x = Inr y" "ev' = PDict (dict_set d j y)"
    by (cases ev) (auto simp: res_bind_def kw_def split: sum.splits intro: that [of _ "[]"])
  from Cons.IH [OF y(1) Cons.prems(2)] y(2) show ?case by (simp add: kw_PDict)
qed

lemma assoc_in_top: "assoc_in ev (k # ks) x = Inr ev' \<Longrightarrow> k' \<noteq> k \<Longrightarrow> kw_path (k' # rest) ev' = kw_path (k' # rest) ev"
  using assoc_in_other [of ev "[]" k ks x ev' k' rest] by simp

text \<open>
  What is forwarded for the body of a submission: the fields that identify the client, the descriptor
  that was decoded from the document with the verdict on its digest, and the data sets and models it lists.
  A schedule is one that the crontab parser accepts.
\<close>

definition submission_of :: "'d bff_env \<Rightarrow> pyval \<Rightarrow> pyval \<Rightarrow> bool" where
  "submission_of E body ev =
     (kw ''type'' ev = PStr ''BAI_APP_BFF'' \<and> kw ''authenticated'' ev = PBool False \<and>
      (\<forall>k \<in> {''client_id'', ''client_version'', ''client_sha1'', ''client_username'', ''date''}. kw k ev = kw k body) \<and>
      (\<exists>doc bytes. kw_path [''payload'', ''toml'', ''doc''] body = PStr doc \<and> be_decode64 E doc = Inr bytes \<and>
         res_bind (be_toml E bytes) (be_validate_descriptor E) = Inr (kw_path [''payload'', ''toml'', ''contents''] ev) \<and>
         kw_path [''payload'', ''toml'', ''verified''] ev = PBool (kw_path [''payload'', ''toml'', ''sha1''] body = PStr (be_sha1 E bytes))) \<and>
      gleaned (kw_path [''payload'', ''toml'', ''contents'', ''data'', ''sources''] ev) = Inr (kw_path [''payload'', ''datasets''] ev) \<and>
      gleaned (kw_path [''payload'', ''toml'', ''contents'', ''server'', ''models''] ev) = Inr (kw_path [''payload'', ''models''] ev) \<and>
      (let s = kw_path [''payload'', ''toml'', ''contents'', ''info'', ''scheduling''] ev in
       s = PNone \<or> s = PBool False \<or> s = PStr ''single_run'' \<or> valid_crontab E (clj_str (be_print E) s) = Inr True))"

lemma visited_entry_fields:
  assumes "add_my_visited_entry E ev = Inr ev'"
  shows "k \<noteq> ''visited'' \<Longrightarrow> kw_path (k # ks) ev' = kw_path (k # ks) ev"
    and "kw ''visited'' ev = PList vs \<Longrightarrow> kw ''visited'' ev' = PList (vs @
      [PDict [(''svc'', PStr ''bai-bff''), (''tstamp'', kw ''tstamp'' ev), (''version'', clj_opt (be_version E)), (''node'', clj_opt (be_hostname E))]])"
proof -
  have "\<exists>x. assoc_in ev [''visited''] x = Inr ev'"
    using assms unfolding add_my_visited_entry_def Let_def by (auto split: pyval.splits)
  then show "k \<noteq> ''visited'' \<Longrightarrow> kw_path (k # ks) ev' = kw_path (k # ks) ev" by (blast dest: assoc_in_top)
  assume vs: "kw ''visited'' ev = PList vs"
  let ?x = "PList (vs @ [PDict [(''svc'', PStr ''bai-bff''), (''tstamp'', kw ''tstamp'' ev), (''version'', clj_opt (be_version E)),
    (''node'', clj_opt (be_hostname E))]])"
  have "assoc_in ev [''visited''] ?x = Inr ev'" using assms vs by (simp add: add_my_visited_entry_def Let_def del: assoc_in.simps)
  from assoc_in_path [OF this] show "kw ''visited'' ev' = ?x" by simp
qed

lemma decoded_fields:
  assumes "decode_document E ev = Inr ev'"
  obtains doc bytes where "kw_path [''payload'', ''toml'', ''doc''] ev = PStr doc" "be_decode64 E doc = Inr bytes"
    "res_bind (be_toml E bytes) (be_validate_descriptor E) = Inr (kw_path [''payload'', ''toml'', ''contents''] ev')"
    "kw_path [''payload'', ''toml'', ''verified''] ev' = PBool (kw_path [''payload'', ''toml'', ''sha1''] ev = PStr (be_sha1 E bytes))"
    "\<And>k ks. k \<noteq> ''payload'' \<Longrightarrow> kw_path (k # ks) ev' = kw_path (k # ks) ev"
proof -
  let ?v = "\<lambda>bytes. PBool (kw_path [''payload'', ''toml'', ''sha1''] ev = PStr (be_sha1 E bytes))"
  obtain doc bytes d e1 where doc: "kw_path [''payload'', ''toml'', ''doc''] ev = PStr doc" "be_decode64 E doc = Inr bytes"
      "res_bind (be_toml E bytes) (be_validate_descriptor E) = Inr d"
    and e: "assoc_in ev [''payload'', ''toml'', ''verified''] (?v bytes) = Inr e1" "assoc_in e1 [''payload'', ''toml'', ''contents''] d = Inr ev'"
    using assms unfolding decode_document_def
    by (auto simp del: assoc_in.simps kw_path.simps split: pyval.splits)
  have "kw_path ([''payload'', ''toml''] @ ''verified'' # []) ev' = kw_path ([''payload'', ''toml''] @ ''verified'' # []) e1"
    by (rule assoc_in_other [where k = "''contents''" and rest = "[]"]) (use e(2) in simp_all)
  then have "kw_path [''payload'', ''toml'', ''verified''] ev' = ?v bytes" using assoc_in_path [OF e(1)] by simp
  moreover have "d = kw_path [''payload'', ''toml'', ''contents''] ev'" using assoc_in_path [OF e(2)] by simp
  moreover have "kw_path (k # ks) ev' = kw_path (k # ks) ev" if "k \<noteq> ''payload''" for k ks
    using assoc_in_top [OF e(1) that] assoc_in_top [OF e(2) that] by simp
  ultimately show thesis using that doc by blast
qed

lemma gleaned_field:
  assumes "res_bind (gleaned x) (assoc_in ev [''payload'', k]) = Inr ev'" "k \<noteq> ''toml''"
  shows "gleaned x = Inr (kw_path [''payload'', k] ev')"
    "j \<noteq> k \<Longrightarrow> kw_path (''payload'' # j # ks) ev' = kw_path (''payload'' # j # ks) ev"
    "j \<noteq> ''payload'' \<Longrightarrow> kw_path (j # ks) ev' = kw_path (j # ks) ev"
proof -
  from assms(1) obtain y where y: "gleaned x = Inr y" "assoc_in ev [''payload'', k] y = Inr ev'"
    by (auto simp del: assoc_in.simps)
  show "gleaned x = Inr (kw_path [''payload'', k] ev')" using y(1) assoc_in_path [OF y(2)] by simp
  show "kw_path (''payload'' # j # ks) ev' = kw_path (''payload'' # j # ks) ev" if "j \<noteq> k"
    using assoc_in_other [of ev "[''payload'']" k "[]" y ev' j ks] y(2) that by simp
  show "kw_path (j # ks) ev' = kw_path (j # ks) ev" if "j \<noteq> ''payload''" using assoc_in_top [OF y(2) that] .
qed

lemma scripts_field:
  assumes "glean_script_info E ev = Inr ev'"
  shows "j \<noteq> ''scripts'' \<Longrightarrow> kw_path (''payload'' # j # ks) ev' = kw_path (''payload'' # j # ks) ev"
    "j \<noteq> ''payload'' \<Longrightarrow> kw_path (j # ks) ev' = kw_path (j # ks) ev"
proof -
  from assms obtain y where y: "assoc_in ev [''payload'', ''scripts''] y = Inr ev'"
    by (auto simp: glean_script_info_def simp del: assoc_in.simps kw_path.simps)
  show "kw_path (''payload'' # j # ks) ev' = kw_path (''payload'' # j # ks) ev" if "j \<noteq> ''scripts''"
    using assoc_in_other [of ev "[''payload'']" "''scripts''" "[]" y ev' j ks] y that by simp
  show "kw_path (j # ks) ev' = kw_path (j # ks) ev" if "j \<noteq> ''payload''" using assoc_in_top [OF y that] .
qed

lemma completed_fields:
  assumes "completed_event E ev = Inr ev'"
  shows "k \<noteq> ''payload'' \<Longrightarrow> k \<noteq> ''visited'' \<Longrightarrow> kw k ev' = kw k ev"
    and "kw ''visited'' ev = PList vs \<Longrightarrow> kw ''visited'' ev' = PList (vs @ [PDict [(''svc'', PStr ''bai-bff''), (''tstamp'', kw ''tstamp'' ev),
      (''version'', clj_opt (be_version E)), (''node'', clj_opt (be_hostname E))]])"
    and "ev = submitted_event body t m a ''BAI_APP_BFF'' \<Longrightarrow> submission_of E body ev'"
proof -
  obtain e1 e3 e4 e5 where e: "decode_document E ev = Inr e1" "validate_toml_crontab E e1 = Inr e1"
      "glean_dataset_info e1 = Inr e3" "glean_server_model_info e3 = Inr e4" "glean_script_info E e4 = Inr e5"
      "add_my_visited_entry E e5 = Inr ev'"
    using assms unfolding completed_event_def
    by (auto simp: validate_toml_crontab_def Let_def split: if_splits)
  note d = gleaned_field [OF e(3) [unfolded glean_dataset_info_def]]
    and m = gleaned_field [OF e(4) [unfolded glean_server_model_info_def]] and s = scripts_field [OF e(5)]
    and v = visited_entry_fields(1) [OF e(6)]
  obtain doc bytes where dec: "kw_path [''payload'', ''toml'', ''doc''] ev = PStr doc" "be_decode64 E doc = Inr bytes"
    "res_bind (be_toml E bytes) (be_validate_descriptor E) = Inr (kw_path [''payload'', ''toml'', ''contents''] e1)"
    "kw_path [''payload'', ''toml'', ''verified''] e1 = PBool (kw_path [''payload'', ''toml'', ''sha1''] ev = PStr (be_sha1 E bytes))"
    "\<And>k ks. k \<noteq> ''payload'' \<Longrightarrow> kw_path (k # ks) e1 = kw_path (k # ks) ev"
    by (rule decoded_fields [OF e(1)]) blast
  have top5: "kw_path (k # ks) e5 = kw_path (k # ks) ev" if "k \<noteq> ''payload''" for k ks
    using that d(3) m(3) s(2) dec(5) by simp
  have top: "kw_path (k # ks) ev' = kw_path (k # ks) ev" if "k \<noteq> ''payload''" "k \<noteq> ''visited''" for k ks
    using that v top5 by simp
  from top [of k "[]"] show "k \<noteq> ''payload'' \<Longrightarrow> k \<noteq> ''visited'' \<Longrightarrow> kw k ev' = kw k ev" by simp
  show "kw ''visited'' ev' = PList (vs @ [PDict [(''svc'', PStr ''bai-bff''), (''tstamp'', kw ''tstamp'' ev),
      (''version'', clj_opt (be_version E)), (''node'', clj_opt (be_hostname E))]])" if "kw ''visited'' ev = PList vs"
    using visited_entry_fields(2) [OF e(6), of vs] that top5 [of "''visited''" "[]"] top5 [of "''tstamp''" "[]"] by simp
  have toml: "kw_path (''payload'' # ''toml'' # ks) ev' = kw_path (''payload'' # ''toml'' # ks) e1" for ks
    using v [of "''payload''" "''toml'' # ks"] s(1) [of "''toml''" ks] m(2) [of "''toml''" ks] d(2) [of "''toml''" ks]
    by (simp del: kw_path.simps)
  have toml3: "kw_path (''payload'' # ''toml'' # ks) e3 = kw_path (''payload'' # ''toml'' # ks) e1" for ks
    using d(2) [of "''toml''" ks] by (simp del: kw_path.simps)
  have ds: "kw_path [''payload'', ''datasets''] ev' = kw_path [''payload'', ''datasets''] e3"
    and ms: "kw_path [''payload'', ''models''] ev' = kw_path [''payload'', ''models''] e4"
    using v [of "''payload''" "[''datasets'']"] s(1) [of "''datasets''" "[]"] m(2) [of "''datasets''" "[]"]
      v [of "''payload''" "[''models'']"] s(1) [of "''models''" "[]"] by (simp_all del: kw_path.simps)
  have sched: "let s = kw_path [''payload'', ''toml'', ''contents'', ''info'', ''scheduling''] e1 in
      s = PNone \<or> s = PBool False \<or> s = PStr ''single_run'' \<or> valid_crontab E (clj_str (be_print E) s) = Inr True"
    using e(2) unfolding validate_toml_crontab_def Let_def by (auto simp del: kw_path.simps split: if_splits)
  assume ev: "ev = submitted_event body t m a ''BAI_APP_BFF''"
  have k: "kw ''type'' ev = PStr ''BAI_APP_BFF'' \<and> kw ''authenticated'' ev = PBool False \<and> kw ''payload'' ev = kw ''payload'' body \<and>
      (\<forall>k \<in> {''client_id'', ''client_version'', ''client_sha1'', ''client_username'', ''date''}. kw k ev = kw k body)"
    by (simp add: ev submitted_event_def kw_PDict dict_get_def)
  have kt: "kw k ev' = kw k ev" if "k \<in> {''type'', ''authenticated'', ''client_id'', ''client_version'', ''client_sha1'', ''client_username'', ''date''}" for k
    using top [of k "[]"] that by auto
  show "submission_of E body ev'"
    unfolding submission_of_def toml ds ms
  proof (intro conjI)
    show "gleaned (kw_path [''payload'', ''toml'', ''contents'', ''data'', ''sources''] e1) = Inr (kw_path [''payload'', ''datasets''] e3)"
      by (rule d(1)) simp
    show "gleaned (kw_path [''payload'', ''toml'', ''contents'', ''server'', ''models''] e1) = Inr (kw_path [''payload'', ''models''] e4)"
      using m(1) unfolding toml3 by simp
    show "\<exists>doc bytes. kw_path [''payload'', ''toml'', ''doc''] body = PStr doc \<and> be_decode64 E doc = Inr bytes \<and>
        res_bind (be_toml E bytes) (be_validate_descriptor E) = Inr (kw_path [''payload'', ''toml'', ''contents''] e1) \<and>
        kw_path [''payload'', ''toml'', ''verified''] e1 = PBool (kw_path [''payload'', ''toml'', ''sha1''] body = PStr (be_sha1 E bytes))"
      using dec(1-4) k by (intro exI [of _ doc] exI [of _ bytes]) simp
  qed (use k kt sched in \<open>simp_all del: kw_path.simps\<close>)
qed

definition reports :: "pyval \<Rightarrow> pyval \<Rightarrow> string \<Rightarrow> string \<Rightarrow> bool" where
  "reports st ev status msg =
     (kw ''type'' st = PStr ''BAI_APP_STATUS'' \<and> kw ''client_id'' st = kw ''client_id'' ev \<and> kw ''action_id'' st = kw ''action_id'' ev \<and>
      kw ''payload'' st = PDict [(''message'', PStr msg), (''status'', PStr status), (''srv_event'', kw ''payload'' ev)])"

definition same_bus :: "'d bff_world \<Rightarrow> 'd bff_world \<Rightarrow> bool" where
  "same_bus w w' = (bw_channel w' = bw_channel w \<and> bw_uuids w' = bw_uuids w)"

lemma script_run:
  assumes "(case script of None \<Rightarrow> py_return () | Some f \<Rightarrow> scripts_to_s3 E f) w = (q, w1)"
  shows "same_bus w w1 \<and> bw_used w1 = bw_used w"
  using assms
  by (auto simp: scripts_to_s3_def on_db_def py_simps same_bus_def split: option.splits prod.splits sum.splits)

lemma submit_run:
  assumes "message_to_submit_descriptor_event E body w = (q, w1)"
  shows "same_bus w w1" and "q = Inr ev \<Longrightarrow> bw_used w1 = Suc (Suc (bw_used w)) \<and>
    completed_event E (submitted_event body (bw_clock w (bw_ticks w)) (bw_uuids w (bw_used w)) (bw_uuids w (Suc (bw_used w))) ''BAI_APP_BFF'') = Inr ev"
  using assms
  by (auto simp: message_to_submit_descriptor_event_def current_time_millis_def bff_uuid_def py_simps same_bus_def split: sum.splits)

lemma save_job_run:
  "\<exists>d. save_client_job E ev w = (Inr (), w\<lparr>bw_db := d\<rparr>)"
  by (auto simp: save_client_job_def on_db_def py_simps split: prod.splits sum.splits)

lemma status_run:
  assumes "bff_status_event E ev k msg w = (q, w1)" "dict_get status_map k = Some s"
  shows "same_bus w w1" and "q = Inr st \<Longrightarrow> reports st ev s msg \<and> kw ''message_id'' st = PStr (bw_uuids w (bw_used w))"
proof -
  let ?e = "PDict [(''message_id'', PStr (bw_uuids w (bw_used w))), (''client_id'', kw ''client_id'' ev), (''action_id'', kw ''action_id'' ev),
            (''client_version'', kw ''client_version'' ev), (''date'', kw ''date'' ev), (''authenticated'', PBool False),
            (''client_username'', kw ''client_username'' ev), (''tstamp'', PInt (bw_clock w (bw_ticks w))), (''visited'', kw ''visited'' ev),
            (''payload'', PDict [(''message'', PStr msg), (''status'', clj_opt (dict_get status_map k)),
               (''srv_event'', kw ''payload'' ev)]),
            (''type'', PStr ''BAI_APP_STATUS'')]"
  have q: "q = add_my_visited_entry E ?e" and "same_bus w w1"
    using assms(1) by (auto simp: bff_status_event_def current_time_millis_def bff_uuid_def py_simps same_bus_def)
  then show "same_bus w w1" by simp
  assume "q = Inr st"
  with q have st: "add_my_visited_entry E ?e = Inr st" by simp
  have "kw k st = kw k ?e" if "k \<noteq> ''visited''" for k
    using visited_entry_fields(1) [OF st that, of "[]"] by simp
  then show "reports st ev s msg \<and> kw ''message_id'' st = PStr (bw_uuids w (bw_used w))"
    by (simp add: reports_def kw_PDict [of _ "_ # _"] dict_get_def clj_opt_def assms(2) [unfolded dict_get_def])
qed

definition kafka_sink_topics :: "string list" where
  "kafka_sink_topics = [''BAI_APP_STATUS'', ''BAI_APP_BFF'', ''CMD_SUBMIT'']"

lemma reported_sends:
  assumes "reports st ev s msg" "kw ''type'' ev = PStr t" "t \<in> set kafka_sink_topics"
  shows "sink_sends E kafka_sink_topics [[st], [ev]] =
    [(''BAI_APP_STATUS'', clj_str (be_print E) (kw ''client_id'' ev), be_generate E st),
     (t, clj_str (be_print E) (kw ''client_id'' ev), be_generate E ev)]"
  using assms by (simp add: sink_sends_def sink_turn_def reports_def kafka_sink_topics_def)

text \<open>What follows a body that makes an event: either it is refused before anything is sent, or both events are.\<close>

lemma accepted_run:
  assumes "completed_event E (submitted_event message t m a ''BAI_APP_BFF'') = Inr ev"
    and "py_then (save_client_job E ev)
      (py_bind (bff_status_event E ev ''succeeded'' ''Submission has been successfully received...'') (\<lambda>st.
         py_then (bff_send st) (py_then (bff_send ev) (py_return (Response 200 (kw ''action_id'' ev)))))) w = (q, w')"
  shows "case q of
    Inl _ \<Rightarrow> bw_channel w' = bw_channel w
  | Inr resp \<Rightarrow> resp = Response 200 (PStr a) \<and> submission_of E message ev \<and> kw ''action_id'' ev = PStr a \<and> kw ''message_id'' ev = PStr m \<and>
      (\<exists>st. bw_channel w' = bw_channel w @ [[st], [ev]] \<and> reports st ev ''SUCCEEDED'' ''Submission has been successfully received...'' \<and>
         kw ''message_id'' st = PStr (bw_uuids w (bw_used w)))"
proof -
  note f = completed_fields [OF assms(1)]
  have "kw ''action_id'' ev = PStr a" "kw ''message_id'' ev = PStr m"
    using f(1) [of "''action_id''"] f(1) [of "''message_id''"] by (simp_all add: submitted_event_def kw_PDict dict_get_def)
  moreover have "submission_of E message ev" by (rule f(3)) (rule refl)
  moreover obtain d where 1: "save_client_job E ev w = (Inr (), w\<lparr>bw_db := d\<rparr>)" using save_job_run [of E ev w] by (elim exE)
  moreover obtain r w1 where 2: "bff_status_event E ev ''succeeded'' ''Submission has been successfully received...'' (w\<lparr>bw_db := d\<rparr>) = (r, w1)"
    by (cases "bff_status_event E ev ''succeeded'' ''Submission has been successfully received...'' (w\<lparr>bw_db := d\<rparr>)")
  moreover have "dict_get status_map ''succeeded'' = Some ''SUCCEEDED''" by (simp add: status_map_def dict_get_def)
  note st = status_run [OF 2 this]
  ultimately show ?thesis using assms(2) st(1) st(2)
    by (cases r) (auto simp: py_simps bff_send_def same_bus_def)
qed

text \<open>
  (C8) A submission is always answered.  It is refused with nothing sent, or it is accepted: then the answer is
  its new action, under which the event for the body of the request is sent, after the report that it was
  received.  Both reach Kafka under the key of the client, in this order.
\<close>

theorem submission_answered:
  "\<exists>resp w'. dispatch_submit_job E script body w = (Inr resp, w') \<and>
    ((\<exists>msg. resp = bad_request msg) \<and> bw_channel w' = bw_channel w \<or>
     (\<exists>message st ev action. parse_body E body = Inr message \<and> action = bw_uuids w (Suc (bw_used w)) \<and>
        resp = Response 200 (PStr action) \<and> bw_channel w' = bw_channel w @ [[st], [ev]] \<and>
        submission_of E message ev \<and> kw ''action_id'' ev = PStr action \<and> kw ''message_id'' ev = PStr (bw_uuids w (bw_used w)) \<and>
        reports st ev ''SUCCEEDED'' ''Submission has been successfully received...'' \<and>
        kw ''message_id'' st = PStr (bw_uuids w (Suc (Suc (bw_used w)))) \<and>
        sink_sends E kafka_sink_topics [[st], [ev]] =
          [(''BAI_APP_STATUS'', clj_str (be_print E) (kw ''client_id'' message), be_generate E st),
           (''BAI_APP_BFF'', clj_str (be_print E) (kw ''client_id'' message), be_generate E ev)]))"
proof -
  obtain q1 w1 where 1: "(case script of None \<Rightarrow> py_return () | Some f \<Rightarrow> scripts_to_s3 E f) w = (q1, w1)"
    by (cases "(case script of None \<Rightarrow> py_return () | Some f \<Rightarrow> scripts_to_s3 E f) w")
  note s = script_run [OF 1]
  consider (script) x where "q1 = Inl x" | (parse) u x where "q1 = Inr u" "parse_body E body = Inl x"
    | (ok) u message where "q1 = Inr u" "parse_body E body = Inr message" by (cases q1; cases "parse_body E body") blast+
  then show ?thesis
  proof cases
    case script
    with 1 s show ?thesis by (auto simp: dispatch_submit_job_def py_simps same_bus_def)
  next
    case parse
    with 1 s show ?thesis by (auto simp: dispatch_submit_job_def py_simps same_bus_def)
  next
    case ok
    obtain q2 w2 where 2: "message_to_submit_descriptor_event E message w1 = (q2, w2)"
      by (cases "message_to_submit_descriptor_event E message w1")
    note m = submit_run [OF 2]
    show ?thesis
    proof (cases q2)
      case (Inl x)
      with 1 ok 2 s m(1) show ?thesis by (auto simp: dispatch_submit_job_def py_simps same_bus_def)
    next
      case (Inr ev)
      let ?last = "py_then (save_client_job E ev)
        (py_bind (bff_status_event E ev ''succeeded'' ''Submission has been successfully received...'') (\<lambda>st.
           py_then (bff_send st) (py_then (bff_send ev) (py_return (Response 200 (kw ''action_id'' ev))))))"
      obtain q3 w3 where 3: "?last w2 = (q3, w3)" by (cases "?last w2")
      have d: "dispatch_submit_job E script body w = (case q3 of Inr resp \<Rightarrow> (Inr resp, w3)
          | Inl e \<Rightarrow> (Inr (bad_request (''Could Not Parse Submitted Descriptor: '' @ be_message E e)), w3))"
        using 1 ok 2 Inr 3 by (simp add: dispatch_submit_job_def py_simps split: sum.splits)
      have w: "bw_channel w2 = bw_channel w" "bw_uuids w2 = bw_uuids w" "bw_used w2 = Suc (Suc (bw_used w))"
        "bw_uuids w1 = bw_uuids w" "bw_used w1 = bw_used w" using s m Inr by (simp_all add: same_bus_def)
      note a = accepted_run [OF conjunct2 [OF m(2) [OF Inr]] 3, unfolded w]
      show ?thesis
      proof (cases q3)
        case resp: (Inr resp)
        then obtain st where st: "bw_channel w3 = bw_channel w @ [[st], [ev]]"
            "reports st ev ''SUCCEEDED'' ''Submission has been successfully received...''"
            "kw ''message_id'' st = PStr (bw_uuids w (Suc (Suc (bw_used w))))" "submission_of E message ev"
          using a by auto
        then have "kw ''type'' ev = PStr ''BAI_APP_BFF''" "kw ''client_id'' ev = kw ''client_id'' message"
          by (simp_all add: submission_of_def)
        with reported_sends [OF st(2), of "''BAI_APP_BFF''" E] have
          "sink_sends E kafka_sink_topics [[st], [ev]] =
            [(''BAI_APP_STATUS'', clj_str (be_print E) (kw ''client_id'' message), be_generate E st),
             (''BAI_APP_BFF'', clj_str (be_print E) (kw ''client_id'' message), be_generate E ev)]"
          by (simp add: kafka_sink_topics_def)
        with st a resp ok(2) show ?thesis unfolding d by auto
      qed (use a in \<open>auto simp: d\<close>)
    qed
  qed
qed

section \<open>A table in memory\<close>

text \<open>The state lists what was put under each action, the latest first.\<close>

definition demo_rows :: "(string \<Rightarrow> status_item list) \<Rightarrow> string \<Rightarrow> status_item list" where
  "demo_rows d a = foldr (upsert si_sort) (d a) []"

definition demo_event_at :: "string \<Rightarrow> int \<Rightarrow> int \<Rightarrow> pyval" where
  "demo_event_at m t v = PDict [(''message_id'', PStr m), (''client_id'', PStr ''c''), (''action_id'', PStr ''a''), (''tstamp'', PInt t),
     (''visited'', PList [PDict [(''svc'', PStr ''watcher''), (''tstamp'', PInt v)]])]"

definition demo_bff :: "(string \<Rightarrow> status_item list) bff_env" where
  "demo_bff = \<lparr>be_decode64 = Inr, be_sha1 = (\<lambda>s. s), be_toml = (\<lambda>_. Inr (PDict [])), be_validate_descriptor = Inr, be_validate_submit = Inr,
     be_validate_command = Inr, be_next_date = (\<lambda>_. Inr False),
     be_parse = (\<lambda>s. if s = ''bad'' then Inr (PDict []) else Inr (demo_event_at s 23 23)),
     be_generate = (\<lambda>_. []), be_print = (\<lambda>_. []), be_message = (\<lambda>_. []), be_bucket = ''b'', be_hostname = None, be_version = None,
     be_put_object = (\<lambda>_ _. py_return ()), be_delete_file = (\<lambda>_. py_return ()), be_fetch_logs = (\<lambda>_ _. py_return PNone),
     ddb_put_status = (\<lambda>i d. (Inr (), d(si_action i := i # d (si_action i)))),
     ddb_query_status = (\<lambda>lim a from st c d. (Inr (filter (\<lambda>i. si_client i = c) (take lim (after si_sort from st (demo_rows d a)))), d)),
     ddb_put_job = (\<lambda>_. py_return ()), ddb_query_jobs = (\<lambda>_ _ _ _. py_return [])\<rparr>"

lemma demo_rows_sorted: "sorted_wrt (<) (map si_sort (demo_rows d a))"
proof -
  have "sorted_wrt (<) (map si_sort (foldr (upsert si_sort) xs []))" for xs
    by (induction xs) (simp_all add: upsert_sorted)
  then show ?thesis by (simp add: demo_rows_def)
qed

lemma demo_ddb_ok: "ddb_ok demo_bff demo_rows"
proof -
  have "demo_rows (d(si_action i := i # d (si_action i))) =
      (demo_rows d)(si_action i := upsert si_sort i (demo_rows d (si_action i)))" for d i
    by (simp add: fun_eq_iff demo_rows_def)
  then show ?thesis unfolding ddb_ok_def demo_bff_def by (auto simp: demo_rows_sorted)
qed

lemma demo_ddb_answers: "ddb_answers demo_bff"
  by (simp add: ddb_answers_def demo_bff_def)

definition demo_bff_item :: "string \<Rightarrow> int \<Rightarrow> int \<Rightarrow> status_item" where
  "demo_bff_item m t v = \<lparr>si_action = ''a'', si_sort = show_int t @ '':'' @ m, si_client = ''c'', si_event = demo_event_at m t v\<rparr>"

definition demo_bff_world :: "status_item list \<Rightarrow> (string \<Rightarrow> status_item list) bff_world" where
  "demo_bff_world is = \<lparr>bw_uuids = (\<lambda>_. []), bw_used = 0, bw_clock = (\<lambda>_. 0), bw_ticks = 0, bw_channel = [], bw_scripts = [],
     bw_commits = 0, bw_db = (\<lambda>_. is)\<rparr>"

definition demo_items :: "status_item list" where
  "demo_items = [demo_bff_item ''m'' 23 22, demo_bff_item ''n'' 25 25]"

lemma demo_items_rows: "demo_rows (bw_db (demo_bff_world demo_items)) ''a'' = demo_items"
  by code_simp

lemma demo_items_of: "rows_of demo_bff ''c'' (demo_rows (bw_db (demo_bff_world demo_items)) ''a'')"
  unfolding demo_items_rows rows_of_def by code_simp

theorem status_pages_from_time_witness:
  "all_pages 3 demo_bff ''c'' ''a'' (show_int 24) (demo_bff_world demo_items) =
     Some [demo_event_at ''n'' 25 25]"
proof -
  have "\<forall>i \<in> set demo_items. stamped_like 24 (si_event i)" by code_simp
  then have 1: "\<forall>i \<in> set (demo_rows (bw_db (demo_bff_world demo_items)) ''a''). stamped_like 24 (si_event i)"
    unfolding demo_items_rows .
  have 2: "length (demo_rows (bw_db (demo_bff_world demo_items)) ''a'') < 3" unfolding demo_items_rows by code_simp
  have 3: "filter (\<lambda>ev. 24 \<le> stamp ev) (map si_event demo_items) = [demo_event_at ''n'' 25 25]"
    by code_simp
  show ?thesis
    using status_pages_from_time [where rows = demo_rows and w = "demo_bff_world demo_items" and action = "''a''", OF demo_ddb_ok demo_ddb_answers demo_items_of _ 1 2] unfolding demo_items_rows 3 by simp
qed

definition demo_poll :: "string \<Rightarrow> string option list" where
  "demo_poll t = (if t = ''CMD_RETURN'' then [None, Some ''m''] else [Some ''n''])"

definition bad_poll :: "string \<Rightarrow> string option list" where
  "bad_poll t = (if t = ''CMD_RETURN'' then [Some ''bad''] else [])"


end
