(* ===== verification/Spec2Isabelle.thy ===== *)
theory Spec2Isabelle
  imports Zk_Locker Download_Manager Fetcher_Service Fetcher_Job Descriptor Watcher Cmd_Callback Puller Execution Metrics
    Scheduling Job_Trigger Cloudwatch Sage_Maker Bff
begin

text \<open>
  Anubis (Benchmark AI) runs machine learning benchmarks in the cloud.  It consists of services that
  exchange events through Kafka; this development models them and proves what makes them correct.
  Paths below are relative to \<open>src/\<close>.

  \<^bold>\<open>The system.\<close>  The client of the command line posts a descriptor to the front end (\<open>bai-bff\<close>), which
  turns it into an event and sends it to Kafka.  The fetcher (\<open>fetcher\<close>) downloads the data sets and models
  of the event through jobs (\<open>fetcher-job\<close>) that report in ZooKeeper, where locks keep two events from
  fetching the same content, and forwards the event.  An executor takes it: \<open>executor\<close> translates the
  descriptor into Kubernetes objects and creates them, \<open>sm-executor\<close> starts a training job of SageMaker; a
  scheduled benchmark becomes a cron job whose runs (\<open>anubis-cron-job\<close>) submit it again as a child.
  The watcher (\<open>watcher\<close>) follows the job and reports its status.  In the pod of the benchmark the
  puller (\<open>puller\<close>) fetches the data, the extractor and the pusher (\<open>metrics-extractor\<close>, \<open>client-lib\<close>,
  \<open>metrics-pusher\<close>) publish its metrics, and a sidecar (\<open>job-status-trigger\<close>) waits for other jobs.
  \<open>cloudwatch-exporter\<close> exports the metrics.  All services report to the status topic; the front end
  stores these reports and the client reads them.  Commands, such as cancelling, travel the same way.

  \<^bold>\<open>Foundations.\<close>
  \<^item> \<open>Prelude\<close>: values (\<open>pyval\<close>), ordered dictionaries, exceptions (\<open>pyexc\<close>), the monads \<open>res\<close> (may raise)
    and \<open>py\<close> (may raise and changes a world), and what computations keep (\<open>keeps\<close> and the locales
    \<open>world_order\<close>, \<open>object_order\<close>; \<open>dictionary\<close> for the laws of a dictionary).
  \<^item> \<open>Py_Strings\<close>, \<open>Url\<close>, \<open>Py_Text\<close>, \<open>Py_Codec\<close>: the parts of Python's library that the services use, with
    their round trips (\<open>int\<close>/\<open>str\<close>, \<open>split\<close>/\<open>join\<close>, JSON, base64 and UTF-8; locale \<open>codec\<close>).
  \<^item> \<open>Events\<close> (\<open>kafka-utils: events.py, states.py\<close>), \<open>Kafka_Service\<close> (\<open>kafka_service.py\<close>), \<open>Cmd_Callback\<close>
    (\<open>cmd_callback.py\<close>), \<open>Labels\<close> (\<open>service_labels.py\<close>).  The world \<open>kworld\<close> has the log of sent messages,
    fresh identifiers and the clock; services extend it.  Locale \<open>kafka_callbacks\<close> is the contract between
    the consumer loop and the handlers of a service; every service interprets it.

  \<^bold>\<open>Components.\<close>
  \<^item> \<open>Bff\<close>: \<open>bai-bff/src/bai_bff\<close> (requests, events, tables, sink and source), in Clojure.
  \<^item> \<open>Zk_Locker\<close>, \<open>Download_Manager\<close>, \<open>Kubernetes_Dispatcher\<close>, \<open>Fetcher_Service\<close>: the fetcher, with the
    interleavings of its clients as the step relation \<open>lock_step\<close> and as arbitrary changes between two calls.
  \<^item> \<open>Fetcher_Job\<close>: downloads, digests and uploads, and the estimators of \<open>fetcher/src/preflight\<close>.
  \<^item> \<open>Descriptor\<close>, \<open>K8s_Spec\<close>, \<open>Transpiler\<close>: the descriptor and its translation; \<open>Execution\<close>: the handlers of
    the executors and the Kubernetes engine; \<open>Sage_Maker\<close>: the SageMaker engine.  Locale \<open>execution_engine\<close>
    is what the handlers rely on; both engines interpret it.  \<open>Scheduling\<close>: the cron job.
  \<^item> \<open>Puller\<close>, \<open>Metrics\<close>, \<open>Job_Trigger\<close>: what runs beside a benchmark; \<open>Watcher\<close>; \<open>Cloudwatch\<close>.

  Definitions keep the names of the source, a method of a class as a function of its object.  A group of
  definitions stands in the order of its file.

  \<^bold>\<open>What is shown.\<close>
  \<^item> Safety: mutual exclusion and service in order of the locks; cancellation overwrites unfinished
    downloads only; a download is reported once and an event forwarded once; cancelling a benchmark
    deletes what was created for it, and for its scheduled runs, and nothing else; a final verdict of the
    watcher is justified; offsets are committed only after the reports are stored.
  \<^item> Liveness and termination: no deadlock of the locks; the loops of locks, cancellation, watching and
    paging end.
  \<^item> Behaviour on every branch, errors included: submissions and cancellations as they are reported by
    the front end, by both executors and by the cron job; commands are answered once; the fetcher job
    reports once; the trigger runs its command exactly when it should; metrics get on their dashboard.
  \<^item> Agreement of components that share a format: labels and selectors, puller arguments and mounts,
    metrics of the descriptor and the extractor, custom labels, the FIFO of the client library.
  \<^item> Agreement of an algorithm with its definition: the entity tag in one pass, labelling in breadth-first
    order; bounds of volumes; the rules of an accepted descriptor; invariants of logs and dashboards.
  \<^item> Where the code does not do what it means to, the theorem states what it does: a job that cannot
    be cancelled, a line that ends the pusher, a report that is shown twice.

  \<^bold>\<open>Parameters.\<close>  ZooKeeper, Kubernetes, AWS and the packages that are not part of the repository are arguments,
  with their documented behaviour as hypotheses (\<open>zk_lock\<close>, \<open>zk_data\<close>, \<open>retrying\<close>, \<open>ddb_ok\<close>, \<open>cw_ok\<close>,
  \<open>sm_jobs_ok\<close>); each has an instance in memory on which the theorems are evaluated.  Clocks,
  identifiers and choices are arbitrary functions.

  \<^bold>\<open>Bounds and fuel.\<close>  Loops without a bound in the source have fuel, and \<open>None\<close> means that it ran out:
  acquiring a lock, cancelling a download, waiting for the metrics of SageMaker or for the FIFO.  The theorems give the fuel
  that is enough: as many rounds as there are earlier nodes, as calls until the other processes are quiet,
  as requests until the metrics are there, as checks as fit into the waiting time and one more.  Paging needs one request more than there are events, and
  labelling and the JSON reader as many steps as their input has nodes or characters.  Loops that wait for input run
  over the list of what they read.  Numbers are unbounded integers, as in Python; products with a
  double (volume sizes) are exact, and the theories say for which sizes this is what the code computes.

  \<^bold>\<open>Not modelled.\<close>  Argument parsers, entry points, logging and the construction of Kafka clients only hand
  values to libraries.  The ring middleware and the life cycle of the front end, and the shell script of
  the client apart from the key it asks with, are input and output.  Floating point values of metrics,
  characters above 255, the signal that ends the pusher, failures of the puller's commands and the percentages of progress are left out.  \<open>baictl\<close>, \<open>anubis-setup\<close>, \<open>bin\<close>, \<open>etc\<close> and \<open>ci\<close> deploy
  the system with other tools; \<open>reports\<close> writes spreadsheets; \<open>prometheus-kafka-topic-exporter\<close> packages
  another project; \<open>blackbox-tests\<close>, \<open>mock-infra\<close> and \<open>sample-benchmarks\<close> are used by tests and users.

  The end of this theory follows an event from the service that sends it to the client that shows it.
\<close>

section \<open>From a service to the command line\<close>

text \<open>
  The fields of the JSON object of an event (\<open>to_json\<close> of the dataclasses) that the front end and the
  client read.
\<close>

definition json_event :: "(benchmark_event \<Rightarrow> pyval) \<Rightarrow> (visited_service \<Rightarrow> pyval) \<Rightarrow> benchmark_event \<Rightarrow> bool" where
  "json_event to_json visit e =
     (kw ''client_id'' (to_json e) = PStr (client_id e) \<and> kw ''action_id'' (to_json e) = PStr (action_id e) \<and>
      kw ''message_id'' (to_json e) = PStr (message_id e) \<and> kw ''tstamp'' (to_json e) = PInt (tstamp e) \<and>
      kw ''visited'' (to_json e) = PList (map visit (visited e)) \<and> (\<forall>v. kw ''tstamp'' (visit v) = PInt (vs_tstamp v)))"

lemma upserted_rows_of:
  assumes "rows_of E c xs" "si_client i = c" "si_sort i = make_client_job_status_table_sort_key E (si_event i)"
  shows "rows_of E c (upsert si_sort i xs)"
  using assms upsert_set [of si_sort i xs] by (auto simp: rows_of_def)

lemma upsert_length: "length (upsert key i xs) \<le> Suc (length xs)"
  by (induction xs) auto

lemma zero_le_key: "0 \<le> t \<Longrightarrow> ''0'' \<le> show_int t @ us"
proof -
  assume "0 \<le> t"
  have "\<exists>c cs. show_nat n = c # cs \<and> is_digit c" for n
    using show_nat_digits [of _ n] show_nat_not_Nil [of n] by (cases "show_nat n") simp_all
  then obtain c cs where c: "show_nat (nat t) = c # cs" "is_digit c" by blast
  from c(2) have "CHR ''0'' \<le> c" by (simp add: less_eq_char_def is_digit_def)
  then have "CHR ''0'' < c \<or> CHR ''0'' = c" by (auto simp: order_le_less)
  then have "''0'' \<le> (c # cs) @ us" by simp
  with c(1) \<open>0 \<le> t\<close> show ?thesis by (simp add: show_int_def)
qed

lemma sent_visit:
  assumes "json_event to_json visit (sent_event em e topic w)"
  shows "kw ''tstamp'' (last (map visit (visited (sent_event em e topic w)))) = PInt (clock w (clock_reads w))"
  using assms by (simp add: json_event_def last_map)

text \<open>
  (C21) An event that a service has sent reaches the client through the front end, and the client gets it a
  second time, with the request that follows, exactly if the clock moved between the two stamps that the
  service put on it.
\<close>

theorem reported_event_repeated:
  assumes ev_def: "ev = sent_event em e ''BAI_APP_STATUS'' w"
    and ok: "ddb_ok E rows" "ddb_answers E" "rows_of E (client_id e) (rows (bw_db b) (action_id e))"
    and json: "json_event to_json visit ev" "be_parse E text = Inr (to_json ev)"
    and clock: "0 \<le> clock w (clock_reads w)" "clock w (clock_reads w) \<le> clock w (Suc (clock_reads w))"
      "length (show_int (clock w (clock_reads w))) = length (show_int (clock w (Suc (clock_reads w))))"
    and long: "length (rows (bw_db b) (action_id e)) + 1 < fuel"
  shows "sent (snd (send_event em e ''BAI_APP_STATUS'' w)) = sent w @ [\<lparr>km_topic = ''BAI_APP_STATUS'', km_value = ev, km_key = client_id e\<rparr>] \<and>
    (\<exists>b' xs ys. source_loop E source_topics [\<lambda>t. if t = ''BAI_APP_STATUS'' then [Some text] else []] b = (Inr (), b') \<and>
       all_pages fuel E (client_id e) (action_id e) ''0'' b' = Some xs \<and> to_json ev \<in> set xs \<and>
       all_pages fuel E (client_id e) (action_id e) (client_since (to_json ev)) b' = Some ys \<and>
       (to_json ev \<in> set ys \<longleftrightarrow> clock w (clock_reads w) < clock w (Suc (clock_reads w))))"
proof -
  let ?a = "action_id e" and ?c = "client_id e" and ?v = "clock w (clock_reads w)" and ?t = "clock w (Suc (clock_reads w))"
  let ?i = "\<lparr>si_action = ?a, si_sort = make_client_job_status_table_sort_key E (to_json ev), si_client = ?c, si_event = to_json ev\<rparr>"
  note f = json(1) [unfolded json_event_def]
  have vis: "kw ''tstamp'' (last (map visit (visited ev))) = PInt ?v" using sent_visit json(1) unfolding ev_def .
  have ids: "event_ids (to_json ev) = Some (?c, ?a)" using f by (simp add: event_ids_def clj_keyword_def ev_def)
  obtain b' where b: "source_loop E source_topics [\<lambda>t. if t = ''BAI_APP_STATUS'' then [Some text] else []] b = (Inr (), b')"
      "rows (bw_db b') ?a = upsert si_sort ?i (rows (bw_db b) ?a)"
    by (rule single_stored [OF ok(1,2) ids json(2)])
  have rows: "rows_of E ?c (rows (bw_db b') ?a)" unfolding b(2) using ok(3) by (rule upserted_rows_of) simp_all
  have i: "?i \<in> set (rows (bw_db b') ?a)" "si_event ?i = to_json ev" unfolding b(2) by (simp_all add: upsert_in)
  have long': "length (rows (bw_db b') ?a) < fuel" unfolding b(2) using long upsert_length [of si_sort ?i "rows (bw_db b) ?a"] by linarith
  have t: "kw ''tstamp'' (to_json ev) = PInt ?t" using f by (simp add: ev_def)
  have "''0'' \<le> si_sort ?i" using clock f t by (simp add: make_client_job_status_table_sort_key_def clj_str_def zero_le_key)
  then have "?i \<in> set (after si_sort ''0'' (start_key ''0'') (rows (bw_db b') ?a))" using i(1) by (simp add: after_def start_key_def)
  then have "to_json ev \<in> set (map si_event (after si_sort ''0'' (start_key ''0'') (rows (bw_db b') ?a)))" by force
  moreover note pages_complete [OF ok(1,2) rows long', of "''0''"]
  moreover obtain ys where "all_pages fuel E ?c ?a (client_since (to_json ev)) b' = Some ys" "to_json ev \<in> set ys \<longleftrightarrow> ?v < ?t"
    using since_repeats [OF ok(1,2) rows i _ t _ vis clock long'] f by blast
  moreover have "sent (snd (send_event em e ''BAI_APP_STATUS'' w)) = sent w @ [\<lparr>km_topic = ''BAI_APP_STATUS'', km_value = ev, km_key = ?c\<rparr>]"
    by (simp add: send_event_run ev_def)
  ultimately show ?thesis using b(1) by blast
qed

definition demo_visit_json :: "visited_service \<Rightarrow> pyval" where
  "demo_visit_json v = PDict [(''svc'', PStr (svc v)), (''tstamp'', PInt (vs_tstamp v))]"

definition demo_event_json :: "benchmark_event \<Rightarrow> pyval" where
  "demo_event_json e = PDict [(''client_id'', PStr (client_id e)), (''action_id'', PStr (action_id e)), (''message_id'', PStr (message_id e)),
     (''tstamp'', PInt (tstamp e)), (''visited'', PList (map demo_visit_json (visited e)))]"

lemma demo_json_event: "json_event demo_event_json demo_visit_json e"
  by (simp add: json_event_def demo_event_json_def demo_visit_json_def kw_PDict dict_get_def)

definition demo_sent :: benchmark_event where
  "demo_sent = sent_event sample_emitter (sample_event ''a'' (AnyPayload PNone)) ''BAI_APP_STATUS'' (idle_world [])"

theorem reported_event_repeated_witness:
  "\<exists>b' ys. source_loop (demo_bff\<lparr>be_parse := \<lambda>_. Inr (demo_event_json demo_sent)\<rparr>) source_topics
       [\<lambda>t. if t = ''BAI_APP_STATUS'' then [Some []] else []] (demo_bff_world []) = (Inr (), b') \<and>
     all_pages 2 (demo_bff\<lparr>be_parse := \<lambda>_. Inr (demo_event_json demo_sent)\<rparr>) (client_id (sample_event ''a'' (AnyPayload PNone))) ''a''
       (client_since (demo_event_json demo_sent)) b' = Some ys \<and>
     demo_event_json demo_sent \<in> set ys"
proof -
  let ?e = "sample_event ''a'' (AnyPayload PNone)" and ?w = "idle_world []"
  let ?ev = demo_sent
  let ?E = "demo_bff\<lparr>be_parse := \<lambda>_. Inr (demo_event_json ?ev)\<rparr>"
  have ok: "ddb_ok ?E demo_rows" "ddb_answers ?E"
    using demo_ddb_ok demo_ddb_answers by (simp_all add: ddb_ok_def ddb_answers_def)
  have rows: "demo_rows (bw_db (demo_bff_world [])) (action_id ?e) = []" by (simp add: demo_rows_def demo_bff_world_def)
  then have of: "rows_of ?E (client_id ?e) (demo_rows (bw_db (demo_bff_world [])) (action_id ?e))" by (simp add: rows_of_def)
  have parse: "be_parse ?E [] = Inr (demo_event_json ?ev)" by simp
  have clock: "clock ?w (clock_reads ?w) = 0" "clock ?w (Suc (clock_reads ?w)) = 1" by (simp_all add: idle_world_def)
  have len: "length (show_int 0) = length (show_int 1)" by code_simp
  from reported_event_repeated [where rows = demo_rows and b = "demo_bff_world []" and fuel = 2, OF demo_sent_def ok of demo_json_event parse]
  have "\<exists>b' ys. source_loop ?E source_topics [\<lambda>t. if t = ''BAI_APP_STATUS'' then [Some []] else []] (demo_bff_world []) = (Inr (), b') \<and>
      all_pages 2 ?E (client_id ?e) (action_id ?e) (client_since (demo_event_json ?ev)) b' = Some ys \<and> demo_event_json ?ev \<in> set ys"
    unfolding clock rows using len by auto
  moreover have "action_id ?e = ''a''" by (simp add: sample_event_def)
  ultimately show ?thesis by simp
qed

end
